(* ===== verification/Prelude.thy ===== *)
theory Prelude
  imports
    Main
    Complex_Main
    "HOL-Library.AList"
    "HOL-Library.Char_ord"
    "HOL-Library.List_Lexorder"
    "HOL-Library.Word"
    "HOL-Library.Multiset"
    "HOL-Library.Sublist"
begin

text \<open>
  Shared vocabulary of the development.

  \<^item> Strings. A Rust \<open>str\<close> or \<open>String\<close> is its list of UTF-8 bytes, a HOL \<open>string\<close>.
    The functions of \<open>core::str\<close> the program calls (\<open>split\<close>, \<open>trim\<close>,
    \<open>trim_end_matches\<close>, \<open>strip_prefix\<close>, \<open>strip_suffix\<close>, \<open>starts_with\<close>, \<open>ends_with\<close>,
    \<open>to_lowercase\<close>) are defined here. \<open>trim\<close> and \<open>to_lowercase\<close> act on the ASCII range;
    the program applies them to host names, header values and configuration lists.
  \<^item> Hash maps. A \<open>HashMap\<close> is an association list with distinct keys
    (\<open>AList.update\<close>, \<open>AList.delete\<close>, \<open>AList.map_entry\<close>); the order of the list stands for
    the unspecified iteration order, so a result that must not depend on it is
    proved invariant under permutation.
  \<^item> Time. A \<open>Duration\<close> or \<open>Instant\<close> is a number of nanoseconds.
  \<^item> Monotone counters (\<open>u64\<close> sequence numbers, generations, timer ids) are natural
    numbers: one increment per event cannot reach \<open>2 ^ 64\<close>. Integers whose width
    decides a result keep it.
\<close>

named_theorems str_simps \<open>facts about the string functions\<close>
named_theorems inv_intros \<open>preservation of component invariants\<close>

type_synonym duration = nat
type_synonym instant = nat

definition from_secs :: "nat \<Rightarrow> duration" where
  "from_secs s = s * 1000000000"

definition from_millis :: "nat \<Rightarrow> duration" where
  "from_millis ms = ms * 1000000"

subsection \<open>Paths\<close>

text \<open>An absolute path is the list of its components.\<close>

type_synonym path = "string list"

definition path_display :: "path \<Rightarrow> string" where
  "path_display p = (if p = [] then ''/'' else concat (map (\<lambda>c. CHR ''/'' # c) p))"

subsection \<open>Strings\<close>

fun split_on :: "char \<Rightarrow> string \<Rightarrow> string list" where
  "split_on c [] = [[]]"
| "split_on c (x # xs) =
     (if x = c then [] # split_on c xs
      else (case split_on c xs of [] \<Rightarrow> [[x]] | p # ps \<Rightarrow> (x # p) # ps))"

fun join_with :: "char \<Rightarrow> string list \<Rightarrow> string" where
  "join_with c [] = []"
| "join_with c [p] = p"
| "join_with c (p # q # ps) = p @ c # join_with c (q # ps)"

definition trim_end_matches :: "char \<Rightarrow> string \<Rightarrow> string" where
  "trim_end_matches c s = rev (dropWhile (\<lambda>x. x = c) (rev s))"

definition is_space :: "char \<Rightarrow> bool" where
  "is_space x = (of_char x \<in> {9, 10, 11, 12, 13, 32 :: nat})"

definition trim :: "string \<Rightarrow> string" where
  "trim s = rev (dropWhile is_space (rev (dropWhile is_space s)))"

definition strip_prefix :: "string \<Rightarrow> string \<Rightarrow> string option" where
  "strip_prefix p s = (if take (length p) s = p then Some (drop (length p) s) else None)"

definition strip_suffix :: "string \<Rightarrow> string \<Rightarrow> string option" where
  "strip_suffix p s = map_option rev (strip_prefix (rev p) (rev s))"

definition starts_with :: "string \<Rightarrow> string \<Rightarrow> bool" where
  "starts_with s p = (take (length p) s = p)"

definition ends_with :: "string \<Rightarrow> string \<Rightarrow> bool" where
  "ends_with s p = starts_with (rev s) (rev p)"

definition lower_char :: "char \<Rightarrow> char" where
  "lower_char x =
     (let n = of_char x :: nat in if 65 \<le> n \<and> n \<le> 90 then char_of (n + 32) else x)"

definition to_lowercase :: "string \<Rightarrow> string" where
  "to_lowercase s = map lower_char s"

fun show_nat :: "nat \<Rightarrow> string" where
  "show_nat n =
     (if n < 10 then [char_of (48 + n)] else show_nat (n div 10) @ [char_of (48 + n mod 10)])"

declare show_nat.simps [simp del]

lemma split_on_not_Nil [simp]: "split_on c s \<noteq> []"
  by (induction s) (auto split: list.splits)

lemma join_split_on [str_simps]: "join_with c (split_on c s) = s"
proof (induction s)
  case Nil
  then show ?case by simp
next
  case (Cons x xs)
  obtain p ps where ps: "split_on c xs = p # ps"
    by (cases "split_on c xs") auto
  with Cons show ?case by (cases ps) auto
qed

lemma split_on_pieces [str_simps]: "p \<in> set (split_on c s) \<Longrightarrow> c \<notin> set p"
  by (induction s arbitrary: p) (auto split: list.splits if_splits)

lemma length_split_on [str_simps]: "length (split_on c s) = Suc (count_list s c)"
  by (induction s) (auto split: list.splits)

lemma split_on_no_sep [str_simps]: "c \<notin> set s \<Longrightarrow> split_on c s = [s]"
  by (induction s) auto

lemma split_on_append_sep [str_simps]:
  "c \<notin> set s \<Longrightarrow> split_on c (s @ c # t) = s # split_on c t"
  by (induction s) auto

lemma strip_prefix_Some [str_simps]: "strip_prefix p s = Some r \<longleftrightarrow> s = p @ r"
  by (auto simp: strip_prefix_def) (metis append_take_drop_id)+

lemma strip_suffix_Some [str_simps]: "strip_suffix p s = Some r \<longleftrightarrow> s = r @ p"
proof -
  have "strip_suffix p s = Some r \<longleftrightarrow> strip_prefix (rev p) (rev s) = Some (rev r)"
    by (auto simp: strip_suffix_def)
  also have "\<dots> \<longleftrightarrow> rev s = rev p @ rev r"
    by (rule strip_prefix_Some)
  also have "\<dots> \<longleftrightarrow> s = r @ p"
    by (metis rev_append rev_rev_ident)
  finally show ?thesis .
qed

lemma starts_with_iff [str_simps]: "starts_with s p \<longleftrightarrow> (\<exists>r. s = p @ r)"
  by (auto simp: starts_with_def) (metis append_take_drop_id)

lemma ends_with_iff [str_simps]: "ends_with s p \<longleftrightarrow> (\<exists>r. s = r @ p)"
  by (auto simp: ends_with_def starts_with_iff) (metis rev_append rev_rev_ident)

lemma split_on_join [str_simps]:
  "ps \<noteq> [] \<Longrightarrow> (\<forall>p \<in> set ps. c \<notin> set p) \<Longrightarrow> split_on c (join_with c ps) = ps"
  by (induction c ps rule: join_with.induct) (auto simp: split_on_no_sep split_on_append_sep)

subsection \<open>Decimal numbers\<close>

definition is_digit :: "char \<Rightarrow> bool" where
  "is_digit c \<longleftrightarrow> 48 \<le> (of_char c :: nat) \<and> (of_char c :: nat) \<le> 57"

definition digits_value :: "string \<Rightarrow> nat" where
  "digits_value ds = foldl (\<lambda>n c. 10 * n + ((of_char c :: nat) - 48)) 0 ds"

lemma digits_value_show [simp]: "digits_value (show_nat n) = n"
proof (induction n rule: less_induct)
  case (less n)
  show ?case
  proof (cases "n < 10")
    case True
    then show ?thesis by (simp add: show_nat.simps [of n] digits_value_def)
  next
    case False
    with less [of "n div 10"] show ?thesis
      by (simp add: show_nat.simps [of n] digits_value_def)
  qed
qed

lemma show_nat_inj: "show_nat m = show_nat n \<Longrightarrow> m = n"
  by (metis digits_value_show)

lemma is_digit_show: "list_all is_digit (show_nat n)"
proof (induction n rule: less_induct)
  case (less n)
  have d: "is_digit (char_of (48 + r))" if "r < 10" for r :: nat
    using that by (simp add: is_digit_def)
  show ?case
  proof (cases "n < 10")
    case True
    then show ?thesis using d [of n] by (simp add: show_nat.simps [of n])
  next
    case False
    with less [of "n div 10"] d [of "n mod 10"] show ?thesis
      by (simp add: show_nat.simps [of n])
  qed
qed

subsection \<open>Hexadecimal bytes\<close>

text \<open>\<open>{:02x}\<close> of a byte.\<close>

definition hex_digit :: "nat \<Rightarrow> char" where
  "hex_digit n = (if n < 10 then char_of (48 + n) else char_of (87 + n))"

definition hex_byte :: "nat \<Rightarrow> string" where
  "hex_byte b = [hex_digit (b div 16), hex_digit (b mod 16)]"

subsection \<open>Association lists as hash maps\<close>

lemma map_of_update [simp]: "map_of (AList.update k v al) = (map_of al)(k \<mapsto> v)"
  by (rule update_conv')

lemma map_of_delete [simp]: "map_of (AList.delete k al) = (map_of al)(k := None)"
  by (rule delete_conv')

lemma map_of_entry [simp]:
  "map_of (AList.map_entry k f al) =
     (map_of al)(k := map_option f (map_of al k))"
  by (induction al) (auto simp: fun_eq_iff)

lemma dom_eq_fst_set: "dom (map_of al) = fst ` set al"
  by (rule dom_map_of_conv_image_fst)

lemma map_of_perm:
  assumes "distinct (map fst xs)" and "mset xs = mset ys"
  shows "map_of xs = map_of ys"
proof -
  have "mset (map fst xs) = mset (map fst ys)"
    using assms(2) by (metis mset_map)
  then have "distinct (map fst ys)"
    using assms(1) by (metis mset_eq_imp_distinct_iff)
  moreover have "set xs = set ys"
    using assms(2) by (metis set_mset_mset)
  ultimately show ?thesis
    using assms(1) by (metis map_of_inject_set)
qed

subsection \<open>Sorting by a key\<close>

text \<open>
  A sort whose key separates the elements gives the same list whatever the order of
  its input.
\<close>

lemma sort_key_perm:
  assumes "inj_on f (set xs)" and "mset xs = mset ys"
  shows "sort_key f xs = sort_key f ys"
proof -
  have "mset (map f (sort_key f xs)) = mset (map f (sort_key f ys))"
    using assms(2) by simp
  then have "map f (sort_key f xs) = map f (sort_key f ys)"
    by (metis sorted_list_of_multiset_mset sorted_sort_key sorted_sort_id)
  moreover have "set xs = set ys"
    using assms(2) by (metis set_mset_mset)
  ultimately show ?thesis
    using assms(1) by (auto intro: map_inj_on simp: inj_on_def)
qed

end
