(* ===== verification/State.thy ===== *)
theory State
  imports Prelude
begin

text \<open>
  The typed state model of \<open>src/state.rs\<close>: the palette mode, the MPRIS playback status and
  the per-player record. Parsing is a function into \<open>option\<close>; the error values of the
  source carry no information the program uses.
\<close>

datatype mode = Dark | Light

fun mode_as_str :: "mode \<Rightarrow> string" where
  "mode_as_str Dark = ''dark''"
| "mode_as_str Light = ''light''"

definition mode_from_str :: "string \<Rightarrow> mode option" where
  "mode_from_str s =
     (if s = ''dark'' then Some Dark
      else if s = ''light'' then Some Light
      else None)"

datatype playback_status = Playing | Paused | Stopped

definition status_from_str :: "string \<Rightarrow> playback_status option" where
  "status_from_str s =
     (if s = ''Playing'' then Some Playing
      else if s = ''Paused'' then Some Paused
      else if s = ''Stopped'' then Some Stopped
      else None)"

record player_state =
  ps_status :: playback_status
  ps_art_url :: string
  ps_seq :: nat

lemma mode_parse_print [simp]: "mode_from_str (mode_as_str m) = Some m"
  by (cases m) (simp_all add: mode_from_str_def)

lemma mode_print_parse: "mode_from_str s = Some m \<longleftrightarrow> s = mode_as_str m"
  by (cases m) (auto simp: mode_from_str_def)

lemma status_from_str_cases:
  "status_from_str s = Some p \<longleftrightarrow>
     s = (case p of Playing \<Rightarrow> ''Playing'' | Paused \<Rightarrow> ''Paused'' | Stopped \<Rightarrow> ''Stopped'')"
  by (cases p) (auto simp: status_from_str_def)

end
