(* ===== verification/Jobs.thy ===== *)
theory Jobs
  imports State
begin

text \<open>
  The data the coordinator and the worker exchange (\<open>src/worker.rs\<close>): what to converge
  to (\<open>desired\<close>), one unit of work (\<open>job\<close>), how it ended (\<open>job_result\<close>), and the
  one-slot mailbox that hands jobs over. The slot is the state of the mailbox; its mutex makes
  every operation atomic, so each is a function on the slot. Blocking is a value
  (\<open>Block\<close>): a blocked \<open>get\<close> changes nothing until it is woken.
\<close>

record cover_target =
  ct_art_url :: string
  ct_covers_dir :: "path option"

record desired =
  d_target :: "cover_target option"
  d_mode :: mode

datatype outcome = Committed | SkippedDuplicate | FailedRetryable | Rejected

record job_result =
  jr_generation :: nat
  jr_outcome :: outcome
  jr_cover_id :: "string option"

record job =
  j_generation :: nat
  j_desired :: desired

type_synonym mailbox = "job option"

definition mailbox_new :: mailbox where
  "mailbox_new = None"

definition mailbox_put :: "job \<Rightarrow> mailbox \<Rightarrow> mailbox" where
  "mailbox_put j slot = Some j"

datatype 'a poll = Block | Return 'a

definition mailbox_get :: "bool \<Rightarrow> mailbox \<Rightarrow> job option poll \<times> mailbox" where
  "mailbox_get stop slot =
     (if slot = None \<and> \<not> stop then (Block, slot)
      else if stop then (Return None, None)
      else (Return slot, None))"

definition mailbox_clear :: "mailbox \<Rightarrow> mailbox" where
  "mailbox_clear slot = None"

text \<open>\<open>wake\<close> takes the lock and notifies; the slot itself is untouched.\<close>

definition mailbox_wake :: "mailbox \<Rightarrow> mailbox" where
  "mailbox_wake slot = slot"

definition superseded :: "nat \<Rightarrow> mailbox \<Rightarrow> bool" where
  "superseded gen slot = (case slot of None \<Rightarrow> False | Some j \<Rightarrow> gen < j_generation j)"

subsection \<open>The mailbox as a latest-value register\<close>

text \<open>
  What the two threads rely on: a \<open>put\<close> is what the next \<open>get\<close> returns, whatever
  was there before; \<open>stop\<close> wins over a pending job and drains it; a job is handed over
  once.
\<close>

locale handoff =
  fixes put :: "'j \<Rightarrow> 'q \<Rightarrow> 'q"
    and get :: "bool \<Rightarrow> 'q \<Rightarrow> 'j option poll \<times> 'q"
    and clear :: "'q \<Rightarrow> 'q"
    and pending :: "'q \<Rightarrow> 'j option"
  assumes pending_put: "pending (put j q) = Some j"
    and pending_clear: "pending (clear q) = None"
    and get_blocks: "pending q = None \<Longrightarrow> get False q = (Block, q)"
    and get_takes: "pending q = Some j \<Longrightarrow> fst (get False q) = Return (Some j)"
    and get_drains: "pending q = Some j \<Longrightarrow> pending (snd (get False q)) = None"
    and get_stop: "fst (get True q) = Return None"
    and get_stop_drains: "pending (snd (get True q)) = None"
begin

primrec put_all :: "'j list \<Rightarrow> 'q \<Rightarrow> 'q" where
  "put_all [] q = q"
| "put_all (j # js) q = put_all js (put j q)"

lemma pending_put_all: "js \<noteq> [] \<Longrightarrow> pending (put_all js q) = Some (last js)"
proof (induction js arbitrary: q)
  case Nil
  then show ?case by simp
next
  case (Cons j js)
  then show ?case by (cases "js = []") (simp_all add: pending_put)
qed

lemma coalesce: "js \<noteq> [] \<Longrightarrow> fst (get False (put_all js q)) = Return (Some (last js))"
  by (rule get_takes [OF pending_put_all])

lemma handed_over_once:
  assumes "pending q = Some j"
  shows "fst (get False (snd (get False q))) = Block"
  using get_blocks [OF get_drains [OF assms]] by simp

lemma stop_wins: "fst (get True (put_all js q)) = Return None"
  by (rule get_stop)

end

lemma superseded_iff:
  "superseded gen slot \<longleftrightarrow> (\<exists>j. slot = Some j \<and> gen < j_generation j)"
  by (auto simp: superseded_def split: option.splits)

lemma superseded_irrefl [simp]: "superseded gen None = False"
  by (simp add: superseded_def)

lemma superseded_put [simp]: "superseded gen (mailbox_put j slot) = (gen < j_generation j)"
  by (simp add: superseded_def mailbox_put_def)

interpretation mbox: handoff mailbox_put mailbox_get mailbox_clear "\<lambda>slot. slot"
  by unfold_locales
    (auto simp: mailbox_put_def mailbox_get_def mailbox_clear_def)

end
