(* ===== verification/Select.thy ===== *)
theory Select
  imports Jobs "HOL-Library.Product_Lexorder"
begin

text \<open>
  Desired-state selection (\<open>src/select.rs\<close>): rank the playing players, newest first, and take
  the first that has an art source and is eligible.
\<close>

datatype selection =
  Apply desired string
| Revert desired
| Hold

type_synonym players = "(string \<times> player_state) list"

text \<open>The comparator: sequence number descending, then name ascending.\<close>

definition rank_key :: "string \<times> player_state \<Rightarrow> int \<times> string" where
  "rank_key e = (- int (ps_seq (snd e)), fst e)"

text \<open>The loop over the ranked players.\<close>

fun first_actionable ::
  "(string \<Rightarrow> path option) \<Rightarrow> (string \<Rightarrow> bool) \<Rightarrow> mode \<Rightarrow> players \<Rightarrow> selection" where
  "first_actionable dir_for eligible m [] = Hold"
| "first_actionable dir_for eligible m ((name, p) # ps) =
     (let covers_dir = dir_for name in
      if (ps_art_url p \<noteq> [] \<or> covers_dir \<noteq> None) \<and> eligible name
      then Apply \<lparr>d_target = Some \<lparr>ct_art_url = ps_art_url p, ct_covers_dir = covers_dir\<rparr>,
                  d_mode = m\<rparr> name
      else first_actionable dir_for eligible m ps)"

definition decide ::
  "players \<Rightarrow> mode \<Rightarrow> (string \<Rightarrow> path option) \<Rightarrow> (string \<Rightarrow> bool) \<Rightarrow> selection" where
  "decide players m dir_for eligible =
     (let playing = filter (\<lambda>e. ps_status (snd e) = Playing) players in
      if playing = [] then Revert \<lparr>d_target = None, d_mode = m\<rparr>
      else first_actionable dir_for eligible m (sort_key rank_key playing))"

subsection \<open>What selection promises\<close>

definition playing_players :: "players \<Rightarrow> players" where
  "playing_players ps = filter (\<lambda>e. ps_status (snd e) = Playing) ps"

definition actionable ::
  "(string \<Rightarrow> path option) \<Rightarrow> (string \<Rightarrow> bool) \<Rightarrow> string \<times> player_state \<Rightarrow> bool" where
  "actionable dir_for eligible e \<longleftrightarrow>
     (ps_art_url (snd e) \<noteq> [] \<or> dir_for (fst e) \<noteq> None) \<and> eligible (fst e)"

definition desired_for ::
  "(string \<Rightarrow> path option) \<Rightarrow> mode \<Rightarrow> string \<times> player_state \<Rightarrow> desired" where
  "desired_for dir_for m e =
     \<lparr>d_target = Some \<lparr>ct_art_url = ps_art_url (snd e), ct_covers_dir = dir_for (fst e)\<rparr>,
      d_mode = m\<rparr>"

lemma first_actionable_find:
  "first_actionable dir_for eligible m ps =
     (case find (actionable dir_for eligible) ps of
        None \<Rightarrow> Hold | Some e \<Rightarrow> Apply (desired_for dir_for m e) (fst e))"
  by (induction ps) (auto simp: actionable_def desired_for_def Let_def)

lemma decide_find:
  "decide ps m dir_for eligible =
     (if playing_players ps = [] then Revert \<lparr>d_target = None, d_mode = m\<rparr>
      else case find (actionable dir_for eligible) (sort_key rank_key (playing_players ps)) of
             None \<Rightarrow> Hold | Some e \<Rightarrow> Apply (desired_for dir_for m e) (fst e))"
  by (simp add: decide_def first_actionable_find playing_players_def Let_def)

lemma find_sorted_least:
  assumes "sorted (map f xs)" and "find P xs = Some x" and "y \<in> set xs" and "P y"
  shows "f x \<le> f y"
  using assms by (induction xs) (auto split: if_splits)

lemma find_mem: "find P xs = Some x \<Longrightarrow> x \<in> set xs \<and> P x"
  by (induction xs) (auto split: if_splits)

lemma rank_key_seq: "rank_key e \<le> rank_key e' \<Longrightarrow> ps_seq (snd e') \<le> ps_seq (snd e)"
  by (auto simp: rank_key_def less_eq_prod_def)

lemma decide_Apply:
  assumes "decide ps m dir_for eligible = Apply d w"
  obtains p where "(w, p) \<in> set ps" "ps_status p = Playing"
    "actionable dir_for eligible (w, p)" "d = desired_for dir_for m (w, p)"
    "\<And>n q. (n, q) \<in> set ps \<Longrightarrow> ps_status q = Playing \<Longrightarrow> actionable dir_for eligible (n, q) \<Longrightarrow>
       ps_seq q \<le> ps_seq p"
proof -
  obtain e where e: "find (actionable dir_for eligible) (sort_key rank_key (playing_players ps)) = Some e"
    and d: "d = desired_for dir_for m e" and w: "w = fst e"
    using assms by (auto simp: decide_find split: if_splits option.splits)
  have e': "e = (w, snd e)" using w by simp
  from find_mem [OF e] have mem: "e \<in> set ps" "ps_status (snd e) = Playing" "actionable dir_for eligible e"
    by (auto simp: playing_players_def)
  have "ps_seq q \<le> ps_seq (snd e)"
    if "(n, q) \<in> set ps" "ps_status q = Playing" "actionable dir_for eligible (n, q)" for n q
  proof -
    have "rank_key e \<le> rank_key (n, q)"
      by (rule find_sorted_least [OF _ e]) (use that in \<open>auto simp: playing_players_def\<close>)
    then show ?thesis using rank_key_seq by fastforce
  qed
  with mem d e' that show thesis by metis
qed

lemma decide_Revert:
  "decide ps m dir_for eligible = Revert d \<longleftrightarrow>
     d = \<lparr>d_target = None, d_mode = m\<rparr> \<and> (\<forall>e \<in> set ps. ps_status (snd e) \<noteq> Playing)"
  by (auto simp: decide_find playing_players_def filter_empty_conv split: option.splits)

lemma decide_Hold:
  "decide ps m dir_for eligible = Hold \<longleftrightarrow>
     (\<exists>e \<in> set ps. ps_status (snd e) = Playing) \<and>
     (\<forall>e \<in> set ps. ps_status (snd e) = Playing \<longrightarrow> \<not> actionable dir_for eligible e)"
  by (auto simp: decide_find playing_players_def filter_empty_conv find_None_iff
      split: option.splits dest!: find_mem) force

lemma rank_key_inj: "distinct (map fst ps) \<Longrightarrow> inj_on rank_key (set ps)"
  by (auto simp: inj_on_def rank_key_def distinct_map)

lemma distinct_playing: "distinct (map fst ps) \<Longrightarrow> distinct (map fst (playing_players ps))"
  by (simp add: playing_players_def distinct_map_filter)

text \<open>The iteration order of the hash map does not matter.\<close>

lemma decide_perm_eq:
  assumes "distinct (map fst ps)" and "mset ps = mset qs"
  shows "decide ps m dir_for eligible = decide qs m dir_for eligible"
proof -
  have m: "mset (playing_players ps) = mset (playing_players qs)"
    using assms(2) by (simp add: playing_players_def)
  then have "sort_key rank_key (playing_players ps) = sort_key rank_key (playing_players qs)"
    by (intro sort_key_perm rank_key_inj distinct_playing assms(1))
  moreover have "playing_players ps = [] \<longleftrightarrow> playing_players qs = []"
    using m by (metis mset_zero_iff)
  ultimately show ?thesis by (simp add: decide_find)
qed

lemma decide_mode:
  "decide ps m dir_for eligible = Apply d w \<Longrightarrow> d_mode d = m \<and> d_target d \<noteq> None"
  by (elim decide_Apply) (simp add: desired_for_def)

lemmas decide_cases = selection.exhaust [of "decide ps m dir_for eligible" for ps m dir_for eligible]

end
