(* ===== verification/Coordinator.thy ===== *)
theory Coordinator
  imports Select
begin

text \<open>
  The event-pipeline coordinator of \<open>src/coordinator.rs\<close>. It is generic in its \<open>Host\<close>:
  the trait is a record of operations on a host state \<open>'h\<close> (\<open>host_ops\<close>), passed to every
  handler that calls it, and the host state is the field \<open>c_host\<close>. Each method of the source is
  one definition that returns the updated coordinator. Warnings are kept as data
  (\<open>warning\<close>): the category and detail of a dropped input, or the desire given up on.
  The \<open>log::info!\<close> lines of \<open>maybe_submit\<close> are not modelled.
\<close>

subsection \<open>Constants and small functions\<close>

definition MPRIS_PREFIX :: string where
  "MPRIS_PREFIX = ''org.mpris.MediaPlayer2.''"

definition DROP_LOG_INTERVAL :: duration where
  "DROP_LOG_INTERVAL = from_secs 60"

definition RETRY_BASE_MS :: nat where "RETRY_BASE_MS = 1000"
definition RETRY_CAP_MS :: nat where "RETRY_CAP_MS = 30000"
definition RETRY_MAX_ATTEMPTS :: nat where "RETRY_MAX_ATTEMPTS = 3"
definition RETRY_JITTER :: real where "RETRY_JITTER = 15 / 100"

definition U64_MAX :: nat where "U64_MAX = 2 ^ 64 - 1"

text \<open>\<open>u64::checked_shl\<close> on 1, \<open>saturating_mul\<close>, and the saturating cast \<open>f64 as u64\<close>.\<close>

definition checked_shl_one :: "nat \<Rightarrow> nat option" where
  "checked_shl_one n = (if n < 64 then Some (2 ^ n) else None)"

definition saturating_mul :: "nat \<Rightarrow> nat \<Rightarrow> nat" where
  "saturating_mul a b = min (a * b) U64_MAX"

definition real_as_u64 :: "real \<Rightarrow> nat" where
  "real_as_u64 x = min (nat \<lfloor>x\<rfloor>) U64_MAX"

definition backoff_delay_ms :: "nat \<Rightarrow> real \<Rightarrow> nat" where
  "backoff_delay_ms attempt jitter =
     (let factor = (case checked_shl_one (attempt - 1) of None \<Rightarrow> U64_MAX | Some f \<Rightarrow> f);
          capped = min (saturating_mul RETRY_BASE_MS factor) RETRY_CAP_MS
      in real_as_u64 (real capped * jitter))"

definition mode_from_color_scheme :: "nat \<Rightarrow> mode" where
  "mode_from_color_scheme value = (if value = 2 then Light else Dark)"

definition player_name_from_bus :: "string \<Rightarrow> string option" where
  "player_name_from_bus bus_name = strip_prefix MPRIS_PREFIX bus_name"

subsection \<open>State\<close>

datatype cover_status = Pending | Ready | Retrying | Exhausted | Rejected

fun eligible_status :: "cover_status \<Rightarrow> bool" where
  "eligible_status Pending = True"
| "eligible_status Ready = True"
| "eligible_status Retrying = True"
| "eligible_status Exhausted = False"
| "eligible_status Rejected = False"

datatype cover_identity = Url string | Dir path

record cover_state =
  cs_identity :: cover_identity
  cs_status :: cover_status

type_synonym timer_id = nat

datatype warning =
  DroppedInput string string
| GivingUpOn "desired option"

record 'h host_ops =
  h_submit :: "nat \<Rightarrow> desired \<Rightarrow> 'h \<Rightarrow> 'h"
  h_schedule_retry :: "nat \<Rightarrow> 'h \<Rightarrow> timer_id \<times> 'h"
  h_cancel_retry :: "timer_id \<Rightarrow> 'h \<Rightarrow> 'h"
  h_jitter :: "'h \<Rightarrow> real \<times> 'h"
  h_now :: "'h \<Rightarrow> duration"
  h_warn :: "warning \<Rightarrow> 'h \<Rightarrow> 'h"

record 'h coordinator =
  c_players :: players
  c_covers :: "(string \<times> cover_state) list"
  c_seq :: nat
  c_generation :: nat
  c_mode :: mode
  c_applied :: "string option"
  c_applied_target :: "cover_target option"
  c_last_desired :: "desired option"
  c_last_submitted :: "desired option"
  c_stopping :: bool
  c_host :: 'h
  c_covers_dir_for :: "string \<Rightarrow> path option"
  c_submitted_player :: "string option"
  c_retry_timer :: "timer_id option"
  c_retry_desire :: "desired option"
  c_retry_player :: "string option"
  c_retry_attempt :: nat
  c_allowed_bases :: "string list"
  c_last_drop_log :: "(string \<times> duration) list"

definition parse_allowed :: "string \<Rightarrow> string list" where
  "parse_allowed allowed = filter (\<lambda>p. p \<noteq> []) (map trim (split_on (CHR '','') allowed))"

definition coordinator_new ::
  "'h \<Rightarrow> (string \<Rightarrow> path option) \<Rightarrow> mode \<Rightarrow> string \<Rightarrow> 'h coordinator" where
  "coordinator_new host dir_for m allowed_players =
     \<lparr>c_players = [], c_covers = [], c_seq = 0, c_generation = 0, c_mode = m,
      c_applied = None, c_applied_target = None, c_last_desired = None, c_last_submitted = None,
      c_stopping = False, c_host = host, c_covers_dir_for = dir_for, c_submitted_player = None,
      c_retry_timer = None, c_retry_desire = None, c_retry_player = None, c_retry_attempt = 0,
      c_allowed_bases = parse_allowed allowed_players, c_last_drop_log = []\<rparr>"

subsection \<open>Internals\<close>

definition log_drop ::
  "'h host_ops \<Rightarrow> string \<Rightarrow> string \<Rightarrow> 'h coordinator \<Rightarrow> 'h coordinator" where
  "log_drop H category detail c =
     (let t = h_now H (c_host c);
          due = (case map_of (c_last_drop_log c) category of
                   None \<Rightarrow> True
                 | Some prev \<Rightarrow> DROP_LOG_INTERVAL \<le> t - prev)
      in if due
         then c\<lparr>c_last_drop_log := AList.update category t (c_last_drop_log c),
                c_host := h_warn H (DroppedInput category detail) (c_host c)\<rparr>
         else c)"

definition base_matches :: "string \<Rightarrow> string \<Rightarrow> bool" where
  "base_matches name base \<longleftrightarrow>
     name = base \<or>
     (case strip_prefix base name of None \<Rightarrow> False | Some rest \<Rightarrow> starts_with rest ''.'')"

definition allowed_name :: "'h coordinator \<Rightarrow> string \<Rightarrow> bool" where
  "allowed_name c name = list_ex (base_matches name) (c_allowed_bases c)"

definition art_identity :: "'h coordinator \<Rightarrow> string \<Rightarrow> string \<Rightarrow> cover_identity option" where
  "art_identity c name art_url =
     (if art_url \<noteq> [] then Some (Url art_url) else map_option Dir (c_covers_dir_for c name))"

definition eligible_player :: "'h coordinator \<Rightarrow> string \<Rightarrow> bool" where
  "eligible_player c n =
     (case map_of (c_covers c) n of None \<Rightarrow> True | Some st \<Rightarrow> eligible_status (cs_status st))"

definition coord_decide :: "'h coordinator \<Rightarrow> selection" where
  "coord_decide c = decide (c_players c) (c_mode c) (c_covers_dir_for c) (eligible_player c)"

definition with_status :: "cover_status \<Rightarrow> cover_state \<Rightarrow> cover_state" where
  "with_status s st = st\<lparr>cs_status := s\<rparr>"

definition set_cover_status :: "cover_status \<Rightarrow> 'h coordinator \<Rightarrow> 'h coordinator" where
  "set_cover_status status c =
     (case c_submitted_player c of
        None \<Rightarrow> c
      | Some player \<Rightarrow> c\<lparr>c_covers := AList.map_entry player (with_status status) (c_covers c)\<rparr>)"

definition demote :: "cover_state \<Rightarrow> cover_state" where
  "demote st = (if cs_status st = Retrying then st\<lparr>cs_status := Pending\<rparr> else st)"

definition cancel_retry :: "'h host_ops \<Rightarrow> 'h coordinator \<Rightarrow> 'h coordinator" where
  "cancel_retry H c =
     (let c' = (case c_retry_timer c of
                  None \<Rightarrow> c
                | Some timer \<Rightarrow>
                    (let c1 = c\<lparr>c_retry_timer := None, c_host := h_cancel_retry H timer (c_host c)\<rparr>
                     in case c_retry_player c1 of
                          None \<Rightarrow> c1
                        | Some p \<Rightarrow> c1\<lparr>c_covers := AList.map_entry p demote (c_covers c1)\<rparr>))
      in c'\<lparr>c_retry_desire := None, c_retry_player := None, c_retry_attempt := 0\<rparr>)"

definition stable_identity :: "desired \<Rightarrow> bool" where
  "stable_identity d = (case d_target d of None \<Rightarrow> True | Some t \<Rightarrow> ct_art_url t \<noteq> [])"

definition maybe_submit ::
  "'h host_ops \<Rightarrow> desired \<Rightarrow> string option \<Rightarrow> bool \<Rightarrow> 'h coordinator \<Rightarrow> 'h coordinator" where
  "maybe_submit H desired player dir_resubmit c =
     (if c_stopping c then c
      else
        let c1 = c\<lparr>c_last_desired := Some desired\<rparr> in
        if c_last_submitted c1 = Some desired then
          (if \<not> dir_resubmit \<or> stable_identity desired then c1
           else
             let c2 = c1\<lparr>c_submitted_player := player\<rparr>
             in c2\<lparr>c_host := h_submit H (c_generation c2) desired (c_host c2)\<rparr>)
        else
          let c2 = c1\<lparr>c_generation := c_generation c1 + 1\<rparr>;
              c3 = cancel_retry H c2;
              c4 = c3\<lparr>c_last_submitted := Some desired, c_submitted_player := player\<rparr>
          in c4\<lparr>c_host := h_submit H (c_generation c4) desired (c_host c4)\<rparr>)"

definition decide_and_submit :: "'h host_ops \<Rightarrow> bool \<Rightarrow> 'h coordinator \<Rightarrow> 'h coordinator" where
  "decide_and_submit H dir_resubmit c =
     (case coord_decide c of
        Hold \<Rightarrow> c
      | Apply desired winner \<Rightarrow> maybe_submit H desired (Some winner) dir_resubmit c
      | Revert desired \<Rightarrow> maybe_submit H desired None dir_resubmit c)"

definition arm_retry :: "'h host_ops \<Rightarrow> 'h coordinator \<Rightarrow> bool \<times> 'h coordinator" where
  "arm_retry H c =
     (let desire = c_last_submitted c;
          c1 = (if desire \<noteq> c_retry_desire c
                then c\<lparr>c_retry_desire := desire, c_retry_attempt := 0\<rparr> else c);
          c2 = c1\<lparr>c_retry_attempt := c_retry_attempt c1 + 1\<rparr>
      in if c_retry_attempt c2 > RETRY_MAX_ATTEMPTS then
           (True,
            if c_retry_attempt c2 = RETRY_MAX_ATTEMPTS + 1
            then c2\<lparr>c_host := h_warn H (GivingUpOn (c_retry_desire c2)) (c_host c2)\<rparr> else c2)
         else
           let c3 = (case c_retry_timer c2 of
                       None \<Rightarrow> c2
                     | Some timer \<Rightarrow>
                         c2\<lparr>c_retry_timer := None, c_host := h_cancel_retry H timer (c_host c2)\<rparr>)
           in case h_jitter H (c_host c3) of (jitter, h1) \<Rightarrow>
              (case h_schedule_retry H (backoff_delay_ms (c_retry_attempt c3) jitter) h1 of
                 (timer, h2) \<Rightarrow>
                   (False, c3\<lparr>c_host := h2, c_retry_timer := Some timer,
                              c_retry_player := c_submitted_player c3\<rparr>)))"

subsection \<open>Event handlers\<close>

text \<open>
  The cover-state maintenance of \<open>on_line\<close>: a new identity resets to pending, an exhausted
  player with the same identity gets a fresh window and loses the dedup key.
\<close>

definition maintain_cover :: "string \<Rightarrow> string \<Rightarrow> 'h coordinator \<Rightarrow> 'h coordinator" where
  "maintain_cover name art_url c =
     (case art_identity c name art_url of
        None \<Rightarrow> c\<lparr>c_covers := AList.delete name (c_covers c)\<rparr>
      | Some ident \<Rightarrow>
          (case map_of (c_covers c) name of
             Some st \<Rightarrow>
               if cs_identity st = ident then
                 (if cs_status st = Exhausted
                  then c\<lparr>c_covers := AList.map_entry name (with_status Pending) (c_covers c),
                         c_last_submitted := None\<rparr>
                  else c)
               else c\<lparr>c_covers := AList.update name \<lparr>cs_identity = ident, cs_status = Pending\<rparr> (c_covers c)\<rparr>
           | None \<Rightarrow>
               c\<lparr>c_covers := AList.update name \<lparr>cs_identity = ident, cs_status = Pending\<rparr> (c_covers c)\<rparr>))"

definition accept_line ::
  "'h host_ops \<Rightarrow> string \<Rightarrow> playback_status \<Rightarrow> string \<Rightarrow> 'h coordinator \<Rightarrow> 'h coordinator" where
  "accept_line H name status art_url c =
     (let c1 = c\<lparr>c_seq := c_seq c + 1\<rparr>;
          state = \<lparr>ps_status = status, ps_art_url = art_url, ps_seq = c_seq c1\<rparr>;
          c2 = c1\<lparr>c_players := AList.update name state (c_players c1)\<rparr>
      in decide_and_submit H True (maintain_cover name art_url c2))"

definition on_line :: "'h host_ops \<Rightarrow> string \<Rightarrow> 'h coordinator \<Rightarrow> 'h coordinator" where
  "on_line H line c =
     (let parts = split_on (CHR 0x09) (trim_end_matches (CHR 0x0A) line) in
      case parts of
        [name, status, art_url] \<Rightarrow>
          if \<not> allowed_name c name
          then log_drop H ''name'' ''line named a player we do not follow'' c
          else
            (case status_from_str status of
               None \<Rightarrow> log_drop H ''status'' ''unrecognized playback status'' c
             | Some st \<Rightarrow> accept_line H name st art_url c)
      | _ \<Rightarrow> log_drop H ''fields'' (''expected 3 fields, got '' @ show_nat (length parts)) c)"

definition on_vanish :: "'h host_ops \<Rightarrow> string \<Rightarrow> 'h coordinator \<Rightarrow> 'h coordinator" where
  "on_vanish H bus_name c =
     (case player_name_from_bus bus_name of
        None \<Rightarrow> c
      | Some name \<Rightarrow>
          (if map_of (c_players c) name = None then c
           else decide_and_submit H False
                  (c\<lparr>c_players := AList.delete name (c_players c),
                     c_covers := AList.delete name (c_covers c)\<rparr>)))"

definition on_scheme :: "'h host_ops \<Rightarrow> nat \<Rightarrow> 'h coordinator \<Rightarrow> 'h coordinator" where
  "on_scheme H value c =
     (let new_mode = mode_from_color_scheme value in
      if new_mode = c_mode c then c
      else
        let c1 = c\<lparr>c_mode := new_mode\<rparr>;
            (winner_desired, winner_name) =
              (case coord_decide c1 of
                 Apply desired winner \<Rightarrow> (Some desired, Some winner)
               | Revert desired \<Rightarrow> (Some desired, None)
               | Hold \<Rightarrow> (None, None));
            resubmit =
              (case winner_desired of
                 Some d \<Rightarrow> if d_target d \<noteq> None then maybe_submit H d winner_name True c1 else c1
               | None \<Rightarrow> c1)
        in case c_applied_target c1 of
             None \<Rightarrow> resubmit
           | Some shown \<Rightarrow>
               (let winner_is_shown =
                      (case winner_desired of None \<Rightarrow> False | Some d \<Rightarrow> d_target d = Some shown)
                in if \<not> winner_is_shown
                   then maybe_submit H \<lparr>d_target = Some shown, d_mode = new_mode\<rparr> None True c1
                   else resubmit))"

definition adopt :: "'h host_ops \<Rightarrow> job_result \<Rightarrow> 'h coordinator \<Rightarrow> 'h coordinator" where
  "adopt H result c =
     (if c_stopping c \<or> jr_generation result \<noteq> c_generation c then c
      else
        let shown = c\<lparr>c_applied := jr_cover_id result,
                      c_applied_target := Option.bind (c_last_submitted c) d_target,
                      c_retry_desire := None, c_retry_attempt := 0\<rparr>;
            c1 = (case jr_outcome result of
                    Committed \<Rightarrow> set_cover_status Ready shown
                  | SkippedDuplicate \<Rightarrow> set_cover_status Ready shown
                  | FailedRetryable \<Rightarrow>
                      (case arm_retry H c of (exhausted, c') \<Rightarrow>
                         set_cover_status (if exhausted then Exhausted else Retrying) c')
                  | outcome.Rejected \<Rightarrow> set_cover_status Rejected c)
        in decide_and_submit H False c1)"

definition begin_shutdown :: "'h host_ops \<Rightarrow> 'h coordinator \<Rightarrow> 'h coordinator" where
  "begin_shutdown H c =
     cancel_retry H (c\<lparr>c_stopping := True, c_generation := c_generation c + 1\<rparr>)"

definition fire_retry :: "'h host_ops \<Rightarrow> 'h coordinator \<Rightarrow> 'h coordinator" where
  "fire_retry H c =
     (let c1 = c\<lparr>c_retry_timer := None\<rparr> in
      if c_stopping c1 then c1
      else
        (case c_retry_desire c1 of
           None \<Rightarrow> c1
         | Some desire \<Rightarrow>
             if c_last_desired c1 \<noteq> Some desire then c1
             else
               let c2 = c1\<lparr>c_generation := c_generation c1 + 1\<rparr>;
                   c3 = c2\<lparr>c_submitted_player := c_retry_player c2\<rparr>
               in c3\<lparr>c_host := h_submit H (c_generation c3) desire (c_host c3)\<rparr>))"

end
