(* ===== verification/Coordinator_Inv.thy ===== *)
theory Coordinator_Inv
  imports Coordinator
begin

text \<open>
  Frame facts, invariants and reachability of the coordinator. \<open>coord_step\<close> has one rule per
  public handler and one for the host state changing on its own (time passes, the worker
  empties the mailbox); \<open>coord_reach\<close> is its closure from \<open>coordinator_new\<close>.
\<close>

subsection \<open>Frames\<close>

lemma demote_simps [simp]:
  "cs_identity (demote st) = cs_identity st"
  "eligible_status (cs_status (demote st)) = eligible_status (cs_status st)"
  by (simp_all add: demote_def)

lemma with_status_simps [simp]:
  "cs_identity (with_status s st) = cs_identity st"
  "cs_status (with_status s st) = s"
  by (simp_all add: with_status_def)

definition cover_idents :: "'h coordinator \<Rightarrow> string \<Rightarrow> cover_identity option" where
  "cover_idents c n = map_option cs_identity (map_of (c_covers c) n)"

definition cover_keys :: "'h coordinator \<Rightarrow> string list" where
  "cover_keys c = map fst (c_covers c)"

text \<open>The three views of the cover map ignore every other field.\<close>

lemma cover_views_update [simp]:
  "cover_keys (c\<lparr>c_players := x_players\<rparr>) = cover_keys c"
  "cover_keys (c\<lparr>c_seq := x_seq\<rparr>) = cover_keys c"
  "cover_keys (c\<lparr>c_generation := x_generation\<rparr>) = cover_keys c"
  "cover_keys (c\<lparr>c_mode := x_mode\<rparr>) = cover_keys c"
  "cover_keys (c\<lparr>c_applied := x_applied\<rparr>) = cover_keys c"
  "cover_keys (c\<lparr>c_applied_target := x_applied_target\<rparr>) = cover_keys c"
  "cover_keys (c\<lparr>c_last_desired := x_last_desired\<rparr>) = cover_keys c"
  "cover_keys (c\<lparr>c_last_submitted := x_last_submitted\<rparr>) = cover_keys c"
  "cover_keys (c\<lparr>c_stopping := x_stopping\<rparr>) = cover_keys c"
  "cover_keys (c\<lparr>c_host := x_host\<rparr>) = cover_keys c"
  "cover_keys (c\<lparr>c_covers_dir_for := x_covers_dir_for\<rparr>) = cover_keys c"
  "cover_keys (c\<lparr>c_submitted_player := x_submitted_player\<rparr>) = cover_keys c"
  "cover_keys (c\<lparr>c_retry_timer := x_retry_timer\<rparr>) = cover_keys c"
  "cover_keys (c\<lparr>c_retry_desire := x_retry_desire\<rparr>) = cover_keys c"
  "cover_keys (c\<lparr>c_retry_player := x_retry_player\<rparr>) = cover_keys c"
  "cover_keys (c\<lparr>c_retry_attempt := x_retry_attempt\<rparr>) = cover_keys c"
  "cover_keys (c\<lparr>c_allowed_bases := x_allowed_bases\<rparr>) = cover_keys c"
  "cover_keys (c\<lparr>c_last_drop_log := x_last_drop_log\<rparr>) = cover_keys c"
  "cover_idents (c\<lparr>c_players := x_players\<rparr>) = cover_idents c"
  "cover_idents (c\<lparr>c_seq := x_seq\<rparr>) = cover_idents c"
  "cover_idents (c\<lparr>c_generation := x_generation\<rparr>) = cover_idents c"
  "cover_idents (c\<lparr>c_mode := x_mode\<rparr>) = cover_idents c"
  "cover_idents (c\<lparr>c_applied := x_applied\<rparr>) = cover_idents c"
  "cover_idents (c\<lparr>c_applied_target := x_applied_target\<rparr>) = cover_idents c"
  "cover_idents (c\<lparr>c_last_desired := x_last_desired\<rparr>) = cover_idents c"
  "cover_idents (c\<lparr>c_last_submitted := x_last_submitted\<rparr>) = cover_idents c"
  "cover_idents (c\<lparr>c_stopping := x_stopping\<rparr>) = cover_idents c"
  "cover_idents (c\<lparr>c_host := x_host\<rparr>) = cover_idents c"
  "cover_idents (c\<lparr>c_covers_dir_for := x_covers_dir_for\<rparr>) = cover_idents c"
  "cover_idents (c\<lparr>c_submitted_player := x_submitted_player\<rparr>) = cover_idents c"
  "cover_idents (c\<lparr>c_retry_timer := x_retry_timer\<rparr>) = cover_idents c"
  "cover_idents (c\<lparr>c_retry_desire := x_retry_desire\<rparr>) = cover_idents c"
  "cover_idents (c\<lparr>c_retry_player := x_retry_player\<rparr>) = cover_idents c"
  "cover_idents (c\<lparr>c_retry_attempt := x_retry_attempt\<rparr>) = cover_idents c"
  "cover_idents (c\<lparr>c_allowed_bases := x_allowed_bases\<rparr>) = cover_idents c"
  "cover_idents (c\<lparr>c_last_drop_log := x_last_drop_log\<rparr>) = cover_idents c"
  "eligible_player (c\<lparr>c_players := x_players\<rparr>) = eligible_player c"
  "eligible_player (c\<lparr>c_seq := x_seq\<rparr>) = eligible_player c"
  "eligible_player (c\<lparr>c_generation := x_generation\<rparr>) = eligible_player c"
  "eligible_player (c\<lparr>c_mode := x_mode\<rparr>) = eligible_player c"
  "eligible_player (c\<lparr>c_applied := x_applied\<rparr>) = eligible_player c"
  "eligible_player (c\<lparr>c_applied_target := x_applied_target\<rparr>) = eligible_player c"
  "eligible_player (c\<lparr>c_last_desired := x_last_desired\<rparr>) = eligible_player c"
  "eligible_player (c\<lparr>c_last_submitted := x_last_submitted\<rparr>) = eligible_player c"
  "eligible_player (c\<lparr>c_stopping := x_stopping\<rparr>) = eligible_player c"
  "eligible_player (c\<lparr>c_host := x_host\<rparr>) = eligible_player c"
  "eligible_player (c\<lparr>c_covers_dir_for := x_covers_dir_for\<rparr>) = eligible_player c"
  "eligible_player (c\<lparr>c_submitted_player := x_submitted_player\<rparr>) = eligible_player c"
  "eligible_player (c\<lparr>c_retry_timer := x_retry_timer\<rparr>) = eligible_player c"
  "eligible_player (c\<lparr>c_retry_desire := x_retry_desire\<rparr>) = eligible_player c"
  "eligible_player (c\<lparr>c_retry_player := x_retry_player\<rparr>) = eligible_player c"
  "eligible_player (c\<lparr>c_retry_attempt := x_retry_attempt\<rparr>) = eligible_player c"
  "eligible_player (c\<lparr>c_allowed_bases := x_allowed_bases\<rparr>) = eligible_player c"
  "eligible_player (c\<lparr>c_last_drop_log := x_last_drop_log\<rparr>) = eligible_player c"
  by (simp_all add: cover_keys_def cover_idents_def eligible_player_def fun_eq_iff)

lemma identity_update [simp]:
  "art_identity (c\<lparr>c_players := x_players\<rparr>) = art_identity c"
  "art_identity (c\<lparr>c_covers := x_covers\<rparr>) = art_identity c"
  "art_identity (c\<lparr>c_seq := x_seq\<rparr>) = art_identity c"
  "art_identity (c\<lparr>c_generation := x_generation\<rparr>) = art_identity c"
  "art_identity (c\<lparr>c_mode := x_mode\<rparr>) = art_identity c"
  "art_identity (c\<lparr>c_applied := x_applied\<rparr>) = art_identity c"
  "art_identity (c\<lparr>c_applied_target := x_applied_target\<rparr>) = art_identity c"
  "art_identity (c\<lparr>c_last_desired := x_last_desired\<rparr>) = art_identity c"
  "art_identity (c\<lparr>c_last_submitted := x_last_submitted\<rparr>) = art_identity c"
  "art_identity (c\<lparr>c_stopping := x_stopping\<rparr>) = art_identity c"
  "art_identity (c\<lparr>c_host := x_host\<rparr>) = art_identity c"
  "art_identity (c\<lparr>c_submitted_player := x_submitted_player\<rparr>) = art_identity c"
  "art_identity (c\<lparr>c_retry_timer := x_retry_timer\<rparr>) = art_identity c"
  "art_identity (c\<lparr>c_retry_desire := x_retry_desire\<rparr>) = art_identity c"
  "art_identity (c\<lparr>c_retry_player := x_retry_player\<rparr>) = art_identity c"
  "art_identity (c\<lparr>c_retry_attempt := x_retry_attempt\<rparr>) = art_identity c"
  "art_identity (c\<lparr>c_last_drop_log := x_last_drop_log\<rparr>) = art_identity c"
  "allowed_name (c\<lparr>c_players := y_players\<rparr>) = allowed_name c"
  "allowed_name (c\<lparr>c_covers := y_covers\<rparr>) = allowed_name c"
  "allowed_name (c\<lparr>c_seq := y_seq\<rparr>) = allowed_name c"
  "allowed_name (c\<lparr>c_generation := y_generation\<rparr>) = allowed_name c"
  "allowed_name (c\<lparr>c_mode := y_mode\<rparr>) = allowed_name c"
  "allowed_name (c\<lparr>c_applied := y_applied\<rparr>) = allowed_name c"
  "allowed_name (c\<lparr>c_applied_target := y_applied_target\<rparr>) = allowed_name c"
  "allowed_name (c\<lparr>c_last_desired := y_last_desired\<rparr>) = allowed_name c"
  "allowed_name (c\<lparr>c_last_submitted := y_last_submitted\<rparr>) = allowed_name c"
  "allowed_name (c\<lparr>c_stopping := y_stopping\<rparr>) = allowed_name c"
  "allowed_name (c\<lparr>c_host := y_host\<rparr>) = allowed_name c"
  "allowed_name (c\<lparr>c_submitted_player := y_submitted_player\<rparr>) = allowed_name c"
  "allowed_name (c\<lparr>c_retry_timer := y_retry_timer\<rparr>) = allowed_name c"
  "allowed_name (c\<lparr>c_retry_desire := y_retry_desire\<rparr>) = allowed_name c"
  "allowed_name (c\<lparr>c_retry_player := y_retry_player\<rparr>) = allowed_name c"
  "allowed_name (c\<lparr>c_retry_attempt := y_retry_attempt\<rparr>) = allowed_name c"
  "allowed_name (c\<lparr>c_last_drop_log := y_last_drop_log\<rparr>) = allowed_name c"
  by (simp_all add: art_identity_def allowed_name_def fun_eq_iff)

lemma map_fst_map_entry [simp]: "map fst (AList.map_entry k f al) = map fst al"
  by (induction al) auto

lemma cancel_retry_frame [simp]:
  "c_players (cancel_retry H c) = c_players c"
  "c_seq (cancel_retry H c) = c_seq c"
  "c_generation (cancel_retry H c) = c_generation c"
  "c_mode (cancel_retry H c) = c_mode c"
  "c_applied (cancel_retry H c) = c_applied c"
  "c_applied_target (cancel_retry H c) = c_applied_target c"
  "c_last_desired (cancel_retry H c) = c_last_desired c"
  "c_last_submitted (cancel_retry H c) = c_last_submitted c"
  "c_stopping (cancel_retry H c) = c_stopping c"
  "c_covers_dir_for (cancel_retry H c) = c_covers_dir_for c"
  "c_submitted_player (cancel_retry H c) = c_submitted_player c"
  "c_allowed_bases (cancel_retry H c) = c_allowed_bases c"
  "c_last_drop_log (cancel_retry H c) = c_last_drop_log c"
  "c_retry_timer (cancel_retry H c) = None"
  "c_retry_desire (cancel_retry H c) = None"
  "c_retry_player (cancel_retry H c) = None"
  "c_retry_attempt (cancel_retry H c) = 0"
  "cover_keys (cancel_retry H c) = cover_keys c"
  by (auto simp: cancel_retry_def Let_def cover_keys_def split: option.splits)

lemma cancel_retry_covers [simp]:
  "cover_idents (cancel_retry H c) = cover_idents c"
  "eligible_player (cancel_retry H c) = eligible_player c"
  by (auto simp: cancel_retry_def Let_def cover_idents_def eligible_player_def fun_eq_iff
      option.map_comp comp_def split: option.splits)

lemma maybe_submit_frame [simp]:
  "c_players (maybe_submit H d p r c) = c_players c"
  "c_seq (maybe_submit H d p r c) = c_seq c"
  "c_mode (maybe_submit H d p r c) = c_mode c"
  "c_applied (maybe_submit H d p r c) = c_applied c"
  "c_applied_target (maybe_submit H d p r c) = c_applied_target c"
  "c_stopping (maybe_submit H d p r c) = c_stopping c"
  "c_covers_dir_for (maybe_submit H d p r c) = c_covers_dir_for c"
  "c_allowed_bases (maybe_submit H d p r c) = c_allowed_bases c"
  "c_last_drop_log (maybe_submit H d p r c) = c_last_drop_log c"
  "cover_keys (maybe_submit H d p r c) = cover_keys c"
  "cover_idents (maybe_submit H d p r c) = cover_idents c"
  "eligible_player (maybe_submit H d p r c) = eligible_player c"
  by (simp_all add: maybe_submit_def Let_def)

lemma coord_decide_cong:
  assumes "c_players c' = c_players c" "c_mode c' = c_mode c"
    "c_covers_dir_for c' = c_covers_dir_for c" "eligible_player c' = eligible_player c"
  shows "coord_decide c' = coord_decide c"
  using assms by (simp add: coord_decide_def)

lemma coord_decide_maybe_submit [simp]: "coord_decide (maybe_submit H d p r c) = coord_decide c"
  by (rule coord_decide_cong) simp_all

lemma decide_and_submit_frame [simp]:
  "c_players (decide_and_submit H r c) = c_players c"
  "c_seq (decide_and_submit H r c) = c_seq c"
  "c_mode (decide_and_submit H r c) = c_mode c"
  "c_applied (decide_and_submit H r c) = c_applied c"
  "c_applied_target (decide_and_submit H r c) = c_applied_target c"
  "c_stopping (decide_and_submit H r c) = c_stopping c"
  "c_covers_dir_for (decide_and_submit H r c) = c_covers_dir_for c"
  "c_allowed_bases (decide_and_submit H r c) = c_allowed_bases c"
  "c_last_drop_log (decide_and_submit H r c) = c_last_drop_log c"
  "cover_keys (decide_and_submit H r c) = cover_keys c"
  "cover_idents (decide_and_submit H r c) = cover_idents c"
  "eligible_player (decide_and_submit H r c) = eligible_player c"
  "coord_decide (decide_and_submit H r c) = coord_decide c"
  by (auto simp: decide_and_submit_def split: selection.splits)

lemma arm_retry_frame [simp]:
  "c_players (snd (arm_retry H c)) = c_players c"
  "c_covers (snd (arm_retry H c)) = c_covers c"
  "c_seq (snd (arm_retry H c)) = c_seq c"
  "c_generation (snd (arm_retry H c)) = c_generation c"
  "c_mode (snd (arm_retry H c)) = c_mode c"
  "c_applied (snd (arm_retry H c)) = c_applied c"
  "c_applied_target (snd (arm_retry H c)) = c_applied_target c"
  "c_last_desired (snd (arm_retry H c)) = c_last_desired c"
  "c_last_submitted (snd (arm_retry H c)) = c_last_submitted c"
  "c_stopping (snd (arm_retry H c)) = c_stopping c"
  "c_covers_dir_for (snd (arm_retry H c)) = c_covers_dir_for c"
  "c_submitted_player (snd (arm_retry H c)) = c_submitted_player c"
  "c_allowed_bases (snd (arm_retry H c)) = c_allowed_bases c"
  "c_last_drop_log (snd (arm_retry H c)) = c_last_drop_log c"
  by (auto simp: arm_retry_def Let_def split: option.splits prod.splits)

lemma arm_retry_desire [simp]: "c_retry_desire (snd (arm_retry H c)) = c_last_submitted c"
  by (auto simp: arm_retry_def Let_def split: option.splits prod.splits)

lemma cover_views_eq:
  assumes "c_covers c' = c_covers c"
  shows "cover_keys c' = cover_keys c" "cover_idents c' = cover_idents c"
    "eligible_player c' = eligible_player c"
  using assms by (simp_all add: cover_keys_def cover_idents_def eligible_player_def fun_eq_iff)

lemma set_cover_status_frame [simp]:
  "c_players (set_cover_status st c) = c_players c"
  "c_seq (set_cover_status st c) = c_seq c"
  "c_generation (set_cover_status st c) = c_generation c"
  "c_mode (set_cover_status st c) = c_mode c"
  "c_applied (set_cover_status st c) = c_applied c"
  "c_applied_target (set_cover_status st c) = c_applied_target c"
  "c_last_desired (set_cover_status st c) = c_last_desired c"
  "c_last_submitted (set_cover_status st c) = c_last_submitted c"
  "c_stopping (set_cover_status st c) = c_stopping c"
  "c_host (set_cover_status st c) = c_host c"
  "c_covers_dir_for (set_cover_status st c) = c_covers_dir_for c"
  "c_submitted_player (set_cover_status st c) = c_submitted_player c"
  "c_retry_timer (set_cover_status st c) = c_retry_timer c"
  "c_retry_desire (set_cover_status st c) = c_retry_desire c"
  "c_retry_player (set_cover_status st c) = c_retry_player c"
  "c_retry_attempt (set_cover_status st c) = c_retry_attempt c"
  "c_allowed_bases (set_cover_status st c) = c_allowed_bases c"
  "c_last_drop_log (set_cover_status st c) = c_last_drop_log c"
  "cover_keys (set_cover_status st c) = cover_keys c"
  "cover_idents (set_cover_status st c) = cover_idents c"
  by (auto simp: set_cover_status_def cover_keys_def cover_idents_def fun_eq_iff option.map_comp
      comp_def split: option.splits)

lemma maintain_cover_frame [simp]:
  "c_players (maintain_cover n a c) = c_players c"
  "c_seq (maintain_cover n a c) = c_seq c"
  "c_generation (maintain_cover n a c) = c_generation c"
  "c_mode (maintain_cover n a c) = c_mode c"
  "c_applied (maintain_cover n a c) = c_applied c"
  "c_applied_target (maintain_cover n a c) = c_applied_target c"
  "c_last_desired (maintain_cover n a c) = c_last_desired c"
  "c_stopping (maintain_cover n a c) = c_stopping c"
  "c_host (maintain_cover n a c) = c_host c"
  "c_covers_dir_for (maintain_cover n a c) = c_covers_dir_for c"
  "c_submitted_player (maintain_cover n a c) = c_submitted_player c"
  "c_retry_timer (maintain_cover n a c) = c_retry_timer c"
  "c_retry_desire (maintain_cover n a c) = c_retry_desire c"
  "c_retry_player (maintain_cover n a c) = c_retry_player c"
  "c_retry_attempt (maintain_cover n a c) = c_retry_attempt c"
  "c_allowed_bases (maintain_cover n a c) = c_allowed_bases c"
  "c_last_drop_log (maintain_cover n a c) = c_last_drop_log c"
  by (auto simp: maintain_cover_def split: option.splits)

lemma maintain_cover_identity [simp]:
  "allowed_name (maintain_cover n a c) = allowed_name c"
  "art_identity (maintain_cover n a c) = art_identity c"
  by (simp_all add: allowed_name_def art_identity_def fun_eq_iff cong: if_cong)

lemma log_drop_frame [simp]:
  "c_players (log_drop H cat det c) = c_players c"
  "c_covers (log_drop H cat det c) = c_covers c"
  "c_seq (log_drop H cat det c) = c_seq c"
  "c_generation (log_drop H cat det c) = c_generation c"
  "c_mode (log_drop H cat det c) = c_mode c"
  "c_applied (log_drop H cat det c) = c_applied c"
  "c_applied_target (log_drop H cat det c) = c_applied_target c"
  "c_last_desired (log_drop H cat det c) = c_last_desired c"
  "c_last_submitted (log_drop H cat det c) = c_last_submitted c"
  "c_stopping (log_drop H cat det c) = c_stopping c"
  "c_covers_dir_for (log_drop H cat det c) = c_covers_dir_for c"
  "c_submitted_player (log_drop H cat det c) = c_submitted_player c"
  "c_retry_timer (log_drop H cat det c) = c_retry_timer c"
  "c_retry_desire (log_drop H cat det c) = c_retry_desire c"
  "c_retry_player (log_drop H cat det c) = c_retry_player c"
  "c_retry_attempt (log_drop H cat det c) = c_retry_attempt c"
  "c_allowed_bases (log_drop H cat det c) = c_allowed_bases c"
  by (simp_all add: log_drop_def Let_def)

subsection \<open>Steps and reachability\<close>

inductive coord_step :: "'h host_ops \<Rightarrow> 'h coordinator \<Rightarrow> 'h coordinator \<Rightarrow> bool" for H where
  line: "coord_step H c (on_line H l c)"
| drop: "coord_step H c (log_drop H category detail c)"
| vanish: "coord_step H c (on_vanish H b c)"
| scheme: "coord_step H c (on_scheme H v c)"
| result: "coord_step H c (adopt H r c)"
| retry: "coord_step H c (fire_retry H c)"
| shutdown: "coord_step H c (begin_shutdown H c)"
| world: "coord_step H c (c\<lparr>c_host := h\<rparr>)"

inductive coord_reach ::
  "'h host_ops \<Rightarrow> (string \<Rightarrow> path option) \<Rightarrow> string \<Rightarrow> 'h coordinator \<Rightarrow> bool"
  for H dir_for allowed where
  init: "coord_reach H dir_for allowed (coordinator_new h dir_for m allowed)"
| step: "coord_reach H dir_for allowed c \<Longrightarrow> coord_step H c c' \<Longrightarrow> coord_reach H dir_for allowed c'"

inductive_cases coord_stepE [consumes 1]: "coord_step H c c'"

lemma coord_reach_invariant:
  assumes "coord_reach H dir_for allowed c"
    and "\<And>h m. I (coordinator_new h dir_for m allowed)"
    and "\<And>c c'. I c \<Longrightarrow> coord_step H c c' \<Longrightarrow> I c'"
  shows "I c"
  using assms by (induction rule: coord_reach.induct) auto

subsection \<open>The retry chain and the last decision\<close>

text \<open>
  What was last submitted was last decided, and a pending retry is for the last decision.
\<close>

definition retry_wf :: "'h coordinator \<Rightarrow> bool" where
  "retry_wf c \<longleftrightarrow>
     (c_last_submitted c = None \<or> c_last_submitted c = c_last_desired c) \<and>
     (c_retry_desire c = None \<or> c_retry_desire c = c_last_desired c)"

lemma retry_wf_cong:
  assumes "retry_wf c" "c_last_desired c' = c_last_desired c"
    "c_last_submitted c' = c_last_submitted c \<or> c_last_submitted c' = None"
    "c_retry_desire c' = c_retry_desire c \<or> c_retry_desire c' = None"
  shows "retry_wf c'"
  using assms by (auto simp: retry_wf_def)

lemma retry_wf_maybe_submit [inv_intros]: "retry_wf c \<Longrightarrow> retry_wf (maybe_submit H d p r c)"
  by (auto simp: maybe_submit_def Let_def retry_wf_def)

lemma retry_wf_decide [inv_intros]: "retry_wf c \<Longrightarrow> retry_wf (decide_and_submit H r c)"
  by (auto simp: decide_and_submit_def intro: inv_intros split: selection.splits)

lemma retry_wf_maintain [inv_intros]: "retry_wf c \<Longrightarrow> retry_wf (maintain_cover n a c)"
  by (erule retry_wf_cong) (auto simp: maintain_cover_def split: option.splits)

lemma retry_wf_log_drop [inv_intros]: "retry_wf c \<Longrightarrow> retry_wf (log_drop H cat det c)"
  by (erule retry_wf_cong) simp_all

lemma retry_wf_arm [inv_intros]: "retry_wf c \<Longrightarrow> retry_wf (snd (arm_retry H c))"
  by (auto simp: retry_wf_def)

lemma retry_wf_status [inv_intros]: "retry_wf c \<Longrightarrow> retry_wf (set_cover_status s c)"
  by (erule retry_wf_cong) simp_all

lemma retry_wf_update [simp]:
  "retry_wf (c\<lparr>c_seq := n\<rparr>) = retry_wf c"
  "retry_wf (c\<lparr>c_players := ps\<rparr>) = retry_wf c"
  "retry_wf (c\<lparr>c_covers := cs\<rparr>) = retry_wf c"
  "retry_wf (c\<lparr>c_mode := m\<rparr>) = retry_wf c"
  "retry_wf (c\<lparr>c_host := h\<rparr>) = retry_wf c"
  by (simp_all add: retry_wf_def)

lemma retry_wf_on_line [inv_intros]: "retry_wf c \<Longrightarrow> retry_wf (on_line H l c)"
  by (auto simp: on_line_def accept_line_def Let_def intro!: inv_intros split: list.splits option.splits)

lemma retry_wf_on_vanish [inv_intros]: "retry_wf c \<Longrightarrow> retry_wf (on_vanish H b c)"
  by (auto simp: on_vanish_def intro!: inv_intros split: option.splits)

lemma retry_wf_on_scheme [inv_intros]: "retry_wf c \<Longrightarrow> retry_wf (on_scheme H v c)"
  by (auto simp: on_scheme_def Let_def intro!: inv_intros split: option.splits selection.splits)

lemma retry_wf_adopt [inv_intros]:
  assumes "retry_wf c" shows "retry_wf (adopt H r c)"
proof -
  have "retry_wf (c\<lparr>c_applied := a, c_applied_target := t, c_retry_desire := None, c_retry_attempt := 0\<rparr>)"
    for a t
    by (rule retry_wf_cong [OF assms]) simp_all
  moreover have "retry_wf (snd (arm_retry H c))" using assms by (rule inv_intros)
  ultimately show ?thesis
    using assms
    by (auto simp: adopt_def Let_def intro!: inv_intros split: outcome.splits prod.splits)
qed

lemma retry_wf_cancel [inv_intros]: "retry_wf c \<Longrightarrow> retry_wf (cancel_retry H c)"
  by (erule retry_wf_cong) simp_all

lemma retry_wf_shutdown [inv_intros]: "retry_wf c \<Longrightarrow> retry_wf (begin_shutdown H c)"
  unfolding begin_shutdown_def by (intro inv_intros) (simp add: retry_wf_def)

lemma retry_wf_fire [inv_intros]: "retry_wf c \<Longrightarrow> retry_wf (fire_retry H c)"
  by (erule retry_wf_cong) (auto simp: fire_retry_def Let_def split: option.splits)

lemma retry_wf_step: "retry_wf c \<Longrightarrow> coord_step H c c' \<Longrightarrow> retry_wf c'"
  by (auto elim!: coord_stepE intro: inv_intros)

lemma retry_wf_new: "retry_wf (coordinator_new h dir_for m allowed)"
  by (simp add: retry_wf_def coordinator_new_def)

lemma retry_wf_reach: "coord_reach H dir_for allowed c \<Longrightarrow> retry_wf c"
  by (erule coord_reach_invariant) (auto intro: retry_wf_new retry_wf_step)

subsection \<open>Players and cover states\<close>

text \<open>
  The tracked players are allowed, carry distinct sequence numbers of the past, and have a cover
  state exactly when they have an art source, keyed on that source.
\<close>

definition coord_wf :: "'h coordinator \<Rightarrow> bool" where
  "coord_wf c \<longleftrightarrow>
     distinct (map fst (c_players c)) \<and> distinct (cover_keys c) \<and>
     (\<forall>n p. map_of (c_players c) n = Some p \<longrightarrow> ps_seq p \<le> c_seq c \<and> allowed_name c n) \<and>
     (\<forall>n n' p p'. map_of (c_players c) n = Some p \<longrightarrow> map_of (c_players c) n' = Some p' \<longrightarrow>
        ps_seq p = ps_seq p' \<longrightarrow> n = n') \<and>
     (\<forall>n. cover_idents c n =
        Option.bind (map_of (c_players c) n) (\<lambda>p. art_identity c n (ps_art_url p)))"

lemma allowed_name_cong:
  "c_allowed_bases c' = c_allowed_bases c \<Longrightarrow> allowed_name c' n = allowed_name c n"
  by (simp add: allowed_name_def)

lemma art_identity_cong:
  "c_covers_dir_for c' = c_covers_dir_for c \<Longrightarrow> art_identity c' n a = art_identity c n a"
  by (simp add: art_identity_def)

lemma coord_wf_cong:
  assumes "coord_wf c" "c_players c' = c_players c" "c_seq c' = c_seq c"
    "c_allowed_bases c' = c_allowed_bases c" "c_covers_dir_for c' = c_covers_dir_for c"
    "cover_keys c' = cover_keys c" "cover_idents c' = cover_idents c"
  shows "coord_wf c'"
  using assms by (simp add: coord_wf_def allowed_name_def art_identity_def cong: if_cong)

lemma cover_idents_maintain:
  "cover_idents (maintain_cover n a c) =
     (cover_idents c)(n := art_identity c n a)"
  by (auto simp: maintain_cover_def cover_idents_def fun_eq_iff split: option.splits)

lemma cover_keys_maintain:
  "distinct (cover_keys c) \<Longrightarrow> distinct (cover_keys (maintain_cover n a c))"
  by (auto simp: maintain_cover_def cover_keys_def intro: distinct_update distinct_delete
      split: option.splits)

lemma coord_wf_accept:
  assumes wf: "coord_wf c" and "allowed_name c n"
  shows "coord_wf (maintain_cover n a
     (c\<lparr>c_seq := c_seq c + 1,
        c_players := AList.update n \<lparr>ps_status = st, ps_art_url = a, ps_seq = c_seq c + 1\<rparr> (c_players c)\<rparr>))"
    (is "coord_wf (maintain_cover n a ?c)")
proof -
  have seq: "ps_seq p < Suc (c_seq c)" if "map_of (c_players c) m = Some p" for m p
    using wf that by (auto simp: coord_wf_def less_Suc_eq_le simp del: map_of_eq_Some_iff)
  have "distinct (map fst (c_players ?c))"
    using wf by (auto simp: coord_wf_def intro: distinct_update)
  moreover have "distinct (cover_keys (maintain_cover n a ?c))"
    using wf by (intro cover_keys_maintain) (simp add: coord_wf_def)
  moreover have "\<forall>m p. map_of (c_players ?c) m = Some p \<longrightarrow> ps_seq p \<le> c_seq ?c \<and> allowed_name c m"
    using wf assms(2) by (auto simp: coord_wf_def intro: le_SucI)
  moreover have "\<forall>m m' p p'. map_of (c_players ?c) m = Some p \<longrightarrow> map_of (c_players ?c) m' = Some p' \<longrightarrow>
        ps_seq p = ps_seq p' \<longrightarrow> m = m'"
    using wf by (auto simp: coord_wf_def simp del: map_of_eq_Some_iff dest!: seq split: if_splits)
  moreover have "\<forall>m. cover_idents (maintain_cover n a ?c) m =
        Option.bind (map_of (c_players ?c) m) (\<lambda>p. art_identity c m (ps_art_url p))"
    using wf by (auto simp: cover_idents_maintain coord_wf_def)
  ultimately show ?thesis
    by (simp add: coord_wf_def del: fun_upd_apply)
qed

lemma coord_wf_decide [inv_intros]: "coord_wf c \<Longrightarrow> coord_wf (decide_and_submit H r c)"
  by (erule coord_wf_cong) simp_all

lemma coord_wf_submit [inv_intros]: "coord_wf c \<Longrightarrow> coord_wf (maybe_submit H d p r c)"
  by (erule coord_wf_cong) simp_all

lemma coord_wf_log_drop [inv_intros]: "coord_wf c \<Longrightarrow> coord_wf (log_drop H cat det c)"
  by (erule coord_wf_cong) (simp_all add: cover_keys_def cover_idents_def fun_eq_iff)

lemma coord_wf_line [inv_intros]: "coord_wf c \<Longrightarrow> coord_wf (on_line H l c)"
  by (auto simp: on_line_def accept_line_def Let_def
      intro!: coord_wf_log_drop coord_wf_decide coord_wf_accept [unfolded Suc_eq_plus1 [symmetric]]
      split: list.splits option.splits)

lemma coord_wf_vanish [inv_intros]:
  assumes "coord_wf c" shows "coord_wf (on_vanish H b c)"
proof -
  have "coord_wf (c\<lparr>c_players := AList.delete n (c_players c), c_covers := AList.delete n (c_covers c)\<rparr>)"
    for n
    using assms
    by (auto simp: coord_wf_def cover_keys_def cover_idents_def allowed_name_def art_identity_def
        intro: distinct_delete split: if_splits cong: if_cong)
  then show ?thesis
    using assms by (auto simp: on_vanish_def intro: inv_intros split: option.splits)
qed

lemma coord_wf_scheme [inv_intros]:
  assumes "coord_wf c" shows "coord_wf (on_scheme H v c)"
proof -
  have "coord_wf (c\<lparr>c_mode := m\<rparr>)" for m
    by (rule coord_wf_cong [OF assms]) simp_all
  then show ?thesis
    using assms by (auto simp: on_scheme_def Let_def intro!: inv_intros split: option.splits selection.splits)
qed

lemma coord_wf_status [inv_intros]: "coord_wf c \<Longrightarrow> coord_wf (set_cover_status s c)"
  by (erule coord_wf_cong) simp_all

lemma coord_wf_arm [inv_intros]: "coord_wf c \<Longrightarrow> coord_wf (snd (arm_retry H c))"
  by (erule coord_wf_cong) (simp_all add: cover_keys_def cover_idents_def fun_eq_iff)

lemma coord_wf_adopt [inv_intros]:
  assumes "coord_wf c" shows "coord_wf (adopt H r c)"
proof -
  have "coord_wf (c\<lparr>c_applied := a, c_applied_target := t, c_retry_desire := None, c_retry_attempt := 0\<rparr>)"
    for a t
    by (rule coord_wf_cong [OF assms]) simp_all
  moreover have "coord_wf (snd (arm_retry H c))" using assms by (rule inv_intros)
  ultimately show ?thesis
    using assms
    by (auto simp: adopt_def Let_def intro!: inv_intros split: outcome.splits prod.splits)
qed

lemma coord_wf_step: "coord_wf c \<Longrightarrow> coord_step H c c' \<Longrightarrow> coord_wf c'"
proof (erule coord_stepE)
  show "coord_wf c \<Longrightarrow> c' = fire_retry H c \<Longrightarrow> coord_wf c'"
    by (simp, erule coord_wf_cong) (auto simp: fire_retry_def Let_def split: option.splits)
  show "coord_wf c \<Longrightarrow> c' = begin_shutdown H c \<Longrightarrow> coord_wf c'"
    by (simp, erule coord_wf_cong) (auto simp: begin_shutdown_def)
  show "coord_wf c \<Longrightarrow> c' = c\<lparr>c_host := h\<rparr> \<Longrightarrow> coord_wf c'" for h
    by (simp, erule coord_wf_cong) simp_all
qed (auto intro: inv_intros)

lemma coord_wf_new: "coord_wf (coordinator_new h dir_for m allowed)"
  by (simp add: coord_wf_def coordinator_new_def cover_keys_def cover_idents_def)

lemma coord_wf_reach: "coord_reach H dir_for allowed c \<Longrightarrow> coord_wf c"
  by (erule coord_reach_invariant) (auto intro: coord_wf_new coord_wf_step)

subsection \<open>Convergence: what is selected is what was submitted\<close>

definition settled :: "'h coordinator \<Rightarrow> bool" where
  "settled c =
     (case coord_decide c of
        Hold \<Rightarrow> True
      | Apply d w \<Rightarrow> c_last_submitted c = Some d \<and> c_last_desired c = Some d
      | Revert d \<Rightarrow> c_last_submitted c = Some d \<and> c_last_desired c = Some d)"

lemma maybe_submit_last:
  "\<not> c_stopping c \<Longrightarrow>
     c_last_submitted (maybe_submit H d p r c) = Some d \<and>
     c_last_desired (maybe_submit H d p r c) = Some d"
  by (simp add: maybe_submit_def Let_def)

lemma settled_decide: "\<not> c_stopping c \<Longrightarrow> settled (decide_and_submit H r c)"
  by (cases "coord_decide c")
    (auto simp: settled_def decide_and_submit_def maybe_submit_last)

definition line_fields :: "string \<Rightarrow> string list" where
  "line_fields line = split_on (CHR 0x09) (trim_end_matches (CHR 0x0A) line)"

definition line_accepted :: "'h coordinator \<Rightarrow> string \<Rightarrow> bool" where
  "line_accepted c line \<longleftrightarrow>
     (\<exists>name status art_url. line_fields line = [name, status, art_url] \<and>
        allowed_name c name \<and> status_from_str status \<noteq> None)"

lemma on_line_accepted:
  assumes "line_accepted c line"
  obtains name st art_url where "on_line H line c = accept_line H name st art_url c"
    "allowed_name c name" "hd (line_fields line) = name" "last (line_fields line) = art_url"
  using assms that
  by (auto simp: line_accepted_def on_line_def line_fields_def split: option.splits)

lemma on_line_rejected:
  assumes "\<not> line_accepted c line"
  shows "\<exists>category detail. on_line H line c = log_drop H category detail c"
proof -
  consider (three) name status art_url where "line_fields line = [name, status, art_url]"
    | (other) "\<nexists>name status art_url. line_fields line = [name, status, art_url]" by blast
  then show ?thesis
  proof cases
    case three
    with assms show ?thesis
      by (cases "allowed_name c name")
        (auto simp: line_accepted_def on_line_def line_fields_def intro!: exI)
  next
    case other
    then have "on_line H line c =
        log_drop H ''fields'' (''expected 3 fields, got '' @ show_nat (length (line_fields line))) c"
      by (auto simp: on_line_def line_fields_def Let_def split: list.splits)
    then show ?thesis by blast
  qed
qed

lemma settled_accept: "\<not> c_stopping c \<Longrightarrow> settled (accept_line H n st a c)"
  by (simp add: accept_line_def Let_def settled_decide)

lemma settled_vanish:
  "\<not> c_stopping c \<Longrightarrow> player_name_from_bus b = Some n \<Longrightarrow> map_of (c_players c) n \<noteq> None \<Longrightarrow>
     settled (on_vanish H b c)"
  by (auto simp: on_vanish_def settled_decide)

definition adopt_core :: "'h host_ops \<Rightarrow> job_result \<Rightarrow> 'h coordinator \<Rightarrow> 'h coordinator" where
  "adopt_core H r c =
     (case jr_outcome r of
        FailedRetryable \<Rightarrow>
          set_cover_status (if fst (arm_retry H c) then Exhausted else Retrying) (snd (arm_retry H c))
      | outcome.Rejected \<Rightarrow> set_cover_status Rejected c
      | _ \<Rightarrow> set_cover_status Ready
          (c\<lparr>c_applied := jr_cover_id r,
             c_applied_target := Option.bind (c_last_submitted c) d_target,
             c_retry_desire := None, c_retry_attempt := 0\<rparr>))"

lemma adopt_alt:
  "adopt H r c =
     (if c_stopping c \<or> jr_generation r \<noteq> c_generation c then c
      else decide_and_submit H False (adopt_core H r c))"
  by (simp add: adopt_def adopt_core_def Let_def case_prod_unfold split: outcome.splits)

lemma adopt_core_frame [simp]:
  "c_players (adopt_core H r c) = c_players c"
  "c_seq (adopt_core H r c) = c_seq c"
  "c_generation (adopt_core H r c) = c_generation c"
  "c_mode (adopt_core H r c) = c_mode c"
  "c_last_desired (adopt_core H r c) = c_last_desired c"
  "c_last_submitted (adopt_core H r c) = c_last_submitted c"
  "c_stopping (adopt_core H r c) = c_stopping c"
  "c_covers_dir_for (adopt_core H r c) = c_covers_dir_for c"
  "c_submitted_player (adopt_core H r c) = c_submitted_player c"
  "c_allowed_bases (adopt_core H r c) = c_allowed_bases c"
  "c_last_drop_log (adopt_core H r c) = c_last_drop_log c"
  by (auto simp: adopt_core_def split: outcome.splits)

lemma adopt_frame [simp]:
  "c_players (adopt H r c) = c_players c"
  "c_seq (adopt H r c) = c_seq c"
  "c_mode (adopt H r c) = c_mode c"
  "c_stopping (adopt H r c) = c_stopping c"
  "c_covers_dir_for (adopt H r c) = c_covers_dir_for c"
  "c_allowed_bases (adopt H r c) = c_allowed_bases c"
  "c_last_drop_log (adopt H r c) = c_last_drop_log c"
  by (simp_all add: adopt_alt)

lemma settled_adopt:
  assumes "\<not> c_stopping c" "jr_generation r = c_generation c"
  shows "settled (adopt H r c)"
  using assms by (simp add: adopt_alt settled_decide)

subsection \<open>Generations\<close>

lemma gen_maybe_submit:
  "c_generation c \<le> c_generation (maybe_submit H d p r c)"
  by (simp add: maybe_submit_def Let_def)

lemma gen_decide: "c_generation c \<le> c_generation (decide_and_submit H r c)"
  by (auto simp: decide_and_submit_def gen_maybe_submit split: selection.splits)

lemma gen_step: "coord_step H c c' \<Longrightarrow> c_generation c \<le> c_generation c'"
proof (erule coord_stepE)
  fix l show "c' = on_line H l c \<Longrightarrow> ?thesis"
    using gen_decide [of "maintain_cover _ _ (c\<lparr>c_seq := _, c_players := _\<rparr>)"]
    by (auto simp: on_line_def accept_line_def Let_def split: list.splits option.splits)
  fix b show "c' = on_vanish H b c \<Longrightarrow> ?thesis"
    using gen_decide [of "c\<lparr>c_players := _, c_covers := _\<rparr>"]
    by (auto simp: on_vanish_def split: option.splits)
  fix v show "c' = on_scheme H v c \<Longrightarrow> ?thesis"
    using gen_maybe_submit [of "c\<lparr>c_mode := _\<rparr>"]
    by (auto simp: on_scheme_def Let_def split: option.splits selection.splits)
  fix r show "c' = adopt H r c \<Longrightarrow> ?thesis"
    using gen_decide [of "adopt_core H r c"] by (auto simp: adopt_alt)
qed (auto simp: fire_retry_def begin_shutdown_def Let_def split: option.splits)

subsection \<open>Firing a retry\<close>

text \<open>The second guard of \<open>fire_retry\<close> never triggers: under \<open>retry_wf\<close> it is dead code.\<close>

lemma fire_retry_wf:
  assumes "retry_wf c" and "\<not> c_stopping c" and "c_retry_desire c = Some d"
  shows "fire_retry H c =
    c\<lparr>c_retry_timer := None, c_generation := c_generation c + 1,
      c_submitted_player := c_retry_player c,
      c_host := h_submit H (c_generation c + 1) d (c_host c)\<rparr>"
proof -
  have "c_last_desired c = Some d"
    using assms(1,3) by (auto simp: retry_wf_def)
  then show ?thesis
    using assms(2,3) by (simp add: fire_retry_def Let_def)
qed

subsection \<open>A failing cover: bounded retries\<close>

text \<open>
  \<open>trying c d p\<close>: the job for desire \<open>d\<close> of player \<open>p\<close> is the one in flight, \<open>p\<close> has a
  cover state that is still eligible, and selection still picks it.
\<close>

definition trying :: "'h coordinator \<Rightarrow> desired \<Rightarrow> string \<Rightarrow> bool" where
  "trying c d p \<longleftrightarrow>
     \<not> c_stopping c \<and> c_last_submitted c = Some d \<and> c_last_desired c = Some d \<and>
     c_submitted_player c = Some p \<and> eligible_player c p \<and> map_of (c_covers c) p \<noteq> None \<and>
     coord_decide c = Apply d p"

definition failed :: "'h coordinator \<Rightarrow> job_result" where
  "failed c = \<lparr>jr_generation = c_generation c, jr_outcome = FailedRetryable, jr_cover_id = None\<rparr>"

definition attempts :: "'h coordinator \<Rightarrow> nat" where
  "attempts c = (if c_retry_desire c = c_last_submitted c then c_retry_attempt c else 0)"

lemma eligible_set_status:
  "c_submitted_player c = Some p \<Longrightarrow> map_of (c_covers c) p \<noteq> None \<Longrightarrow>
     eligible_player (set_cover_status s c) = (eligible_player c)(p := eligible_status s)"
  by (auto simp: eligible_player_def set_cover_status_def fun_eq_iff)

lemma cover_mem_set_status:
  "map_of (c_covers (set_cover_status s c)) n = None \<longleftrightarrow> map_of (c_covers c) n = None"
  by (auto simp: set_cover_status_def split: option.splits)

lemma arm_retry_attempt [simp]: "c_retry_attempt (snd (arm_retry H c)) = attempts c + 1"
  by (auto simp: arm_retry_def Let_def attempts_def split: option.splits prod.splits)

lemma arm_retry_exhausted: "fst (arm_retry H c) \<longleftrightarrow> RETRY_MAX_ATTEMPTS \<le> attempts c"
  by (auto simp: arm_retry_def Let_def attempts_def split: option.splits prod.splits)

lemma arm_retry_timer:
  "attempts c < RETRY_MAX_ATTEMPTS \<Longrightarrow>
     c_retry_timer (snd (arm_retry H c)) \<noteq> None \<and>
     c_retry_player (snd (arm_retry H c)) = c_submitted_player c"
  by (auto simp: arm_retry_def Let_def attempts_def split: option.splits prod.splits)

text \<open>A failure below the cap leaves the player selected and the chain one longer.\<close>

lemma fail_below_cap:
  fixes H c c'
  assumes t: "trying c d p" and lt: "attempts c < RETRY_MAX_ATTEMPTS"
  defines "c' \<equiv> adopt H (failed c) c"
  shows "trying c' d p" and "attempts c' = attempts c + 1" and "c_retry_timer c' \<noteq> None"
    and "c_retry_desire c' = Some d" and "c_retry_player c' = Some p"
    and "c' = set_cover_status Retrying (snd (arm_retry H c))"
proof -
  let ?a = "snd (arm_retry H c)" and ?e = "set_cover_status Retrying (snd (arm_retry H c))"
  have e: "eligible_player ?e = eligible_player c"
    using t eligible_set_status [of ?a p Retrying]
    by (auto simp: trying_def fun_eq_iff eligible_player_def)
  have dec: "coord_decide ?e = Apply d p"
    using t coord_decide_cong [of ?e c] e by (simp add: trying_def)
  have "adopt_core H (failed c) c = ?e"
    using lt by (simp add: adopt_core_def failed_def arm_retry_exhausted)
  moreover have "decide_and_submit H False ?e = ?e"
    using t dec by (simp add: decide_and_submit_def maybe_submit_def trying_def)
  ultimately show c': "c' = ?e"
    using t by (simp add: c'_def adopt_alt trying_def failed_def)
  show "trying c' d p"
    using t dec e unfolding c' by (simp add: trying_def cover_mem_set_status)
  show "attempts c' = attempts c + 1"
    unfolding c' by (simp add: attempts_def [of ?e])
  show "c_retry_timer c' \<noteq> None" "c_retry_player c' = Some p"
    using arm_retry_timer [OF lt, of H] t unfolding c' by (simp_all add: trying_def)
  show "c_retry_desire c' = Some d"
    using t unfolding c' by (simp add: trying_def)
qed

text \<open>Firing the armed timer resubmits and keeps the chain.\<close>

lemma fire_keeps_trying:
  assumes "trying c d p" "c_retry_desire c = Some d" "c_retry_player c = Some p"
  shows "trying (fire_retry H c) d p" and "attempts (fire_retry H c) = attempts c"
    and "c_generation (fire_retry H c) = c_generation c + 1"
  using assms coord_decide_cong [of "fire_retry H c" c]
  by (auto simp: fire_retry_def Let_def trying_def attempts_def)

text \<open>At the cap the player becomes exhausted: selection no longer picks it.\<close>

lemma fail_at_cap:
  assumes t: "trying c d p" and ge: "RETRY_MAX_ATTEMPTS \<le> attempts c"
  shows "\<not> eligible_player (adopt H (failed c) c) p"
proof -
  have "adopt_core H (failed c) c = set_cover_status Exhausted (snd (arm_retry H c))"
    using ge by (simp add: adopt_core_def failed_def arm_retry_exhausted)
  then have "\<not> eligible_player (adopt_core H (failed c) c) p"
    using t eligible_set_status [of "snd (arm_retry H c)" p Exhausted] by (auto simp: trying_def)
  then show ?thesis
    using t by (simp add: adopt_alt trying_def failed_def)
qed

text \<open>\<open>n\<close> rounds of "the job failed, its timer fired".\<close>

fun retry_rounds :: "'h host_ops \<Rightarrow> nat \<Rightarrow> 'h coordinator \<Rightarrow> 'h coordinator" where
  "retry_rounds H 0 c = c"
| "retry_rounds H (Suc n) c = retry_rounds H n (fire_retry H (adopt H (failed c) c))"

lemma retry_rounds_trying:
  assumes "trying c d p" and "attempts c + n \<le> RETRY_MAX_ATTEMPTS"
  shows "trying (retry_rounds H n c) d p \<and> attempts (retry_rounds H n c) = attempts c + n"
  using assms
proof (induction n arbitrary: c)
  case 0
  then show ?case by simp
next
  case (Suc n)
  have lt: "attempts c < RETRY_MAX_ATTEMPTS" using Suc.prems by simp
  note f = fail_below_cap [OF Suc.prems(1) lt, of H]
  note g = fire_keeps_trying [OF f(1,4,5), of H]
  show ?case
    using Suc.IH [OF g(1)] Suc.prems g(2) f(2) by simp
qed

end
