(* ===== verification/Coordinator_Host.thy ===== *)
theory Coordinator_Host
  imports Coordinator_Inv
begin

text \<open>
  What the coordinator relies on from its \<open>Host\<close>, as two contracts, with the client's
  lemmas proved once inside them:

  \<^item> \<open>retry_host\<close>: the one-shot timer. The coordinator's handle (\<open>c_retry_timer\<close>) and the
    timer the host has armed always agree, so at most one retry is pending.
  \<^item> \<open>job_host\<close>: the mailbox behind \<open>submit\<close>. A handler either leaves the slot alone or
    leaves the job of its own last decision and generation in it; once stopping, none touches it.

  The recording \<open>FakeHost\<close> of the coordinator's unit tests is modelled here; the daemon's
  \<open>RuntimeHost\<close> interprets both contracts in \<open>Runtime\<close>.
\<close>

subsection \<open>The retry timer\<close>

locale retry_host =
  fixes H :: "'h host_ops"
    and armed :: "'h \<Rightarrow> timer_id option"
  assumes armed_submit: "armed (h_submit H g d h) = armed h"
    and armed_schedule: "armed (snd (h_schedule_retry H ms h)) = Some (fst (h_schedule_retry H ms h))"
    and armed_cancel: "armed h = Some t \<Longrightarrow> armed (h_cancel_retry H t h) = None"
    and armed_jitter: "armed (snd (h_jitter H h)) = armed h"
    and armed_warn: "armed (h_warn H w h) = armed h"
begin

definition timer_ok :: "'h coordinator \<Rightarrow> bool" where
  "timer_ok c \<longleftrightarrow> c_retry_timer c = armed (c_host c)"

lemma timer_cancel: "timer_ok c \<Longrightarrow> timer_ok (cancel_retry H c)"
  by (auto simp: timer_ok_def cancel_retry_def Let_def armed_cancel split: option.splits)

lemma timer_cancel_none: "timer_ok c \<Longrightarrow> armed (c_host (cancel_retry H c)) = None"
  using timer_cancel [of c] by (simp add: timer_ok_def)

lemma timer_submit: "timer_ok c \<Longrightarrow> timer_ok (maybe_submit H d p r c)"
  using timer_cancel_none [of "c\<lparr>c_last_desired := Some d, c_generation := Suc (c_generation c)\<rparr>"]
  by (auto simp: maybe_submit_def Let_def timer_ok_def armed_submit)

lemma timer_decide: "timer_ok c \<Longrightarrow> timer_ok (decide_and_submit H r c)"
  by (auto simp: decide_and_submit_def timer_submit split: selection.splits)

lemma timer_arm: "timer_ok c \<Longrightarrow> timer_ok (snd (arm_retry H c))"
  by (auto simp: timer_ok_def arm_retry_def Let_def armed_warn armed_jitter armed_schedule
      case_prod_unfold split: option.splits)

lemma timer_log_drop: "timer_ok c \<Longrightarrow> timer_ok (log_drop H cat det c)"
  by (simp add: timer_ok_def log_drop_def Let_def armed_warn)

lemma timer_status: "timer_ok c \<Longrightarrow> timer_ok (set_cover_status s c)"
  by (simp add: timer_ok_def)

lemma timer_line: "timer_ok c \<Longrightarrow> timer_ok (on_line H l c)"
  using timer_decide [of "maintain_cover _ _ (c\<lparr>c_seq := _, c_players := _\<rparr>)" True]
  by (auto simp: on_line_def accept_line_def Let_def timer_log_drop timer_ok_def [of "maintain_cover _ _ _"]
      timer_ok_def [of c] split: list.splits option.splits)

lemma timer_vanish: "timer_ok c \<Longrightarrow> timer_ok (on_vanish H b c)"
  using timer_decide [of "c\<lparr>c_players := _, c_covers := _\<rparr>" False]
  by (auto simp: on_vanish_def timer_ok_def [of "c\<lparr>c_players := _, c_covers := _\<rparr>"]
      timer_ok_def [of c] split: option.splits)

lemma timer_scheme: "timer_ok c \<Longrightarrow> timer_ok (on_scheme H v c)"
  using timer_submit [of "c\<lparr>c_mode := _\<rparr>" _ _ True]
  by (auto simp: on_scheme_def Let_def timer_ok_def [of "c\<lparr>c_mode := _\<rparr>"]
      timer_ok_def [of c] split: option.splits selection.splits)

lemma timer_adopt: "timer_ok c \<Longrightarrow> timer_ok (adopt H r c)"
  using timer_arm [of c]
  by (auto simp: adopt_alt adopt_core_def timer_status timer_ok_def [of c]
      timer_ok_def [of "c\<lparr>c_applied := _, c_applied_target := _, c_retry_desire := _, c_retry_attempt := _\<rparr>"]
      intro!: timer_decide timer_status split: outcome.splits)

lemma timer_shutdown: "timer_ok c \<Longrightarrow> armed (c_host (begin_shutdown H c)) = None \<and> timer_ok (begin_shutdown H c)"
  using timer_cancel [of "c\<lparr>c_stopping := True, c_generation := Suc (c_generation c)\<rparr>"]
    timer_cancel_none [of "c\<lparr>c_stopping := True, c_generation := Suc (c_generation c)\<rparr>"]
  by (simp add: begin_shutdown_def timer_ok_def)

text \<open>Firing is the host consuming its timer first, as the runtime does.\<close>

lemma timer_fire: "armed (c_host c) = None \<Longrightarrow> timer_ok (fire_retry H c)"
  by (auto simp: fire_retry_def Let_def timer_ok_def armed_submit split: option.splits)

end

subsection \<open>The mailbox behind \<open>submit\<close>\<close>

locale job_host =
  fixes H :: "'h host_ops"
    and slot :: "'h \<Rightarrow> mailbox"
    and accepting :: "'h \<Rightarrow> bool"
  assumes slot_submit: "accepting h \<Longrightarrow>
      slot (h_submit H g d h) = Some \<lparr>j_generation = g, j_desired = d\<rparr>"
    and slot_refuse: "\<not> accepting h \<Longrightarrow> slot (h_submit H g d h) = slot h"
    and slot_schedule: "slot (snd (h_schedule_retry H ms h)) = slot h"
    and slot_cancel: "slot (h_cancel_retry H t h) = slot h"
    and slot_jitter: "slot (snd (h_jitter H h)) = slot h"
    and slot_warn: "slot (h_warn H w h) = slot h"
begin

text \<open>What one handler does to the slot.\<close>

definition posts :: "'h coordinator \<Rightarrow> 'h coordinator \<Rightarrow> bool" where
  "posts c c' \<longleftrightarrow>
     slot (c_host c') = slot (c_host c) \<or>
     (\<exists>d. c_last_desired c' = Some d \<and>
        slot (c_host c') = Some \<lparr>j_generation = c_generation c', j_desired = d\<rparr> \<and>
        (c_generation c < c_generation c' \<or>
         c_generation c' = c_generation c \<and> c_last_submitted c = Some d))"

lemma posts_refl: "posts c c"
  by (simp add: posts_def)

lemma slot_cancel_retry [simp]: "slot (c_host (cancel_retry H c)) = slot (c_host c)"
  by (auto simp: cancel_retry_def Let_def slot_cancel split: option.splits)

lemma slot_submit_cases:
  "slot (h_submit H g d h) = slot h \<or> slot (h_submit H g d h) = Some \<lparr>j_generation = g, j_desired = d\<rparr>"
  using slot_submit slot_refuse by metis

lemma posts_maybe_submit: "posts c (maybe_submit H d p r c)"
  using slot_submit_cases [of "c_generation c" d "c_host c"]
    slot_submit_cases [of "Suc (c_generation c)" d
      "c_host (cancel_retry H (c\<lparr>c_last_desired := Some d, c_generation := Suc (c_generation c)\<rparr>))"]
  by (auto simp: maybe_submit_def Let_def posts_def)

lemma posts_decide: "posts c (decide_and_submit H r c)"
  by (auto simp: decide_and_submit_def posts_maybe_submit posts_refl split: selection.splits)

lemma posts_cong:
  "slot (c_host c\<^sub>1) = slot (c_host c) \<Longrightarrow> c_generation c\<^sub>1 = c_generation c \<Longrightarrow>
     c_last_submitted c\<^sub>1 = c_last_submitted c \<or> c_last_submitted c\<^sub>1 = None \<Longrightarrow>
     posts c\<^sub>1 c' \<Longrightarrow> posts c c'"
  by (auto simp: posts_def)

lemma maintain_submitted:
  "c_last_submitted (maintain_cover n a c) = c_last_submitted c \<or> c_last_submitted (maintain_cover n a c) = None"
  by (auto simp: maintain_cover_def split: option.splits)

lemma slot_log_drop [simp]: "slot (c_host (log_drop H cat det c)) = slot (c_host c)"
  by (simp add: log_drop_def Let_def slot_warn)

lemma slot_arm [simp]: "slot (c_host (snd (arm_retry H c))) = slot (c_host c)"
  by (auto simp: arm_retry_def Let_def slot_warn slot_schedule slot_cancel slot_jitter
      case_prod_unfold split: option.splits)

lemma posts_line: "posts c (on_line H l c)"
proof (cases "line_accepted c l")
  case True
  show ?thesis
    by (rule on_line_accepted [OF True, of H])
      (use maintain_submitted [of _ _ "c\<lparr>c_seq := _, c_players := _\<rparr>"] in
        \<open>simp add: accept_line_def Let_def posts_cong [OF _ _ _ posts_decide]\<close>)
next
  case False
  from on_line_rejected [OF this, of H] show ?thesis
    by (auto simp: posts_def)
qed

lemma posts_vanish: "posts c (on_vanish H b c)"
  by (auto simp: on_vanish_def posts_refl posts_cong [OF _ _ _ posts_decide] split: option.splits)

lemma posts_scheme: "posts c (on_scheme H v c)"
  using posts_cong [OF _ _ _ posts_maybe_submit, of "c\<lparr>c_mode := _\<rparr>" c]
  by (auto simp: on_scheme_def Let_def posts_refl posts_def [of c "c\<lparr>c_mode := _\<rparr>"]
      split: option.splits selection.splits)

lemma slot_adopt_core [simp]: "slot (c_host (adopt_core H r c)) = slot (c_host c)"
  by (auto simp: adopt_core_def split: outcome.splits)

lemma posts_adopt: "posts c (adopt H r c)"
  by (auto simp: adopt_alt posts_refl posts_cong [OF _ _ _ posts_decide])

lemma posts_fire: "posts c (fire_retry H c)"
  using slot_submit_cases [of "Suc (c_generation c)" _ "c_host c"]
  by (auto simp: fire_retry_def Let_def posts_def split: option.splits)

lemma slot_shutdown: "slot (c_host (begin_shutdown H c)) = slot (c_host c)"
  by (simp add: begin_shutdown_def)

text \<open>Once stopping, no handler reaches the mailbox.\<close>

lemma quiet_maybe_submit: "c_stopping c \<Longrightarrow> maybe_submit H d p r c = c"
  by (simp add: maybe_submit_def)

lemma quiet_decide: "c_stopping c \<Longrightarrow> decide_and_submit H r c = c"
  by (simp add: decide_and_submit_def quiet_maybe_submit split: selection.splits)

lemma quiet_line:
  assumes "c_stopping c"
  shows "slot (c_host (on_line H l c)) = slot (c_host c) \<and> c_stopping (on_line H l c)"
proof (cases "line_accepted c l")
  case True
  show ?thesis
    by (rule on_line_accepted [OF True, of H]) (simp add: accept_line_def Let_def quiet_decide assms)
next
  case False
  from on_line_rejected [OF this, of H] assms show ?thesis by auto
qed

lemma quiet_vanish:
  "c_stopping c \<Longrightarrow> slot (c_host (on_vanish H b c)) = slot (c_host c) \<and> c_stopping (on_vanish H b c)"
  by (simp add: on_vanish_def quiet_decide split: option.split)

lemma quiet_scheme:
  "c_stopping c \<Longrightarrow> slot (c_host (on_scheme H v c)) = slot (c_host c) \<and> c_stopping (on_scheme H v c)"
  by (simp add: on_scheme_def Let_def quiet_maybe_submit split: option.split selection.split)

lemma quiet_adopt: "c_stopping c \<Longrightarrow> adopt H r c = c"
  by (simp add: adopt_alt)

lemma quiet_fire:
  "c_stopping c \<Longrightarrow> slot (c_host (fire_retry H c)) = slot (c_host c) \<and> c_stopping (fire_retry H c)"
  by (simp add: fire_retry_def Let_def)

lemma quiet_shutdown:
  "slot (c_host (begin_shutdown H c)) = slot (c_host c) \<and> c_stopping (begin_shutdown H c)"
  by (simp add: begin_shutdown_def)

lemmas quiet = quiet_line quiet_vanish quiet_scheme quiet_adopt quiet_fire quiet_shutdown

end

subsection \<open>The recording host of the unit tests\<close>

record fake_host =
  fh_submitted :: "(nat \<times> desired) list"
  fh_scheduled :: "nat list"
  fh_cancelled :: "timer_id list"
  fh_next_handle :: timer_id
  fh_clock :: duration
  fh_warnings :: "warning list"

definition fake_default :: fake_host where
  "fake_default = \<lparr>fh_submitted = [], fh_scheduled = [], fh_cancelled = [], fh_next_handle = 0,
     fh_clock = 0, fh_warnings = []\<rparr>"

definition fake_ops :: "fake_host host_ops" where
  "fake_ops = \<lparr>
     h_submit = (\<lambda>g d h. h\<lparr>fh_submitted := fh_submitted h @ [(g, d)]\<rparr>),
     h_schedule_retry = (\<lambda>ms h.
       let h1 = h\<lparr>fh_next_handle := fh_next_handle h + 1, fh_scheduled := fh_scheduled h @ [ms]\<rparr>
       in (fh_next_handle h1, h1)),
     h_cancel_retry = (\<lambda>t h. h\<lparr>fh_cancelled := fh_cancelled h @ [t]\<rparr>),
     h_jitter = (\<lambda>h. (1, h)),
     h_now = fh_clock,
     h_warn = (\<lambda>w h. h\<lparr>fh_warnings := fh_warnings h @ [w]\<rparr>)\<rparr>"

text \<open>The last job recorded is what a mailbox behind this host would hold.\<close>

definition fake_slot :: "fake_host \<Rightarrow> mailbox" where
  "fake_slot h =
     (if fh_submitted h = [] then None
      else Some \<lparr>j_generation = fst (last (fh_submitted h)), j_desired = snd (last (fh_submitted h))\<rparr>)"

interpretation fake: job_host fake_ops fake_slot "\<lambda>h. True"
  by unfold_locales (simp_all add: fake_ops_def fake_slot_def Let_def)

end
