(* ===== verification/Runtime.thy ===== *)
theory Runtime
  imports Coordinator_Host
begin

unbundle bit_operations_syntax

text \<open>
  The event loop (\<open>src/runtime.rs\<close>): the events, the xorshift jitter, the daemon's host and the
  loop. The host's state holds what the loop shares with other threads (mailbox slot, worker
  liveness) and the clock it reads; an event source may change those while the loop waits. The
  binary64 arithmetic of the jitter is exact here.
\<close>

definition EVENT_QUEUE :: nat where "EVENT_QUEUE = 64"

datatype event =
  Line string
| Oversize string
| Hangup
| Vanish string
| Scheme nat
| SchemeMalformed string
| WorkerDone job_result
| Shutdown

datatype loop_exit = ExitShutdown | ExitHangup | ExitWorkerDied | ExitDisconnected

subsection \<open>Jitter\<close>

definition jitter_seed :: "nat option \<Rightarrow> 64 word" where
  "jitter_seed epoch_nanos =
     (case epoch_nanos of None \<Rightarrow> 0x9e3779b97f4a7c15 | Some n \<Rightarrow> of_nat n) OR 1"

definition xorshift :: "64 word \<Rightarrow> 64 word" where
  "xorshift s0 =
     (let s1 = s0 XOR push_bit 13 s0;
          s2 = s1 XOR drop_bit 7 s1
      in s2 XOR push_bit 17 s2)"

definition jitter_value :: "64 word \<Rightarrow> real" where
  "jitter_value s = 1 - RETRY_JITTER + 2 * RETRY_JITTER * (real (unat (drop_bit 11 s)) / 2 ^ 53)"

definition default_jitter :: "64 word \<Rightarrow> real \<times> 64 word" where
  "default_jitter s = (let s' = xorshift s in (jitter_value s', s'))"

subsection \<open>The host\<close>

record runtime_host =
  rh_slot :: mailbox
  rh_alive :: bool
  rh_timer :: "(timer_id \<times> instant) option"
  rh_next_timer :: timer_id
  rh_start :: instant
  rh_jitter :: "64 word"
  rh_worker_dead :: bool
  rh_clock :: instant
  rh_warned :: "warning list"

definition runtime_host_new :: "mailbox \<Rightarrow> bool \<Rightarrow> 64 word \<Rightarrow> instant \<Rightarrow> runtime_host" where
  "runtime_host_new slot alive seed now =
     \<lparr>rh_slot = slot, rh_alive = alive, rh_timer = None, rh_next_timer = 0, rh_start = now,
      rh_jitter = seed, rh_worker_dead = False, rh_clock = now, rh_warned = []\<rparr>"

definition rh_submit :: "nat \<Rightarrow> desired \<Rightarrow> runtime_host \<Rightarrow> runtime_host" where
  "rh_submit g d h =
     (if \<not> rh_alive h then h\<lparr>rh_worker_dead := True\<rparr>
      else h\<lparr>rh_slot := mailbox_put \<lparr>j_generation = g, j_desired = d\<rparr> (rh_slot h)\<rparr>)"

definition rh_schedule_retry :: "nat \<Rightarrow> runtime_host \<Rightarrow> timer_id \<times> runtime_host" where
  "rh_schedule_retry delay_ms h =
     (let h1 = h\<lparr>rh_next_timer := rh_next_timer h + 1\<rparr>;
          due = rh_clock h1 + from_millis delay_ms
      in (rh_next_timer h1, h1\<lparr>rh_timer := Some (rh_next_timer h1, due)\<rparr>))"

definition rh_cancel_retry :: "timer_id \<Rightarrow> runtime_host \<Rightarrow> runtime_host" where
  "rh_cancel_retry t h =
     (case rh_timer h of
        Some (i, _) \<Rightarrow> if i = t then h\<lparr>rh_timer := None\<rparr> else h
      | None \<Rightarrow> h)"

definition runtime_ops :: "runtime_host host_ops" where
  "runtime_ops =
     \<lparr>h_submit = rh_submit,
      h_schedule_retry = rh_schedule_retry,
      h_cancel_retry = rh_cancel_retry,
      h_jitter = (\<lambda>h. let (j, s) = default_jitter (rh_jitter h) in (j, h\<lparr>rh_jitter := s\<rparr>)),
      h_now = (\<lambda>h. rh_clock h - rh_start h),
      h_warn = (\<lambda>w h. h\<lparr>rh_warned := rh_warned h @ [w]\<rparr>)\<rparr>"

definition rh_armed :: "runtime_host \<Rightarrow> timer_id option" where
  "rh_armed h = map_option fst (rh_timer h)"

interpretation rt_timer: retry_host runtime_ops rh_armed
  by unfold_locales
    (auto simp: runtime_ops_def rh_armed_def rh_submit_def rh_schedule_retry_def rh_cancel_retry_def
      Let_def case_prod_unfold)

interpretation rt_jobs: job_host runtime_ops rh_slot rh_alive
  by unfold_locales
    (auto simp: runtime_ops_def rh_submit_def rh_schedule_retry_def rh_cancel_retry_def mailbox_put_def
      Let_def case_prod_unfold split: option.split)

subsection \<open>The loop\<close>

type_synonym coord = "runtime_host coordinator"

definition fire_due_timer :: "coord \<Rightarrow> coord" where
  "fire_due_timer c =
     (case rh_timer (c_host c) of
        None \<Rightarrow> c
      | Some (_, due) \<Rightarrow>
          (if due \<le> rh_clock (c_host c)
           then fire_retry runtime_ops (c\<lparr>c_host := (c_host c)\<lparr>rh_timer := None\<rparr>\<rparr>)
           else c))"

datatype arrival = NextEvent event | NextTimeout | NextDisconnected

text \<open>
  An event source waits at most the given time; while it does, the clock runs and other threads
  take jobs from the mailbox or die.
\<close>

type_synonym 's source = "duration option \<Rightarrow> 's \<Rightarrow> runtime_host \<Rightarrow> arrival \<times> 's \<times> runtime_host"

definition loop_timeout :: "coord \<Rightarrow> duration option" where
  "loop_timeout c = map_option (\<lambda>(_, due). due - rh_clock (c_host c)) (rh_timer (c_host c))"

definition dispatch :: "arrival \<Rightarrow> coord \<Rightarrow> loop_exit + coord" where
  "dispatch nx c =
     (case nx of
        NextTimeout \<Rightarrow> Inr c
      | NextDisconnected \<Rightarrow> Inl ExitDisconnected
      | NextEvent e \<Rightarrow>
          (case e of
             Line l \<Rightarrow> Inr (on_line runtime_ops l c)
           | Oversize detail \<Rightarrow> Inr (log_drop runtime_ops ''oversize'' detail c)
           | Vanish name \<Rightarrow> Inr (on_vanish runtime_ops name c)
           | Scheme v \<Rightarrow> Inr (on_scheme runtime_ops v c)
           | SchemeMalformed detail \<Rightarrow> Inr (log_drop runtime_ops ''scheme'' detail c)
           | WorkerDone r \<Rightarrow> Inr (adopt runtime_ops r c)
           | Hangup \<Rightarrow> Inl ExitHangup
           | Shutdown \<Rightarrow> Inl ExitShutdown))"

definition loop_step :: "'s source \<Rightarrow> 's \<Rightarrow> coord \<Rightarrow> loop_exit option \<times> 's \<times> coord" where
  "loop_step src s c =
     (case src (loop_timeout c) s (c_host c) of
        (nx, s1, h1) \<Rightarrow>
          let c1 = c\<lparr>c_host := h1\<rparr> in
          (case dispatch nx c1 of
             Inl e \<Rightarrow> (Some e, s1, c1)
           | Inr c2 \<Rightarrow>
               (let c3 = fire_due_timer c2
                in (if rh_worker_dead (c_host c3) then Some ExitWorkerDied else None, s1, c3))))"

partial_function (option) run_loop :: "'s source \<Rightarrow> 's \<Rightarrow> coord \<Rightarrow> (loop_exit \<times> 's \<times> coord) option" where
  "run_loop src s c =
     (case loop_step src s c of
        (Some e, s', c') \<Rightarrow> Some (e, s', c')
      | (None, s', c') \<Rightarrow> run_loop src s' c')"

subsection \<open>Jitter stays in its band\<close>

lemma jitter_value_bounds: "85 / 100 \<le> jitter_value s \<and> jitter_value s < 115 / 100"
proof -
  have "unat (drop_bit 11 s) = unat s div 2 ^ 11"
    by (simp only: unat_drop_bit_eq) (simp add: drop_bit_eq_div)
  moreover have "unat s < 2 ^ 53 * 2 ^ 11" using unsigned_less [of s] by simp
  then have "unat s div 2 ^ 11 < 2 ^ 53" by (rule less_mult_imp_div_less)
  ultimately have "real (unat (drop_bit 11 s)) < 2 ^ 53"
    by (metis of_nat_less_iff of_nat_numeral of_nat_power)
  moreover obtain n where n: "unat (drop_bit 11 s) = n" by blast
  ultimately have "jitter_value s = 85 / 100 + 30 / 100 * (real n / 2 ^ 53)" "real n < 2 ^ 53"
    by (simp_all only: jitter_value_def RETRY_JITTER_def n)
  then show ?thesis by simp
qed

lemma xor_shift_nonzero:
  fixes x :: "'a::len word"
  assumes "x \<noteq> 0" and "0 < n"
  shows "x XOR push_bit n x \<noteq> 0" "x XOR drop_bit n x \<noteq> 0"
proof -
  have eq: "x XOR y = 0 \<Longrightarrow> bit x i = bit y i" for y :: "'a word" and i
    by (metis bit_xor_iff bit_0_eq bot_apply bot_bool_def)
  have zero: "\<exists>i. bit x i" using assms(1) by (metis bit_word_eqI bit_0_eq bot_apply bot_bool_def)
  show "x XOR push_bit n x \<noteq> 0"
  proof
    assume e: "x XOR push_bit n x = 0"
    have "\<not> bit x i" for i
    proof (induction i rule: less_induct)
      case (less i)
      show ?case using less assms(2) eq [OF e, of i] by (auto simp: bit_push_bit_iff)
    qed
    with zero show False by blast
  qed
  show "x XOR drop_bit n x \<noteq> 0"
  proof
    assume e: "x XOR drop_bit n x = 0"
    have "\<not> bit x i" for i
    proof (induction "LENGTH('a) - i" arbitrary: i rule: less_induct)
      case less
      show ?case
      proof (cases "i < LENGTH('a)")
        case True
        with assms(2) have "\<not> bit x (n + i)" by (intro less) simp
        then show ?thesis using eq [OF e, of i] by (simp add: bit_drop_bit_eq)
      next
        case False
        then show ?thesis using bit_imp_le_length by blast
      qed
    qed
    with zero show False by blast
  qed
qed

lemma xorshift_nonzero: "s \<noteq> 0 \<Longrightarrow> xorshift s \<noteq> 0"
  unfolding xorshift_def Let_def by (intro xor_shift_nonzero) simp_all

lemma jitter_seed_nonzero: "jitter_seed t \<noteq> 0"
proof -
  have "bit (jitter_seed t) 0" by (simp add: jitter_seed_def bit_or_iff)
  then show ?thesis by auto
qed

text \<open>Runtime, jitter: from any clock seed, every value the generator ever draws lies in
  [0.85, 1.15), and its state never degenerates to zero.\<close>

theorem jitter_in_band:
  "85 / 100 \<le> fst (default_jitter ((xorshift ^^ n) (jitter_seed t))) \<and>
   fst (default_jitter ((xorshift ^^ n) (jitter_seed t))) < 115 / 100 \<and>
   snd (default_jitter ((xorshift ^^ n) (jitter_seed t))) \<noteq> 0"
proof -
  have "(xorshift ^^ n) (jitter_seed t) \<noteq> 0"
    by (induction n) (simp_all add: jitter_seed_nonzero xorshift_nonzero)
  then show ?thesis
    using jitter_value_bounds by (simp add: default_jitter_def Let_def xorshift_nonzero)
qed

subsection \<open>The loop drives the coordinator by its own steps\<close>

inductive coord_steps :: "coord \<Rightarrow> coord \<Rightarrow> bool" where
  none: "coord_steps c c"
| more: "coord_steps c c' \<Longrightarrow> coord_step runtime_ops c' c'' \<Longrightarrow> coord_steps c c''"

lemma coord_steps_one: "coord_step runtime_ops c c' \<Longrightarrow> coord_steps c c'"
  by (rule more [OF none])

lemma coord_steps_trans: "coord_steps c c' \<Longrightarrow> coord_steps c' c'' \<Longrightarrow> coord_steps c c''"
  by (rotate_tac, induction rule: coord_steps.induct) (auto intro: more)

lemma coord_steps_reach:
  "coord_steps c c' \<Longrightarrow> coord_reach runtime_ops d a c \<Longrightarrow> coord_reach runtime_ops d a c'"
  by (induction rule: coord_steps.induct) (auto intro: coord_reach.step)

lemma dispatch_steps: "dispatch nx c = Inr c' \<Longrightarrow> coord_steps c c'"
  by (auto simp: dispatch_def split: arrival.splits event.splits
      intro: coord_steps_one coord_step.intros none)

lemma fire_due_steps: "coord_steps c (fire_due_timer c)"
proof -
  have "coord_steps c (fire_retry runtime_ops (c\<lparr>c_host := h\<rparr>))" for h
    by (rule more [OF coord_steps_one [OF coord_step.world] coord_step.retry])
  then show ?thesis by (auto simp: fire_due_timer_def split: option.split intro: none)
qed

lemma loop_step_steps:
  assumes "loop_step src s c = (e, s', c')" shows "coord_steps c c'"
proof -
  obtain nx s1 h1 where src: "src (loop_timeout c) s (c_host c) = (nx, s1, h1)"
    by (cases "src (loop_timeout c) s (c_host c)")
  have w: "coord_steps c (c\<lparr>c_host := h1\<rparr>)" by (rule coord_steps_one [OF coord_step.world])
  show ?thesis
  proof (cases "dispatch nx (c\<lparr>c_host := h1\<rparr>)")
    case (Inl x)
    with assms src w show ?thesis by (simp add: loop_step_def)
  next
    case (Inr c2)
    with assms src have "c' = fire_due_timer c2" by (auto simp: loop_step_def Let_def)
    then show ?thesis
      using coord_steps_trans [OF w coord_steps_trans [OF dispatch_steps [OF Inr] fire_due_steps]] by simp
  qed
qed

lemma run_loop_steps:
  assumes "run_loop src s c = Some (e, s', c')" shows "coord_steps c c'"
proof -
  have "coord_steps c (snd (snd y))" if "run_loop src s c = Some y" for y
    using that
  proof (rule run_loop.raw_induct [where P = "\<lambda>src s c y. coord_steps c (snd (snd y))", rotated])
    fix loop :: "'a source \<Rightarrow> 'a \<Rightarrow> coord \<Rightarrow> (loop_exit \<times> 'a \<times> coord) option" and src s c y
    assume IH: "\<And>src s c y. loop src s c = Some y \<Longrightarrow> coord_steps c (snd (snd y))"
      and step: "(case loop_step src s c of
        (Some e, s', c') \<Rightarrow> Some (e, s', c')
      | (None, s', c') \<Rightarrow> loop src s' c') = Some y"
    obtain e s' c' where l: "loop_step src s c = (e, s', c')" by (cases "loop_step src s c")
    from loop_step_steps [OF l] l step IH coord_steps_trans show "coord_steps c (snd (snd y))"
      by (cases e) auto
  qed
  from this [OF assms] show ?thesis by simp
qed

text \<open>Runtime, refinement: whatever the event source does, every state the loop ends in is
  reached by the coordinator's own steps, so the coordinator's invariants hold of it.\<close>

theorem run_loop_wf:
  assumes "run_loop src s (coordinator_new h dir_for m allowed) = Some (e, s', c')"
  shows "coord_steps (coordinator_new h dir_for m allowed) c' \<and> coord_wf c' \<and> retry_wf c'"
proof -
  have steps: "coord_steps (coordinator_new h dir_for m allowed) c'" by (rule run_loop_steps [OF assms])
  then have "coord_reach runtime_ops dir_for allowed c'"
    by (rule coord_steps_reach) (rule coord_reach.init)
  with steps show ?thesis using coord_wf_reach retry_wf_reach by blast
qed

subsection \<open>The retry timer under a flood\<close>

definition overdue :: "coord \<Rightarrow> bool" where
  "overdue c = (case rh_timer (c_host c) of None \<Rightarrow> False | Some (_, due) \<Rightarrow> due \<le> rh_clock (c_host c))"

lemma fire_retry_host:
  "c_host (fire_retry runtime_ops c) = c_host c \<or>
   (\<exists>g d. c_host (fire_retry runtime_ops c) = rh_submit g d (c_host c))"
  by (auto simp: fire_retry_def Let_def runtime_ops_def split: option.split)

lemma fire_due_not_overdue: "\<not> overdue (fire_due_timer c)"
proof (cases "overdue c")
  case True
  let ?c = "c\<lparr>c_host := (c_host c)\<lparr>rh_timer := None\<rparr>\<rparr>"
  have "fire_due_timer c = fire_retry runtime_ops ?c"
    using True by (auto simp: overdue_def fire_due_timer_def split: option.splits)
  moreover have "rh_timer (c_host (fire_retry runtime_ops ?c)) = None"
    using fire_retry_host [of ?c] by (auto simp: rh_submit_def)
  ultimately show ?thesis by (simp add: overdue_def)
next
  case False
  then show ?thesis by (auto simp: overdue_def fire_due_timer_def split: option.splits)
qed

text \<open>C15. Runtime, the retry cannot be starved: after every iteration that keeps looping no armed
  timer is overdue, however fast the source delivers; and a source that is allowed to wait is given
  at most the time to the deadline.\<close>

theorem no_overdue_timer:
  assumes "loop_step src s c = (None, s', c')"
  shows "\<not> overdue c' \<and> \<not> rh_worker_dead (c_host c') \<and>
    (\<forall>i due. rh_timer (c_host c') = Some (i, due) \<longrightarrow>
       loop_timeout c' = Some (due - rh_clock (c_host c')) \<and> rh_clock (c_host c') < due)"
proof -
  from assms obtain c2 where c': "c' = fire_due_timer c2" and "\<not> rh_worker_dead (c_host c')"
    by (auto simp: loop_step_def Let_def split: prod.splits sum.splits if_splits)
  moreover have "\<not> overdue c'" unfolding c' by (rule fire_due_not_overdue)
  ultimately show ?thesis by (auto simp: overdue_def loop_timeout_def)
qed

subsection \<open>One timer, agreed on by the coordinator and its host\<close>

text \<open>Waiting for an event does not touch the timer.\<close>

definition keeps_timer :: "'s source \<Rightarrow> bool" where
  "keeps_timer src \<longleftrightarrow> (\<forall>t s h. rh_timer (snd (snd (src t s h))) = rh_timer h)"

lemma dispatch_timer:
  "dispatch nx c = Inr c' \<Longrightarrow> rt_timer.timer_ok c \<Longrightarrow> rt_timer.timer_ok c'"
  by (auto simp: dispatch_def split: arrival.splits event.splits
      intro: rt_timer.timer_line rt_timer.timer_log_drop rt_timer.timer_vanish rt_timer.timer_scheme rt_timer.timer_adopt)

lemma fire_due_ok: "rt_timer.timer_ok c \<Longrightarrow> rt_timer.timer_ok (fire_due_timer c)"
proof (cases "overdue c")
  case True
  then have "fire_due_timer c = fire_retry runtime_ops (c\<lparr>c_host := (c_host c)\<lparr>rh_timer := None\<rparr>\<rparr>)"
    by (auto simp: overdue_def fire_due_timer_def split: option.splits)
  then show ?thesis using rt_timer.timer_fire [of "c\<lparr>c_host := (c_host c)\<lparr>rh_timer := None\<rparr>\<rparr>"]
    by (simp add: rh_armed_def)
next
  case False
  moreover assume "rt_timer.timer_ok c"
  ultimately show ?thesis by (auto simp: overdue_def fire_due_timer_def split: option.splits)
qed

lemma loop_step_timer:
  assumes "keeps_timer src" and "rt_timer.timer_ok c" and "loop_step src s c = (e, s', c')"
  shows "rt_timer.timer_ok c'"
proof -
  obtain nx s1 h1 where src: "src (loop_timeout c) s (c_host c) = (nx, s1, h1)"
    by (cases "src (loop_timeout c) s (c_host c)")
  have "rh_timer h1 = rh_timer (c_host c)" using assms(1) src unfolding keeps_timer_def by (metis snd_conv)
  then have w: "rt_timer.timer_ok (c\<lparr>c_host := h1\<rparr>)"
    using assms(2) by (simp add: rt_timer.timer_ok_def rh_armed_def)
  show ?thesis
  proof (cases "dispatch nx (c\<lparr>c_host := h1\<rparr>)")
    case (Inl x)
    with assms(3) src w show ?thesis by (simp add: loop_step_def)
  next
    case (Inr c2)
    with assms(3) src have "c' = fire_due_timer c2" by (auto simp: loop_step_def Let_def)
    then show ?thesis using fire_due_ok [OF dispatch_timer [OF Inr w]] by simp
  qed
qed

lemma run_loop_timer:
  assumes "run_loop src s c = Some y" and "keeps_timer src" and "rt_timer.timer_ok c"
  shows "rt_timer.timer_ok (snd (snd y))"
proof -
  have "keeps_timer src \<longrightarrow> rt_timer.timer_ok c \<longrightarrow> rt_timer.timer_ok (snd (snd y))"
    using assms(1)
  proof (rule run_loop.raw_induct
      [where P = "\<lambda>src s c y. keeps_timer src \<longrightarrow> rt_timer.timer_ok c \<longrightarrow> rt_timer.timer_ok (snd (snd y))", rotated],
      intro impI)
    fix loop :: "'a source \<Rightarrow> 'a \<Rightarrow> coord \<Rightarrow> (loop_exit \<times> 'a \<times> coord) option" and src s c y
    assume IH: "\<And>src s c y. loop src s c = Some y \<Longrightarrow>
        keeps_timer src \<longrightarrow> rt_timer.timer_ok c \<longrightarrow> rt_timer.timer_ok (snd (snd y))"
      and step: "(case loop_step src s c of
        (Some e, s', c') \<Rightarrow> Some (e, s', c')
      | (None, s', c') \<Rightarrow> loop src s' c') = Some y"
      and ok: "keeps_timer src" "rt_timer.timer_ok c"
    obtain e s' c' where l: "loop_step src s c = (e, s', c')" by (cases "loop_step src s c")
    from loop_step_timer [OF ok l] l step IH ok show "rt_timer.timer_ok (snd (snd y))"
      by (cases e) auto
  qed
  with assms(2,3) show ?thesis by blast
qed

text \<open>Runtime, timers: with a source that leaves the timer alone, the coordinator's handle and the
  host's armed timer agree when the loop ends, and beginning the shutdown leaves no timer armed.\<close>

theorem timers_agree:
  assumes "run_loop src s (coordinator_new (runtime_host_new slot alive seed now) dir_for m allowed) = Some (e, s', c')"
    and "keeps_timer src"
  shows "c_retry_timer c' = map_option fst (rh_timer (c_host c')) \<and>
    rh_timer (c_host (begin_shutdown runtime_ops c')) = None"
proof -
  have "rt_timer.timer_ok (coordinator_new (runtime_host_new slot alive seed now) dir_for m allowed)"
    by (simp add: rt_timer.timer_ok_def coordinator_new_def runtime_host_new_def rh_armed_def)
  from run_loop_timer [OF assms(1,2) this] have ok: "rt_timer.timer_ok c'" by simp
  with rt_timer.timer_shutdown [OF ok] show ?thesis
    by (simp add: rt_timer.timer_ok_def rh_armed_def)
qed

subsection \<open>A scripted source\<close>

fun script :: "event list source" where
  "script t [] h = (NextDisconnected, [], h)"
| "script t (e # es) h = (NextEvent e, es, h)"

lemma script_keeps_timer: "keeps_timer script"
proof -
  have "rh_timer (snd (snd (script t s h))) = rh_timer h" for t s h
    by (cases s) simp_all
  then show ?thesis by (simp add: keeps_timer_def)
qed

definition demo_host :: runtime_host where
  "demo_host = runtime_host_new None True 1 0"

definition demo_coord :: coord where
  "demo_coord = coordinator_new demo_host (\<lambda>_. None) Dark ''spotify''"

lemma demo_shutdown: "run_loop script [Scheme 2, Shutdown] demo_coord = Some (ExitShutdown, [], on_scheme runtime_ops 2 demo_coord)"
proof -
  have "rh_timer (c_host (on_scheme runtime_ops 2 demo_coord)) = None"
    "\<not> rh_worker_dead (c_host (on_scheme runtime_ops 2 demo_coord))"
    by (simp_all add: on_scheme_def mode_from_color_scheme_def demo_coord_def coordinator_new_def coord_decide_def
        decide_def runtime_ops_def Let_def demo_host_def runtime_host_new_def)
  then have "loop_step script [Scheme 2, Shutdown] demo_coord = (None, [Shutdown], on_scheme runtime_ops 2 demo_coord)"
    by (simp add: loop_step_def dispatch_def fire_due_timer_def Let_def)
  moreover have "loop_step script [Shutdown] (on_scheme runtime_ops 2 demo_coord) =
      (Some ExitShutdown, [], on_scheme runtime_ops 2 demo_coord)"
    by (simp add: loop_step_def dispatch_def Let_def)
  ultimately show ?thesis
    by (simp add: run_loop.simps [of script "[Scheme 2, Shutdown]"] run_loop.simps [of script "[Shutdown]"])
qed

theorem run_loop_wf_witness: "coord_wf (on_scheme runtime_ops 2 demo_coord)"
  using run_loop_wf [OF demo_shutdown [unfolded demo_coord_def]] by (simp add: demo_coord_def)

theorem timers_agree_witness:
  "c_retry_timer (on_scheme runtime_ops 2 demo_coord) = map_option fst (rh_timer (c_host (on_scheme runtime_ops 2 demo_coord)))"
  using timers_agree [OF demo_shutdown [unfolded demo_coord_def demo_host_def] script_keeps_timer]
  by (simp add: demo_coord_def demo_host_def)

theorem no_overdue_timer_witness:
  "\<not> overdue (on_scheme runtime_ops 1 demo_coord)"
proof -
  have "loop_step script [Scheme 1] demo_coord = (None, [], on_scheme runtime_ops 1 demo_coord)"
    by (simp add: loop_step_def dispatch_def fire_due_timer_def on_scheme_def mode_from_color_scheme_def
        demo_coord_def coordinator_new_def demo_host_def runtime_host_new_def Let_def)
  from no_overdue_timer [OF this] show ?thesis by blast
qed

end
