(* ===== verification/Framing.thy ===== *)
theory Framing
  imports Prelude
begin

text \<open>
  The bounded newline framer of \<open>src/framing.rs\<close>. A \<open>line_framer\<close> holds the bytes
  of the line in progress, the cap and the resync flag. The drop callback is an output: \<open>feed\<close>
  returns the lines it completed and the sizes it reported to \<open>on_drop\<close>, in order. Lines
  are bytes; the lossy UTF-8 decoding of an emitted line is a function of those bytes, the
  parameter \<open>lossy\<close> of the reader (see \<open>Sources\<close>).
\<close>

type_synonym byte = char

definition NL :: byte where
  "NL = CHR 0x0A"

definition MAX_LINE_BYTES :: nat where
  "MAX_LINE_BYTES = 8192"

definition READ_CHUNK :: nat where
  "READ_CHUNK = 65536"

record line_framer =
  lf_buf :: "byte list"
  lf_max :: nat
  lf_discarding :: bool

definition framer_new :: "nat \<Rightarrow> line_framer" where
  "framer_new max_line_bytes = \<lparr>lf_buf = [], lf_max = max_line_bytes, lf_discarding = False\<rparr>"

definition framer_default :: line_framer where
  "framer_default = framer_new MAX_LINE_BYTES"

definition buffered_bytes :: "line_framer \<Rightarrow> nat" where
  "buffered_bytes f = length (lf_buf f)"

text \<open>
  The \<open>while let\<close> loop over the newlines of the buffer. \<open>buf\<close> is \<open>self.buf[start..]\<close>;
  the result is the lines pushed, the sizes dropped, the resync flag and the bytes left
  after \<open>drain(..start)\<close>.
\<close>

function frame_loop ::
  "nat \<Rightarrow> bool \<Rightarrow> byte list \<Rightarrow> byte list list \<times> nat list \<times> bool \<times> byte list" where
  "frame_loop mx discarding buf =
     (if NL \<in> set buf then
        let line = takeWhile (\<lambda>b. b \<noteq> NL) buf;
            rest = drop (Suc (length line)) buf
        in if discarding then frame_loop mx False rest
           else if length line > mx then
             (case frame_loop mx False rest of
                (lines, drops, d, tail) \<Rightarrow> (lines, length line # drops, d, tail))
           else
             (case frame_loop mx False rest of
                (lines, drops, d, tail) \<Rightarrow> (line # lines, drops, d, tail))
      else ([], [], discarding, buf))"
  by pat_completeness auto
termination
  by (relation "measure (\<lambda>(mx, d, buf). length buf)") (auto intro!: diff_less length_pos_if_in_set)

definition feed :: "byte list \<Rightarrow> line_framer \<Rightarrow> byte list list \<times> nat list \<times> line_framer" where
  "feed data f =
     (case frame_loop (lf_max f) (lf_discarding f) (lf_buf f @ data) of
        (lines, drops, d, tail) \<Rightarrow>
          let over = length tail > lf_max f;
              drops' = (if over \<and> \<not> d then drops @ [length tail] else drops);
              d' = (d \<or> over);
              tail' = (if d' then [] else tail)
          in (lines, drops', f\<lparr>lf_buf := tail', lf_discarding := d'\<rparr>))"

text \<open>A whole stream, one read after the other.\<close>

fun feed_all :: "byte list list \<Rightarrow> line_framer \<Rightarrow> byte list list \<times> nat list \<times> line_framer" where
  "feed_all [] f = ([], [], f)"
| "feed_all (d # ds) f =
     (case feed d f of (ls, drops, f') \<Rightarrow>
       (case feed_all ds f' of (ls', drops', f'') \<Rightarrow> (ls @ ls', drops @ drops', f'')))"

declare frame_loop.simps [simp del]

subsection \<open>The specification: lines of the whole stream\<close>

text \<open>
  The lines of a stream are its newline-terminated segments; the framer promises exactly
  the ones of at most \<open>mx\<close> bytes, in order, however the stream was cut into reads.
\<close>

definition complete_lines :: "byte list \<Rightarrow> byte list list" where
  "complete_lines s = butlast (split_on NL s)"

definition accepted_lines :: "nat \<Rightarrow> byte list \<Rightarrow> byte list list" where
  "accepted_lines mx s = filter (\<lambda>l. length l \<le> mx) (complete_lines s)"

definition tail_line :: "byte list \<Rightarrow> byte list" where
  "tail_line s = last (split_on NL s)"

lemma split_on_append:
  "split_on c (s @ t) =
     butlast (split_on c s) @ (last (split_on c s) @ hd (split_on c t)) # tl (split_on c t)"
proof (induction s)
  case Nil
  then show ?case by (cases "split_on c t") auto
next
  case (Cons x s)
  obtain p ps where ps: "split_on c s = p # ps"
    by (cases "split_on c s") auto
  show ?case
  proof (cases "x = c")
    case True
    with Cons ps show ?thesis by simp
  next
    case False
    with Cons ps show ?thesis by (cases ps) auto
  qed
qed

lemma split_on_at_newline:
  assumes "NL \<in> set buf"
  shows "split_on NL buf =
    takeWhile (\<lambda>b. b \<noteq> NL) buf # split_on NL (drop (Suc (length (takeWhile (\<lambda>b. b \<noteq> NL) buf))) buf)"
proof -
  obtain l t where buf: "buf = l @ NL # t" and l: "NL \<notin> set l"
    using split_list_first [OF assms] by blast
  have "takeWhile (\<lambda>b. b \<noteq> NL) l = l"
    using l by (auto simp: takeWhile_eq_all_conv)
  then have "takeWhile (\<lambda>b. b \<noteq> NL) buf = l"
    using l buf by (simp add: takeWhile_append)
  then show ?thesis
    using l by (simp add: buf split_on_append_sep)
qed

lemma split_on_Nil_newline: "NL \<notin> set buf \<Longrightarrow> split_on NL buf = [buf]"
  by (rule split_on_no_sep)

lemma frame_loop_clear:
  "frame_loop mx False buf =
     (accepted_lines mx buf,
      map length (filter (\<lambda>l. mx < length l) (complete_lines buf)), False, tail_line buf)"
proof (induction "length buf" arbitrary: buf rule: less_induct)
  case less
  show ?case
  proof (cases "NL \<in> set buf")
    case False
    then show ?thesis
      by (subst frame_loop.simps)
        (simp add: accepted_lines_def complete_lines_def tail_line_def split_on_Nil_newline)
  next
    case True
    let ?l = "takeWhile (\<lambda>b. b \<noteq> NL) buf" and ?r = "drop (Suc (length (takeWhile (\<lambda>b. b \<noteq> NL) buf))) buf"
    have "length ?r < length buf"
      using True by (auto intro!: diff_less length_pos_if_in_set)
    then have IH: "frame_loop mx False ?r =
        (accepted_lines mx ?r,
         map length (filter (\<lambda>l. mx < length l) (complete_lines ?r)), False, tail_line ?r)"
      by (rule less)
    show ?thesis
      using True
      by (subst frame_loop.simps)
        (simp add: Let_def IH accepted_lines_def complete_lines_def tail_line_def split_on_at_newline)
  qed
qed

lemma frame_loop_discarding:
  "frame_loop mx True buf =
     (if NL \<in> set buf
      then (filter (\<lambda>l. length l \<le> mx) (tl (complete_lines buf)),
            map length (filter (\<lambda>l. mx < length l) (tl (complete_lines buf))), False, tail_line buf)
      else ([], [], True, buf))"
  by (subst frame_loop.simps)
    (simp add: frame_loop_clear Let_def accepted_lines_def complete_lines_def tail_line_def
      split_on_at_newline)

text \<open>
  The abstraction: the state of the framer after a stream \<open>s\<close>, and the number of refused
  lines it has reported by then.
\<close>

definition framer_after :: "nat \<Rightarrow> byte list \<Rightarrow> line_framer" where
  "framer_after mx s =
     (let t = tail_line s; over = length t > mx
      in \<lparr>lf_buf = (if over then [] else t), lf_max = mx, lf_discarding = over\<rparr>)"

definition refused_lines :: "nat \<Rightarrow> byte list \<Rightarrow> nat" where
  "refused_lines mx s = length (filter (\<lambda>l. mx < length l) (split_on NL s))"

lemma complete_tail: "split_on NL s = complete_lines s @ [tail_line s]"
  by (simp add: complete_lines_def tail_line_def)

lemma complete_lines_append:
  "complete_lines (s @ t) =
     complete_lines s @ butlast ((tail_line s @ hd (split_on NL t)) # tl (split_on NL t))"
  by (simp add: complete_lines_def tail_line_def split_on_append butlast_append)

lemma tail_line_append:
  "tail_line (s @ t) = last ((tail_line s @ hd (split_on NL t)) # tl (split_on NL t))"
  by (simp add: tail_line_def split_on_append)

lemma split_tail_append: "split_on NL (tail_line s @ t) =
    (tail_line s @ hd (split_on NL t)) # tl (split_on NL t)"
proof -
  have "NL \<notin> set (tail_line s)"
    unfolding tail_line_def by (rule split_on_pieces) (rule last_in_set, simp)
  then show ?thesis by (simp add: split_on_append split_on_no_sep)
qed

lemma feed_one:
  assumes "feed t (framer_after mx s) = (lines, drops, f)"
  shows "accepted_lines mx (s @ t) = accepted_lines mx s @ lines"
    and "refused_lines mx (s @ t) = refused_lines mx s + length drops"
    and "f = framer_after mx (s @ t)"
proof -
  let ?over = "mx < length (tail_line s)"
  obtain h r where hr: "split_on NL t = h # r"
    by (cases "split_on NL t") auto
  have cl: "complete_lines (s @ t) = complete_lines s @ butlast ((tail_line s @ h) # r)"
    and tl: "tail_line (s @ t) = last ((tail_line s @ h) # r)"
    and st: "split_on NL (tail_line s @ t) = (tail_line s @ h) # r"
    by (simp_all add: complete_lines_append tail_line_append split_tail_append hr)
  have nl: "NL \<in> set t \<longleftrightarrow> r \<noteq> []"
    using hr split_on_at_newline [of t] split_on_no_sep [of NL t] by (cases "NL \<in> set t") auto
  have h: "r = [] \<Longrightarrow> h = t" using nl hr split_on_no_sep [of NL t] by auto
  have "accepted_lines mx (s @ t) = accepted_lines mx s @ lines \<and>
        refused_lines mx (s @ t) = refused_lines mx s + length drops \<and>
        f = framer_after mx (s @ t)"
  proof (cases ?over)
    case False
    with assms have e: "(lines, drops, f) =
        (let over = length (tail_line (tail_line s @ t)) > mx in
         (accepted_lines mx (tail_line s @ t),
          map length (filter (\<lambda>l. mx < length l) (complete_lines (tail_line s @ t)))
            @ (if over then [length (tail_line (tail_line s @ t))] else []),
          \<lparr>lf_buf = (if over then [] else tail_line (tail_line s @ t)), lf_max = mx, lf_discarding = over\<rparr>))"
      by (auto simp: feed_def framer_after_def frame_loop_clear Let_def)
    with False show ?thesis
      by (auto simp: framer_after_def Let_def accepted_lines_def refused_lines_def cl tl
          complete_tail [of "s @ t"] complete_tail [of s]
          complete_lines_def [of "tail_line s @ t"] tail_line_def [of "tail_line s @ t"] st)
  next
    case True
    show ?thesis
    proof (cases "r = []")
      case r: True
      with True assms h nl show ?thesis
        by (auto simp: feed_def framer_after_def frame_loop_discarding Let_def tl cl hr
            accepted_lines_def refused_lines_def complete_tail [of "s @ t"] complete_tail [of s])
    next
      case r: False
      then obtain q qs where q: "r = q # qs" by (cases r) auto
      from True r assms nl show ?thesis
        by (auto simp: feed_def framer_after_def frame_loop_discarding Let_def tl cl hr q
            accepted_lines_def refused_lines_def complete_tail [of "s @ t"] complete_tail [of s]
            complete_lines_def [of t] tail_line_def [of t])
    qed
  qed
  then show "accepted_lines mx (s @ t) = accepted_lines mx s @ lines"
    and "refused_lines mx (s @ t) = refused_lines mx s + length drops"
    and "f = framer_after mx (s @ t)" by auto
qed

lemma feed_all_spec:
  "feed_all ds (framer_after mx s) = (lines, drops, f) \<Longrightarrow>
     accepted_lines mx (s @ concat ds) = accepted_lines mx s @ lines \<and>
     refused_lines mx (s @ concat ds) = refused_lines mx s + length drops \<and>
     f = framer_after mx (s @ concat ds)"
proof (induction ds arbitrary: s lines drops f)
  case Nil
  then show ?case by simp
next
  case (Cons d ds)
  obtain l1 d1 f1 where one: "feed d (framer_after mx s) = (l1, d1, f1)"
    by (cases "feed d (framer_after mx s)")
  note first = feed_one [OF one]
  obtain l2 d2 f2 where rest: "feed_all ds (framer_after mx (s @ d)) = (l2, d2, f2)"
    by (cases "feed_all ds (framer_after mx (s @ d))")
  from Cons.prems one rest first(3) have "lines = l1 @ l2" "drops = d1 @ d2" "f = f2"
    by auto
  with first Cons.IH [OF rest] show ?case by simp
qed

lemma framer_new_after: "framer_new mx = framer_after mx []"
  by (simp add: framer_new_def framer_after_def tail_line_def)

end
