(* ===== verification/Coordinator_Props.thy ===== *)
theory Coordinator_Props
  imports Runtime Framing
begin

text \<open>
  What the coordinator promises, stated over its handlers and over the runtime's host. The
  proofs rest on the invariants of \<open>Coordinator_Inv\<close> and on the contracts of
  \<open>Coordinator_Host\<close> as the runtime (\<open>rt_jobs\<close>) and the recording host (\<open>fake\<close>) provide them.
\<close>

subsection \<open>Framing, selection, the mailbox\<close>

lemma feed_all_exact:
  "\<exists>drops f. feed_all ds (framer_new mx) = (accepted_lines mx (concat ds), drops, f) \<and>
     length drops = refused_lines mx (concat ds) \<and> f = framer_after mx (concat ds)"
proof -
  obtain lines drops f where e: "feed_all ds (framer_after mx []) = (lines, drops, f)"
    by (cases "feed_all ds (framer_after mx [])")
  have "refused_lines mx [] = 0" "accepted_lines mx [] = []"
    by (simp_all add: refused_lines_def accepted_lines_def complete_lines_def)
  with feed_all_spec [OF e] e show ?thesis by (simp add: framer_new_after)
qed

text \<open>C14. Framing: however a stream is cut into reads, the framer emits exactly its complete lines of
  at most the bound, in order, reports each longer line once, and never holds more than the bound.\<close>

theorem framer_exact:
  "\<exists>drops f. feed_all ds (framer_new mx) = (accepted_lines mx (concat ds), drops, f) \<and>
     length drops = refused_lines mx (concat ds) \<and> buffered_bytes f \<le> mx"
  using feed_all_exact [of ds mx] by (auto simp: framer_after_def Let_def buffered_bytes_def)


definition demo_players :: players where
  "demo_players =
     [(''a'', \<lparr>ps_status = Playing, ps_art_url = ''u'', ps_seq = 1\<rparr>),
      (''b'', \<lparr>ps_status = Playing, ps_art_url = ''v'', ps_seq = 2\<rparr>),
      (''c'', \<lparr>ps_status = Paused, ps_art_url = ''w'', ps_seq = 3\<rparr>)]"


text \<open>Mailbox: of any number of jobs put since the last take the worker gets exactly the newest,
  once; and a stop wins over a pending job and drains it.\<close>

theorem mailbox_latest_wins:
  "(case mailbox_get False (fold mailbox_put (js @ [j]) slot) of
      (r, rest) \<Rightarrow> r = Return (Some j) \<and> fst (mailbox_get False rest) = Block) \<and>
   mailbox_get True (fold mailbox_put js slot) = (Return None, None)"
proof -
  have "fold mailbox_put (js @ [j]) slot = Some j" by (simp add: mailbox_put_def)
  with mbox.get_takes [of "Some j" j] mbox.handed_over_once [of "Some j" j]
    mbox.get_stop mbox.get_stop_drains
  show ?thesis by (auto simp: case_prod_unfold prod_eq_iff)
qed

subsection \<open>Input handling\<close>



text \<open>C19. Coordinator, invariant: in every reachable state each tracked player is one we follow, has its
  own sequence number not newer than the counter, and has a cover state exactly when it has an art source,
  keyed on that source; nothing else has one.\<close>

theorem players_and_covers_agree:
  assumes "coord_reach H dir_for allowed c"
  shows "distinct (map fst (c_players c)) \<and> distinct (map fst (c_covers c)) \<and>
    (\<forall>n p. map_of (c_players c) n = Some p \<longrightarrow> ps_seq p \<le> c_seq c \<and> allowed_name c n) \<and>
    (\<forall>n n' p p'. map_of (c_players c) n = Some p \<longrightarrow> map_of (c_players c) n' = Some p' \<longrightarrow>
       ps_seq p = ps_seq p' \<longrightarrow> n = n') \<and>
    (\<forall>n. map_option cs_identity (map_of (c_covers c) n) =
       Option.bind (map_of (c_players c) n) (\<lambda>p. art_identity c n (ps_art_url p)))"
  using coord_wf_reach [OF assms] by (simp add: coord_wf_def cover_keys_def cover_idents_def)

definition line1 :: string where
  "line1 = ''spotify'' @ [CHR 0x09] @ ''Playing'' @ [CHR 0x09] @ ''u''"

definition url_desired :: desired where
  "url_desired = \<lparr>d_target = Some \<lparr>ct_art_url = ''u'', ct_covers_dir = None\<rparr>, d_mode = Dark\<rparr>"

definition fake_start :: "fake_host coordinator" where
  "fake_start = coordinator_new fake_default (\<lambda>_. None) Dark ''spotify''"

definition fake_playing :: "fake_host coordinator" where
  "fake_playing = fake_start
     \<lparr>c_players := [(''spotify'', \<lparr>ps_status = Playing, ps_art_url = ''u'', ps_seq = 1\<rparr>)],
      c_covers := [(''spotify'', \<lparr>cs_identity = Url ''u'', cs_status = Pending\<rparr>)],
      c_seq := 1, c_generation := 1, c_last_desired := Some url_desired,
      c_last_submitted := Some url_desired, c_submitted_player := Some ''spotify'',
      c_host := fake_default\<lparr>fh_submitted := [(1, url_desired)]\<rparr>\<rparr>"

lemma fake_start_allowed: "parse_allowed ''spotify'' = [''spotify'']"
  by (simp add: parse_allowed_def trim_def is_space_def)

lemma line1_fields: "line_fields line1 = [''spotify'', ''Playing'', ''u'']"
  by (simp add: line_fields_def line1_def trim_end_matches_def)

lemma fake_line1: "on_line fake_ops line1 fake_start = fake_playing"
proof -
  have "on_line fake_ops line1 fake_start = accept_line fake_ops ''spotify'' Playing ''u'' fake_start"
    using line1_fields
    by (simp add: on_line_def line_fields_def Let_def fake_start_def coordinator_new_def
        allowed_name_def fake_start_allowed base_matches_def status_from_str_def)
  also have "\<dots> = fake_playing"
    by (simp add: accept_line_def Let_def fake_start_def coordinator_new_def maintain_cover_def art_identity_def
        decide_and_submit_def coord_decide_def decide_def rank_key_def eligible_player_def maybe_submit_def
        cancel_retry_def fake_playing_def url_desired_def fake_ops_def fake_default_def fake_start_allowed)
  finally show ?thesis .
qed

lemma fake_playing_reach: "coord_reach fake_ops (\<lambda>_. None) ''spotify'' fake_playing"
proof -
  have "coord_reach fake_ops (\<lambda>_. None) ''spotify'' fake_start"
    unfolding fake_start_def by (rule coord_reach.init)
  from coord_reach.step [OF this coord_step.line [of fake_ops fake_start line1]]
  show ?thesis by (simp add: fake_line1)
qed

theorem players_and_covers_agree_witness:
  "allowed_name fake_playing ''spotify'' \<and> 1 \<le> c_seq fake_playing"
  using players_and_covers_agree [OF fake_playing_reach] by (auto simp: fake_playing_def)


subsection \<open>Convergence\<close>



text \<open>Coordinator and mailbox: handling an event leaves the job slot alone, or leaves in it the job of
  the coordinator's last decision under the current generation, which is newer than before unless it
  repeats the desire last submitted; generations never decrease.\<close>

theorem dispatch_posts_last_decision:
  assumes "dispatch nx c = Inr c'"
  shows "c_generation c \<le> c_generation c' \<and>
    (rh_slot (c_host c') = rh_slot (c_host c) \<or>
     (\<exists>d. c_last_desired c' = Some d \<and>
        rh_slot (c_host c') = Some \<lparr>j_generation = c_generation c', j_desired = d\<rparr> \<and>
        (c_generation c < c_generation c' \<or>
         c_generation c' = c_generation c \<and> c_last_submitted c = Some d)))"
proof -
  have "coord_step runtime_ops c c' \<or> c' = c"
    using assms by (auto simp: dispatch_def split: arrival.splits event.splits intro: coord_step.intros)
  then have "c_generation c \<le> c_generation c'" using gen_step by auto
  moreover have "rt_jobs.posts c c'"
    using assms
    by (auto simp: dispatch_def rt_jobs.posts_line rt_jobs.posts_vanish rt_jobs.posts_scheme rt_jobs.posts_adopt
        rt_jobs.posts_refl rt_jobs.posts_def [of c "log_drop _ _ _ _"] split: arrival.splits event.splits)
  ultimately show ?thesis by (simp add: rt_jobs.posts_def)
qed

theorem dispatch_posts_last_decision_witness:
  "c_generation demo_coord \<le> c_generation (on_scheme runtime_ops 2 demo_coord)"
  using dispatch_posts_last_decision [of "NextEvent (Scheme 2)" demo_coord] by (simp add: dispatch_def)

text \<open>C20. Coordinator, shutdown: once begun, no sequence of further events or due timers reaches the
  mailbox or makes the coordinator accept work again.\<close>

theorem shutdown_is_quiet:
  "let c' = foldl (\<lambda>c e. case dispatch (NextEvent e) c of Inl _ \<Rightarrow> c | Inr c' \<Rightarrow> fire_due_timer c')
              (begin_shutdown runtime_ops c) evs
   in c_stopping c' \<and> rh_slot (c_host c') = rh_slot (c_host c)"
proof -
  let ?f = "\<lambda>c e. case dispatch (NextEvent e) c of Inl _ \<Rightarrow> c | Inr c' \<Rightarrow> fire_due_timer c'"
  have q: "c_stopping (fire_due_timer c) \<and> rh_slot (c_host (fire_due_timer c)) = rh_slot (c_host c)"
    if "c_stopping c" for c
    using that rt_jobs.quiet_fire [of "c\<lparr>c_host := _\<rparr>"]
    by (auto simp: fire_due_timer_def split: option.split)
  have d: "c_stopping c' \<and> rh_slot (c_host c') = rh_slot (c_host c)"
    if "c_stopping c" and "dispatch (NextEvent e) c = Inr c'" for c c' e
    using that by (auto simp: dispatch_def rt_jobs.quiet split: event.splits)
  have "c_stopping (?f c e) \<and> rh_slot (c_host (?f c e)) = rh_slot (c_host c)" if "c_stopping c" for c e
    using that d q by (auto split: sum.split)
  then have "c_stopping (foldl ?f c evs) \<and> rh_slot (c_host (foldl ?f c evs)) = rh_slot (c_host c)"
    if "c_stopping c" for c
    using that by (induction evs arbitrary: c) auto
  from this [of "begin_shutdown runtime_ops c"] show ?thesis
    by (simp add: Let_def rt_jobs.slot_shutdown begin_shutdown_def)
qed


subsection \<open>Retries\<close>

lemma backoff_capped:
  "min (saturating_mul RETRY_BASE_MS (case checked_shl_one k of None \<Rightarrow> U64_MAX | Some f \<Rightarrow> f)) RETRY_CAP_MS =
     min (1000 * 2 ^ k) 30000"
proof (cases "k < 64")
  case True
  then show ?thesis
    by (simp add: checked_shl_one_def saturating_mul_def RETRY_BASE_MS_def RETRY_CAP_MS_def U64_MAX_def min_def)
next
  case False
  then have "(2::nat) ^ 64 \<le> 2 ^ k" by (intro power_increasing) simp_all
  moreover have "(30000::nat) \<le> 2 ^ 64" by simp
  ultimately have "(30000::nat) \<le> 1000 * 2 ^ k" by linarith
  with False show ?thesis
    by (simp add: checked_shl_one_def saturating_mul_def RETRY_BASE_MS_def RETRY_CAP_MS_def U64_MAX_def)
qed

lemma backoff_eq:
  "backoff_delay_ms n j = real_as_u64 (real (min (1000 * 2 ^ (n - 1)) 30000) * j)"
  by (simp only: backoff_delay_ms_def Let_def backoff_capped)

text \<open>Coordinator, backoff: the delay doubles from one second and saturates at thirty, for every
  attempt number (the shift and the product never overflow); any jitter of the band moves it by at most
  fifteen percent, and no jitter leaves it exact.\<close>

theorem backoff_bounds:
  assumes "85 / 100 \<le> j" and "j < 115 / 100"
  shows "min (1000 * 2 ^ (n - 1)) 30000 * 85 div 100 \<le> backoff_delay_ms n j \<and>
    backoff_delay_ms n j \<le> min (1000 * 2 ^ (n - 1)) 30000 * 115 div 100 \<and>
    backoff_delay_ms n 1 = min (1000 * 2 ^ (n - 1)) 30000"
proof -
  obtain b where b: "min (1000 * 2 ^ (n - 1)) 30000 = (b :: nat)" and le: "b \<le> 30000"
    by (metis min.cobounded2)
  have u: "nat \<lfloor>real b * t\<rfloor> \<le> U64_MAX" if "t \<le> 2" "0 \<le> t" for t
  proof -
    have "real b * t \<le> 30000 * 2" using that le by (intro mult_mono) simp_all
    then have "nat \<lfloor>real b * t\<rfloor> \<le> 60000" by linarith
    also have "60000 \<le> U64_MAX" by (simp add: U64_MAX_def)
    finally show ?thesis .
  qed
  have lo: "real (b * 85 div 100) \<le> real b * j"
  proof -
    have "real (b * 85 div 100) \<le> real (b * 85) / real (100::nat)" by (rule of_nat_div_le_of_nat)
    also have "\<dots> \<le> real b * j" using assms(1) mult_left_mono [of "85 / 100" j "real b"] by simp
    finally show ?thesis .
  qed
  have hi: "\<lfloor>real b * j\<rfloor> \<le> int (b * 115 div 100)"
  proof -
    have "real b * j \<le> real b * (115 / 100)" using assms(2) by (intro mult_left_mono) simp_all
    then have "\<lfloor>real b * j\<rfloor> \<le> \<lfloor>real (b * 115) / real 100\<rfloor>" by (intro floor_mono) simp
    also have "\<dots> = int (b * 115) div int 100" 
      using floor_divide_of_nat_eq [of "b * 115" 100, where ?'a = real] by (simp only: zdiv_int)
    finally show ?thesis by (simp add: zdiv_int)
  qed
  have "b * 85 div 100 \<le> nat \<lfloor>real b * j\<rfloor>" using lo by linarith
  moreover have "nat \<lfloor>real b * j\<rfloor> \<le> b * 115 div 100" using hi by linarith
  moreover have "backoff_delay_ms n j = nat \<lfloor>real b * j\<rfloor>" "backoff_delay_ms n 1 = b"
    using u [of j] u [of 1] assms by (simp_all only: backoff_eq b real_as_u64_def) simp_all
  ultimately show ?thesis by (simp only: b)
qed

theorem backoff_bounds_witness: "backoff_delay_ms 3 1 = 4000 \<and> backoff_delay_ms 70 1 = 30000"
  using backoff_bounds [of 1 3] backoff_bounds [of 1 70] by simp

text \<open>Coordinator, retry firing: in every reachable running state a pending retry that fires
  resubmits exactly its own desire under the next generation; the check that the last decision still
  agrees never turns it away.\<close>

theorem pending_retry_resubmits:
  assumes "coord_reach H dir_for allowed c" and "\<not> c_stopping c" and "c_retry_desire c = Some d"
  shows "c_last_desired c = Some d \<and>
    fire_retry H c =
      c\<lparr>c_retry_timer := None, c_generation := c_generation c + 1,
        c_submitted_player := c_retry_player c,
        c_host := h_submit H (c_generation c + 1) d (c_host c)\<rparr>"
  using fire_retry_wf [OF retry_wf_reach [OF assms(1)] assms(2,3)] retry_wf_reach [OF assms(1)] assms(3)
  by (auto simp: retry_wf_def)

definition fake_failed :: "fake_host coordinator" where
  "fake_failed = adopt fake_ops (failed fake_playing) fake_playing"

lemma fake_failed_reach: "coord_reach fake_ops (\<lambda>_. None) ''spotify'' fake_failed"
  unfolding fake_failed_def by (rule coord_reach.step [OF fake_playing_reach coord_step.result])

lemma fake_trying: "trying fake_playing url_desired ''spotify''" "attempts fake_playing = 0"
  by (simp_all add: trying_def attempts_def fake_playing_def fake_start_def coordinator_new_def coord_decide_def
      decide_def rank_key_def eligible_player_def url_desired_def)

lemma fake_failed_retry: "c_retry_desire fake_failed = Some url_desired" "\<not> c_stopping fake_failed"
  using fail_below_cap [OF fake_trying(1), of fake_ops] fake_trying(2)
  by (simp_all add: fake_failed_def RETRY_MAX_ATTEMPTS_def trying_def)

theorem pending_retry_resubmits_witness:
  "last (fh_submitted (c_host (fire_retry fake_ops fake_failed))) =
     (c_generation fake_failed + 1, url_desired)"
  using pending_retry_resubmits [OF fake_failed_reach fake_failed_retry(2,1)] by (simp add: fake_ops_def)



end
