(* ===== verification/Coordinator_Limits.thy ===== *)
theory Coordinator_Limits
  imports Coordinator_Host
begin

text \<open>
  A limit of the retry chain, on the recording host: a player followed through its covers directory is resubmitted by
  every line, so its failures can outrun the armed timer; the failure that exhausts the chain leaves that timer armed.
\<close>

definition dir_start :: "fake_host coordinator" where
  "dir_start = coordinator_new fake_default (\<lambda>_. Some [''covers'']) Dark ''spotify''"

definition dir_line :: "fake_host coordinator \<Rightarrow> fake_host coordinator" where
  "dir_line = accept_line fake_ops ''spotify'' Playing []"

definition dir_fail :: "fake_host coordinator \<Rightarrow> fake_host coordinator" where
  "dir_fail = adopt fake_ops \<lparr>jr_generation = 1, jr_outcome = FailedRetryable, jr_cover_id = None\<rparr>"

definition dir_want :: desired where
  "dir_want = \<lparr>d_target = Some \<lparr>ct_art_url = [], ct_covers_dir = Some [''covers'']\<rparr>, d_mode = Dark\<rparr>"

text \<open>The state after \<open>n\<close> failures, with the job of the last line outstanding.\<close>

definition dir_state :: "nat \<Rightarrow> nat \<Rightarrow> cover_status \<Rightarrow> fake_host coordinator \<Rightarrow> bool" where
  "dir_state sq n st c \<longleftrightarrow>
     c_players c = [(''spotify'', \<lparr>ps_status = Playing, ps_art_url = [], ps_seq = sq\<rparr>)] \<and>
     c_covers c = [(''spotify'', \<lparr>cs_identity = Dir [''covers''], cs_status = st\<rparr>)] \<and>
     c_covers_dir_for c = (\<lambda>_. Some [''covers'']) \<and> c_seq c = sq \<and> c_generation c = 1 \<and> c_mode c = Dark \<and> \<not> c_stopping c \<and>
     c_last_desired c = Some dir_want \<and> c_last_submitted c = Some dir_want \<and> c_submitted_player c = Some ''spotify'' \<and>
     c_retry_attempt c = n \<and> (c_retry_desire c = (if n = 0 then None else Some dir_want)) \<and>
     (c_retry_timer c = None \<longleftrightarrow> n = 0)"

lemma dir_state_start: "dir_state 1 0 Pending (dir_line dir_start)"
  by (simp add: dir_state_def dir_line_def dir_start_def accept_line_def coordinator_new_def maintain_cover_def
      art_identity_def decide_and_submit_def coord_decide_def decide_def eligible_player_def maybe_submit_def
      cancel_retry_def dir_want_def Let_def)

lemma dir_state_line: "dir_state sq n st c \<Longrightarrow> st \<in> {Pending, Retrying} \<Longrightarrow> dir_state (Suc sq) n st (dir_line c)"
  by (auto simp: dir_state_def dir_line_def accept_line_def maintain_cover_def
      art_identity_def decide_and_submit_def coord_decide_def decide_def eligible_player_def maybe_submit_def
      dir_want_def Let_def stable_identity_def)

lemma dir_arm:
  assumes "dir_state sq n st c"
  shows "\<exists>c'. arm_retry fake_ops c = (n \<ge> 3, c') \<and> dir_state sq (Suc n) st c'"
proof -
  define c1 where "c1 = (if n = 0 then c\<lparr>c_retry_desire := Some dir_want, c_retry_attempt := 0\<rparr> else c)\<lparr>c_retry_attempt := Suc n\<rparr>"
  have arm: "arm_retry fake_ops c =
     (if Suc n > RETRY_MAX_ATTEMPTS then
        (True, if Suc n = RETRY_MAX_ATTEMPTS + 1
               then c1\<lparr>c_host := h_warn fake_ops (GivingUpOn (c_retry_desire c1)) (c_host c1)\<rparr> else c1)
      else
        let c3 = (case c_retry_timer c1 of None \<Rightarrow> c1
                  | Some timer \<Rightarrow> c1\<lparr>c_retry_timer := None, c_host := h_cancel_retry fake_ops timer (c_host c1)\<rparr>)
        in case h_jitter fake_ops (c_host c3) of (jitter, h1) \<Rightarrow>
           (case h_schedule_retry fake_ops (backoff_delay_ms (Suc n) jitter) h1 of
              (timer, h2) \<Rightarrow>
                (False, c3\<lparr>c_host := h2, c_retry_timer := Some timer, c_retry_player := c_submitted_player c3\<rparr>)))"
    using assms unfolding arm_retry_def dir_state_def c1_def by (cases "c_retry_timer c") (auto simp: Let_def)
  have c1: "dir_state sq (Suc n) st (c1\<lparr>c_retry_timer := Some t, c_host := h, c_retry_player := p\<rparr>)" for t h p
    using assms by (auto simp: dir_state_def c1_def)
  show ?thesis
  proof (cases "n \<ge> 3")
    case True
    then have "dir_state sq (Suc n) st c1" "dir_state sq (Suc n) st (c1\<lparr>c_host := h\<rparr>)" for h
      using assms by (auto simp: dir_state_def c1_def)
    then show ?thesis unfolding arm using True by (auto simp: RETRY_MAX_ATTEMPTS_def)
  next
    case False
    then show ?thesis
      unfolding arm using assms
      by (cases "c_retry_timer c1") (auto simp: RETRY_MAX_ATTEMPTS_def fake_ops_def Let_def dir_state_def c1_def)
  qed
qed

lemma dir_decide:
  assumes "dir_state sq n st c"
  shows "decide_and_submit fake_ops False c = c"
proof -
  have "coord_decide c = (if eligible_status st then Apply dir_want ''spotify'' else Hold)"
    using assms by (simp add: dir_state_def coord_decide_def decide_def eligible_player_def dir_want_def Let_def)
  moreover have "c\<lparr>c_last_desired := Some dir_want\<rparr> = c" using assms by (simp add: dir_state_def)
  ultimately show ?thesis
    using assms by (simp add: decide_and_submit_def maybe_submit_def dir_state_def Let_def)
qed

lemma dir_state_fail:
  assumes "dir_state sq n st c"
  shows "dir_state sq (Suc n) (if n \<ge> 3 then Exhausted else Retrying) (dir_fail c)"
proof -
  obtain c' where a: "arm_retry fake_ops c = (n \<ge> 3, c')" and c': "dir_state sq (Suc n) st c'"
    using dir_arm[OF assms] by blast
  let ?st = "if n \<ge> 3 then Exhausted else Retrying"
  have "dir_state sq (Suc n) ?st (set_cover_status ?st c')"
    using c' by (simp add: dir_state_def set_cover_status_def with_status_def)
  moreover have "dir_fail c = decide_and_submit fake_ops False (set_cover_status ?st c')"
    using assms a by (simp add: dir_fail_def adopt_def dir_state_def Let_def)
  ultimately show ?thesis using dir_decide by simp
qed

lemma dir_state_fire:
  assumes "dir_state sq (Suc n) st c"
  shows "fh_submitted (c_host (fire_retry fake_ops c)) = fh_submitted (c_host c) @ [(2, dir_want)]"
  using assms by (simp add: fire_retry_def dir_state_def fake_ops_def Let_def)

text \<open>Coordinator, retry cap (finding): four lines and four failures within the first backoff exhaust the chain, but the
  timer of the third failure is still armed and its firing submits the given-up desire once more.\<close>

theorem exhausted_timer_fires:
  "let c = dir_fail (dir_line (dir_fail (dir_line (dir_fail (dir_line (dir_fail (dir_line dir_start)))))))
   in map_option cs_status (map_of (c_covers c) ''spotify'') = Some Exhausted \<and>
      c_retry_attempt c = RETRY_MAX_ATTEMPTS + 1 \<and> c_retry_timer c \<noteq> None \<and>
      fh_submitted (c_host (fire_retry fake_ops c)) = fh_submitted (c_host c) @ [(2, dir_want)]"
proof -
  have "dir_state 1 1 Retrying (dir_fail (dir_line dir_start))"
    using dir_state_fail[OF dir_state_start] by simp
  from dir_state_fail[OF dir_state_line[OF this]]
  have "dir_state 2 2 Retrying (dir_fail (dir_line (dir_fail (dir_line dir_start))))"
    by (simp add: numeral_2_eq_2)
  from dir_state_fail[OF dir_state_line[OF this]]
  have "dir_state 3 3 Retrying (dir_fail (dir_line (dir_fail (dir_line (dir_fail (dir_line dir_start))))))"
    by (simp add: numeral_3_eq_3 numeral_2_eq_2)
  from dir_state_fail[OF dir_state_line[OF this]]
  have "dir_state 4 (Suc 3) Exhausted (dir_fail (dir_line (dir_fail (dir_line (dir_fail (dir_line (dir_fail (dir_line dir_start))))))))"
    by (simp add: eval_nat_numeral)
  from this dir_state_fire[OF this] show ?thesis
    by (simp add: dir_state_def Let_def RETRY_MAX_ATTEMPTS_def)
qed

end
