(* ===== verification/Policy.thy ===== *)
theory Policy
  imports Prelude
begin

unbundle bit_operations_syntax

text \<open>
  The destination policy for remote artwork (\<open>src/cover/policy.rs\<close>), with the error type of
  \<open>src/cover/mod.rs\<close> it returns. Addresses are words of their width and the prefix tests are
  the code's masks. Code outside the repository: the URL parser (crate \<open>url\<close>), whose accessors
  are the fields of the record \<open>url\<close>, and the system resolver, a function on a world
  \<open>'w\<close> because two lookups of one name may answer differently. The text of an error message is
  kept as data (\<open>refusal\<close>).
\<close>

subsection \<open>Addresses\<close>

datatype ip_addr = V4 "32 word" | V6 "128 word"

type_synonym socket_addr = "ip_addr \<times> nat"

text \<open>\<open>u32::from(Ipv4Addr)\<close> and \<open>u128::from(Ipv6Addr)\<close>: big-endian concatenation.\<close>

definition u32_from_octets :: "8 word list \<Rightarrow> 32 word" where
  "u32_from_octets bs = foldl (\<lambda>acc b. push_bit 8 acc OR ucast b) 0 bs"

definition u128_from_segments :: "16 word list \<Rightarrow> 128 word" where
  "u128_from_segments bs = foldl (\<lambda>acc b. push_bit 16 acc OR ucast b) 0 bs"

definition v4_in :: "32 word \<Rightarrow> 8 word list \<Rightarrow> nat \<Rightarrow> bool" where
  "v4_in ip net plen =
     (let mask = (if plen = 0 then 0 else push_bit (32 - plen) (- 1))
      in ip AND mask = u32_from_octets net AND mask)"

definition v6_in :: "128 word \<Rightarrow> 16 word list \<Rightarrow> nat \<Rightarrow> bool" where
  "v6_in ip net plen =
     (let mask = (if plen = 0 then 0 else push_bit (128 - plen) (- 1))
      in ip AND mask = u128_from_segments net AND mask)"

definition NON_GLOBAL_V4 :: "(8 word list \<times> nat) list" where
  "NON_GLOBAL_V4 =
     [([0, 0, 0, 0], 8),
      ([10, 0, 0, 0], 8),
      ([100, 64, 0, 0], 10),
      ([127, 0, 0, 0], 8),
      ([169, 254, 0, 0], 16),
      ([172, 16, 0, 0], 12),
      ([192, 0, 0, 0], 24),
      ([192, 0, 2, 0], 24),
      ([192, 88, 99, 0], 24),
      ([192, 168, 0, 0], 16),
      ([198, 18, 0, 0], 15),
      ([198, 51, 100, 0], 24),
      ([203, 0, 113, 0], 24),
      ([224, 0, 0, 0], 4),
      ([240, 0, 0, 0], 4)]"

definition NON_GLOBAL_V6 :: "(16 word list \<times> nat) list" where
  "NON_GLOBAL_V6 =
     [([0x2001, 0, 0, 0, 0, 0, 0, 0], 23),
      ([0x2001, 0xdb8, 0, 0, 0, 0, 0, 0], 32),
      ([0x2002, 0, 0, 0, 0, 0, 0, 0], 16),
      ([0x3fff, 0, 0, 0, 0, 0, 0, 0], 20)]"

fun is_global :: "ip_addr \<Rightarrow> bool" where
  "is_global (V4 v4) = (\<not> list_ex (\<lambda>(net, p). v4_in v4 net p) NON_GLOBAL_V4)"
| "is_global (V6 v6) =
     (v6_in v6 [0x2000, 0, 0, 0, 0, 0, 0, 0] 3 \<and>
      \<not> list_ex (\<lambda>(net, p). v6_in v6 net p) NON_GLOBAL_V6)"

subsection \<open>The allowlist\<close>

definition DEFAULT_ART_DOMAINS :: "string list" where
  "DEFAULT_ART_DOMAINS = [''scdn.co'', ''spotifycdn.com'']"

definition add_domain :: "string list \<Rightarrow> string \<Rightarrow> string list" where
  "add_domain domains piece =
     (let d = to_lowercase (trim piece)
      in if d \<noteq> [] \<and> d \<notin> set domains then domains @ [d] else domains)"

definition art_domains_from :: "string option \<Rightarrow> string list" where
  "art_domains_from extra =
     foldl add_domain DEFAULT_ART_DOMAINS
       (split_on (CHR '','') (case extra of None \<Rightarrow> [] | Some e \<Rightarrow> e))"

definition host_allowed :: "string \<Rightarrow> string list \<Rightarrow> bool" where
  "host_allowed host domains =
     (let h = to_lowercase host
      in list_ex (\<lambda>d. h = d \<or>
           (case strip_suffix d h of None \<Rightarrow> False | Some rest \<Rightarrow> ends_with rest ''.'')) domains)"

subsection \<open>URLs and errors\<close>

datatype url_host = HostDomain string | HostV4 "32 word" | HostV6 "128 word"

record url =
  url_scheme :: string
  url_username :: string
  url_password :: "string option"
  url_port :: "nat option"
  url_host :: "url_host option"
  url_host_str :: "string option"
  url_to_file_path :: "path option"
  url_as_str :: string

datatype refusal =
  NonHttps string
| UserinfoNotPermitted
| PortNotPermitted nat
| HostNotAllowlisted "url_host option"
| NoAddresses string
| NonGlobalAddress ip_addr string
| BadUrl
| BadRedirect

datatype io_kind = TimedOut | Interrupted | AlreadyExists | OtherKind

record io_error =
  io_kind :: io_kind
  io_text :: string

datatype cover_error =
  Refused refusal
| TooLarge
| Timeout
| Aborted
| Io string

definition cover_error_from_io :: "io_error \<Rightarrow> cover_error" where
  "cover_error_from_io e = (if io_kind e = TimedOut then Timeout else Io (io_text e))"

fun error_name :: "cover_error \<Rightarrow> string" where
  "error_name (Refused _) = ''CoverRejected''"
| "error_name TooLarge = ''CoverTooLarge''"
| "error_name Timeout = ''CoverTimeout''"
| "error_name Aborted = ''CoverAborted''"
| "error_name (Io _) = ''OSError''"

subsection \<open>Resolving and checking a destination\<close>

type_synonym 'w dns = "string \<Rightarrow> 'w \<Rightarrow> (io_error + ip_addr list) \<times> 'w"

text \<open>
  The system resolver runs on a helper thread: it may fail to start, answer after some time, or
  never. \<open>system_resolve\<close> is what the caller gets.
\<close>

datatype lookup = SpawnFailed io_error | Answers duration "io_error + ip_addr list" | NeverAnswers

definition system_resolve :: "duration \<Rightarrow> lookup \<Rightarrow> io_error + ip_addr list" where
  "system_resolve timeout l =
     (case l of
        SpawnFailed e \<Rightarrow> Inl e
      | Answers after r \<Rightarrow>
          (if after \<le> timeout then r
           else Inl \<lparr>io_kind = TimedOut, io_text = ''dns lookup timed out''\<rparr>)
      | NeverAnswers \<Rightarrow> Inl \<lparr>io_kind = TimedOut, io_text = ''dns lookup timed out''\<rparr>)"

definition HTTPS_PORT :: nat where "HTTPS_PORT = 443"

definition check_destination ::
  "url \<Rightarrow> string list \<Rightarrow> 'w dns \<Rightarrow> 'w \<Rightarrow> (cover_error + socket_addr list) \<times> 'w" where
  "check_destination u domains dns w =
     (if url_scheme u \<noteq> ''https'' then (Inl (Refused (NonHttps (url_scheme u))), w)
      else if url_username u \<noteq> [] \<or> url_password u \<noteq> None
      then (Inl (Refused UserinfoNotPermitted), w)
      else case url_port u of
        Some port \<Rightarrow> (Inl (Refused (PortNotPermitted port)), w)
      | None \<Rightarrow>
          (case (case url_host u of
                   Some (HostDomain d) \<Rightarrow> if host_allowed d domains then Some d else None
                 | _ \<Rightarrow> None) of
             None \<Rightarrow> (Inl (Refused (HostNotAllowlisted (url_host u))), w)
           | Some host \<Rightarrow>
               (case dns host w of
                  (Inl e, w') \<Rightarrow> (Inl (cover_error_from_io e), w')
                | (Inr addrs, w') \<Rightarrow>
                    (if addrs = [] then (Inl (Refused (NoAddresses host)), w')
                     else case find (\<lambda>a. \<not> is_global a) addrs of
                       Some bad \<Rightarrow> (Inl (Refused (NonGlobalAddress bad host)), w')
                     | None \<Rightarrow> (Inr (map (\<lambda>ip. (ip, HTTPS_PORT)) addrs), w')))))"

subsection \<open>The prefix tests are interval tests\<close>

lemma mask_eq_iff:
  fixes a b :: "'a::len word"
  assumes "n \<le> LENGTH('a)"
  shows "a AND push_bit n (- 1) = b AND push_bit n (- 1) \<longleftrightarrow> drop_bit n a = drop_bit n b"
proof -
  have "a AND push_bit n (- 1) = b AND push_bit n (- 1) \<longleftrightarrow>
      (\<forall>i. n \<le> i \<longrightarrow> bit a i = bit b i)"
    by (auto simp: bit_eq_iff bit_and_iff bit_not_iff bit_mask_iff dest: bit_imp_le_length)
  also have "\<dots> \<longleftrightarrow> (\<forall>i. bit (drop_bit n a) i = bit (drop_bit n b) i)"
    by (metis bit_drop_bit_eq comp_apply le_add1 le_iff_add)
  also have "\<dots> \<longleftrightarrow> drop_bit n a = drop_bit n b"
    by (metis bit_word_eqI)
  finally show ?thesis .
qed

lemma drop_bit_eq_unat:
  fixes a b :: "'a::len word"
  shows "drop_bit n a = drop_bit n b \<longleftrightarrow> unat a div 2 ^ n = unat b div 2 ^ n"
  by (simp only: word_unat_eq_iff unat_drop_bit_eq) (simp add: drop_bit_eq_div)

lemma div_eq_interval:
  fixes x m k :: nat
  assumes "0 < m" and "m dvd k"
  shows "x div m = k div m \<longleftrightarrow> k \<le> x \<and> x < k + m"
proof -
  obtain q where k: "k = m * q" using assms(2) by blast
  have "x div m = q \<longleftrightarrow> m * q \<le> x \<and> x < m * q + m"
    using assms(1) by (auto simp: div_nat_eqI algebra_simps) (metis dividend_less_times_div mult.commute add.commute)
  then show ?thesis using assms(1) by (simp add: k)
qed

lemma v4_in_interval:
  assumes "0 < p" "p \<le> 32" and "2 ^ (32 - p) dvd unat (u32_from_octets net)"
  shows "v4_in ip net p \<longleftrightarrow>
    unat (u32_from_octets net) \<le> unat ip \<and> unat ip < unat (u32_from_octets net) + 2 ^ (32 - p)"
proof -
  have "ip AND push_bit (32 - p) (- 1) = u32_from_octets net AND push_bit (32 - p) (- 1) \<longleftrightarrow>
      drop_bit (32 - p) ip = drop_bit (32 - p) (u32_from_octets net)"
    by (rule mask_eq_iff) simp
  then show ?thesis
    using assms
    by (simp add: v4_in_def Let_def drop_bit_eq_unat div_eq_interval del: push_bit_minus_one_eq_not_mask)
qed

lemma v6_in_interval:
  assumes "0 < p" "p \<le> 128" and "2 ^ (128 - p) dvd unat (u128_from_segments net)"
  shows "v6_in ip net p \<longleftrightarrow>
    unat (u128_from_segments net) \<le> unat ip \<and> unat ip < unat (u128_from_segments net) + 2 ^ (128 - p)"
proof -
  have "ip AND push_bit (128 - p) (- 1) = u128_from_segments net AND push_bit (128 - p) (- 1) \<longleftrightarrow>
      drop_bit (128 - p) ip = drop_bit (128 - p) (u128_from_segments net)"
    by (rule mask_eq_iff) simp
  then show ?thesis
    using assms
    by (simp add: v6_in_def Let_def drop_bit_eq_unat div_eq_interval del: push_bit_minus_one_eq_not_mask)
qed

text \<open>The special-purpose IPv4 registry as half-open intervals of 32-bit numbers.\<close>

definition V4_SPECIAL :: "(nat \<times> nat) list" where
  "V4_SPECIAL =
     [(0, 0x1000000), (0xa000000, 0xb000000), (0x64400000, 0x64800000),
      (0x7f000000, 0x80000000), (0xa9fe0000, 0xa9ff0000), (0xac100000, 0xac200000),
      (0xc0000000, 0xc0000100), (0xc0000200, 0xc0000300), (0xc0586300, 0xc0586400),
      (0xc0a80000, 0xc0a90000), (0xc6120000, 0xc6140000), (0xc6336400, 0xc6336500),
      (0xcb007100, 0xcb007200), (0xe0000000, 0xf0000000), (0xf0000000, 0x100000000)]"

definition in_interval :: "nat \<Rightarrow> nat \<times> nat \<Rightarrow> bool" where
  "in_interval n r \<longleftrightarrow> fst r \<le> n \<and> n < snd r"

definition V6_SPECIAL :: "(nat \<times> nat) list" where
  "V6_SPECIAL =
     [(0x20010000 * 2 ^ 96, 0x20010200 * 2 ^ 96), (0x20010db8 * 2 ^ 96, 0x20010db9 * 2 ^ 96),
      (0x20020000 * 2 ^ 96, 0x20030000 * 2 ^ 96), (0x3fff0000 * 2 ^ 96, 0x3fff1000 * 2 ^ 96)]"

definition interval4 :: "8 word list \<times> nat \<Rightarrow> nat \<times> nat" where
  "interval4 r = (unat (u32_from_octets (fst r)), unat (u32_from_octets (fst r)) + 2 ^ (32 - snd r))"

definition interval6 :: "16 word list \<times> nat \<Rightarrow> nat \<times> nat" where
  "interval6 r = (unat (u128_from_segments (fst r)), unat (u128_from_segments (fst r)) + 2 ^ (128 - snd r))"

lemma intervals_v4: "map interval4 NON_GLOBAL_V4 = V4_SPECIAL"
  by (simp add: interval4_def NON_GLOBAL_V4_def V4_SPECIAL_def u32_from_octets_def)

lemma intervals_v6: "map interval6 NON_GLOBAL_V6 = V6_SPECIAL"
  by (simp add: interval6_def NON_GLOBAL_V6_def V6_SPECIAL_def u128_from_segments_def)

lemma interval_v6_global: "interval6 ([0x2000, 0, 0, 0, 0, 0, 0, 0], 3) = (2 ^ 125, 2 * 2 ^ 125)"
  by (simp add: interval6_def NON_GLOBAL_V6_def V6_SPECIAL_def u128_from_segments_def)

lemma aligned_v4:
  "list_all (\<lambda>(net, p). 0 < p \<and> p \<le> 32 \<and> 2 ^ (32 - p) dvd unat (u32_from_octets net)) NON_GLOBAL_V4"
  by (simp add: interval4_def NON_GLOBAL_V4_def V4_SPECIAL_def u32_from_octets_def)

lemma aligned_v6:
  "list_all (\<lambda>(net, p). 0 < p \<and> p \<le> 128 \<and> 2 ^ (128 - p) dvd unat (u128_from_segments net))
     (([0x2000, 0, 0, 0, 0, 0, 0, 0], 3) # NON_GLOBAL_V6)"
  by (simp add: interval6_def NON_GLOBAL_V6_def V6_SPECIAL_def u128_from_segments_def)

lemma special_v4:
  "list_ex (\<lambda>(net, p). v4_in ip net p) NON_GLOBAL_V4 \<longleftrightarrow> list_ex (in_interval (unat ip)) V4_SPECIAL"
proof -
  have "v4_in ip (fst r) (snd r) \<longleftrightarrow> in_interval (unat ip) (interval4 r)" if "r \<in> set NON_GLOBAL_V4" for r
    using aligned_v4 that v4_in_interval [of "snd r" "fst r" ip]
    by (auto simp: list_all_iff in_interval_def interval4_def)
  then show ?thesis
    by (auto simp: list_ex_iff case_prod_unfold simp flip: intervals_v4)
qed

lemma special_v6:
  assumes "r \<in> set (([0x2000, 0, 0, 0, 0, 0, 0, 0], 3) # NON_GLOBAL_V6)"
  shows "v6_in ip (fst r) (snd r) \<longleftrightarrow> in_interval (unat ip) (interval6 r)"
  using aligned_v6 assms v6_in_interval [of "snd r" "fst r" ip]
  by (auto simp only: list_all_iff in_interval_def interval6_def case_prod_unfold fst_conv snd_conv)

lemma special_v6_ex:
  "list_ex (\<lambda>(net, p). v6_in ip net p) NON_GLOBAL_V6 \<longleftrightarrow> list_ex (in_interval (unat ip)) V6_SPECIAL"
proof -
  have "v6_in ip (fst r) (snd r) \<longleftrightarrow> in_interval (unat ip) (interval6 r)" if "r \<in> set NON_GLOBAL_V6" for r
    by (rule special_v6) (simp add: that)
  then show ?thesis
    by (auto simp: list_ex_iff case_prod_unfold simp flip: intervals_v6)
qed

lemma is_global_v4: "is_global (V4 ip) \<longleftrightarrow> \<not> list_ex (in_interval (unat ip)) V4_SPECIAL"
  by (simp add: special_v4)

lemma is_global_v6:
  "is_global (V6 ip) \<longleftrightarrow>
     in_interval (unat ip) (2 ^ 125, 2 * 2 ^ 125) \<and> \<not> list_ex (in_interval (unat ip)) V6_SPECIAL"
  using special_v6 [of "([0x2000, 0, 0, 0, 0, 0, 0, 0], 3)" ip]
  by (simp add: special_v6_ex interval_v6_global)

text \<open>C28. The address filter is exactly interval membership: an IPv4 address is global iff it lies
  in none of the fifteen special-purpose blocks, an IPv6 address iff it lies in 2000::/3 and in
  none of the four excluded blocks.\<close>

theorem is_global_intervals:
  "is_global (V4 ip4) = (\<not> list_ex (in_interval (unat ip4)) V4_SPECIAL) \<and>
   is_global (V6 ip6) =
     (in_interval (unat ip6) (2 ^ 125, 2 * 2 ^ 125) \<and> \<not> list_ex (in_interval (unat ip6)) V6_SPECIAL)"
  by (intro conjI is_global_v4 is_global_v6)

lemma suffix_test:
  "(case strip_suffix d h of None \<Rightarrow> False | Some rest \<Rightarrow> ends_with rest c) \<longleftrightarrow> (\<exists>sub. h = sub @ c @ d)"
proof (cases "strip_suffix d h")
  case None
  then have "h \<noteq> r @ d" for r using strip_suffix_Some [of d h r] by auto
  then show ?thesis using None by (auto simp flip: append_assoc)
next
  case (Some r)
  then have "h = r @ d" using strip_suffix_Some by blast
  then show ?thesis using Some by (auto simp: ends_with_iff)
qed

lemma host_allowed_iff:
  "host_allowed host domains \<longleftrightarrow>
     (\<exists>d \<in> set domains. to_lowercase host = d \<or> (\<exists>sub. to_lowercase host = sub @ ''.'' @ d))"
  unfolding host_allowed_def Let_def list_ex_iff suffix_test ..

text \<open>
  What a fetch may ask the transport for: an https URL to an allowed domain, no userinfo, the
  default port, and only global addresses on port 443.
\<close>

definition permitted :: "string list \<Rightarrow> url \<Rightarrow> socket_addr list \<Rightarrow> bool" where
  "permitted domains u addrs \<longleftrightarrow>
     url_scheme u = ''https'' \<and> url_username u = [] \<and> url_password u = None \<and> url_port u = None \<and>
     (case url_host u of Some (HostDomain d) \<Rightarrow> host_allowed d domains | _ \<Rightarrow> False) \<and>
     addrs \<noteq> [] \<and> list_all (\<lambda>(ip, port). is_global ip \<and> port = HTTPS_PORT) addrs"

lemma check_permitted:
  "check_destination u domains dns w = (Inr addrs, w') \<Longrightarrow> permitted domains u addrs"
  by (auto simp: check_destination_def permitted_def find_None_iff list_all_iff
      split: if_splits option.splits url_host.splits sum.splits prod.splits)

text \<open>C27. Policy, soundness: a destination that passes is permitted, and the addresses handed to
  the transport are exactly the ones the resolver answered for the URL's host.\<close>

theorem check_destination_sound:
  assumes "check_destination u domains dns w = (Inr addrs, w')"
  shows "permitted domains u addrs \<and>
    (\<exists>host ips. url_host u = Some (HostDomain host) \<and> dns host w = (Inr ips, w') \<and> addrs = map (\<lambda>ip. (ip, 443)) ips)"
  using check_permitted [OF assms] assms
  by (auto simp: check_destination_def HTTPS_PORT_def
      split: if_splits option.splits url_host.splits sum.splits prod.splits)

definition art_url_example :: url where
  "art_url_example =
     \<lparr>url_scheme = ''https'', url_username = [], url_password = None, url_port = None,
      url_host = Some (HostDomain ''i.scdn.co''), url_host_str = Some ''i.scdn.co'',
      url_to_file_path = None, url_as_str = ''https://i.scdn.co/img/x''\<rparr>"

lemma example_permitted:
  "check_destination art_url_example DEFAULT_ART_DOMAINS (\<lambda>_ w. (Inr [V4 0x17C0E454], w)) w =
     (Inr [(V4 0x17C0E454, HTTPS_PORT)], w)"
proof -
  have "host_allowed ''i.scdn.co'' DEFAULT_ART_DOMAINS" by code_simp
  moreover have "is_global (V4 0x17C0E454)"
    by (simp add: special_v4 V4_SPECIAL_def in_interval_def)
  ultimately show ?thesis by (simp add: check_destination_def art_url_example_def)
qed

theorem check_destination_sound_witness:
  "permitted DEFAULT_ART_DOMAINS art_url_example [(V4 0x17C0E454, 443)]"
  using check_destination_sound [OF example_permitted [of "()"]] by (simp add: HTTPS_PORT_def)

text \<open>Policy, completeness of the address filter: one non-global address among the answers
  refuses the destination.\<close>

theorem check_destination_refuses:
  assumes "dns d w = (Inr ips, w')" and "url_host u = Some (HostDomain d)"
    and "bad \<in> set ips" and "\<not> is_global bad"
  shows "\<exists>why w''. check_destination u domains dns w = (Inl (Refused why), w'')"
proof -
  obtain b where b: "find (\<lambda>a. \<not> is_global a) ips = Some b"
    using assms(3,4) by (cases "find (\<lambda>a. \<not> is_global a) ips") (auto simp: find_None_iff)
  with assms show ?thesis
    by (auto simp: check_destination_def split: option.split)
qed

theorem check_destination_refuses_witness:
  "\<exists>why w''. check_destination art_url_example DEFAULT_ART_DOMAINS
     (\<lambda>_ w. (Inr [V4 0x17C0E454, V4 0x7F000001], w)) () = (Inl (Refused why), w'')"
  by (rule check_destination_refuses [where bad = "V4 0x7F000001" and
      ips = "[V4 0x17C0E454, V4 0x7F000001]" and d = "''i.scdn.co''"])
    (simp_all add: art_url_example_def special_v4 V4_SPECIAL_def in_interval_def)

end
