(* ===== verification/Fs.thy ===== *)
theory Fs
  imports Policy
begin

text \<open>
  The part of \<open>std::fs\<close> the cover code uses, as a deterministic state machine: a file system is
  a map from real paths to nodes (regular files, directories, symbolic links), a clock, the paths
  the process may not read, and a script of faults for the calls that change it
  (\<open>Some k\<close>: the call fails, a write after \<open>k\<close> bytes). Every call acts on the state in one step;
  other processes act between calls of the model, not inside one.
\<close>

datatype node = File "char list" int | Directory int | Link bool path

record fs =
  fs_nodes :: "(path \<times> node) list"
  fs_denied :: "path list"
  fs_faults :: "nat option list"
  fs_now :: int

definition SYMLINK_LIMIT :: nat where "SYMLINK_LIMIT = 40"

definition io_other :: "string \<Rightarrow> io_error" where
  "io_other text = \<lparr>io_kind = OtherKind, io_text = text\<rparr>"

subsection \<open>Paths to nodes\<close>

definition node_at :: "fs \<Rightarrow> path \<Rightarrow> node option" where
  "node_at s p = (if p = [] then Some (Directory 0) else map_of (fs_nodes s) p)"

text \<open>Directories and links, what the lookup of a directory walks over.\<close>

definition dirlink :: "fs \<Rightarrow> path \<Rightarrow> node option" where
  "dirlink s p = (case node_at s p of Some (File _ _) \<Rightarrow> None | n \<Rightarrow> n)"

function walk :: "nat \<Rightarrow> (path \<Rightarrow> node option) \<Rightarrow> path \<Rightarrow> string list \<Rightarrow> path option" where
  "walk n look cur [] = Some cur"
| "walk n look cur (c # cs) =
     (if c = ''.'' then walk n look cur cs
      else if c = ''..'' then walk n look (butlast cur) cs
      else case look (cur @ [c]) of
        Some (Directory _) \<Rightarrow> walk n look (cur @ [c]) cs
      | Some (Link ab t) \<Rightarrow>
          (if n = 0 then None else walk (n - 1) look (if ab then [] else cur) (t @ cs))
      | _ \<Rightarrow> None)"
  by pat_completeness auto
termination
  by (relation "measures [\<lambda>(n, _, _, cs). n, \<lambda>(n, _, _, cs). length cs]") auto

definition dir_of :: "fs \<Rightarrow> path \<Rightarrow> path option" where
  "dir_of s p = walk SYMLINK_LIMIT (dirlink s) [] p"

text \<open>The real path of a name: its directory is resolved, the last component is not.\<close>

definition key_of :: "fs \<Rightarrow> path \<Rightarrow> path option" where
  "key_of s p = (if p = [] then None else map_option (\<lambda>d. d @ [last p]) (dir_of s (butlast p)))"

fun follow_file :: "nat \<Rightarrow> fs \<Rightarrow> path \<Rightarrow> path option" where
  "follow_file n s p =
     (case key_of s p of
        None \<Rightarrow> None
      | Some k \<Rightarrow>
          (case node_at s k of
             Some (File _ _) \<Rightarrow> Some k
           | Some (Link ab t) \<Rightarrow>
               (if n = 0 then None
                else follow_file (n - 1) s (if ab then t else butlast k @ t))
           | _ \<Rightarrow> None))"

declare follow_file.simps [simp del]

definition canonicalize :: "fs \<Rightarrow> path \<Rightarrow> path option" where
  "canonicalize s p =
     (case dir_of s p of Some d \<Rightarrow> Some d | None \<Rightarrow> follow_file SYMLINK_LIMIT s p)"

subsection \<open>Reading\<close>

datatype file_type = RegularFile | DirType | SymlinkType

record metadata =
  md_type :: file_type
  md_len :: nat
  md_mtime :: int

fun node_meta :: "node \<Rightarrow> metadata" where
  "node_meta (File data t) = \<lparr>md_type = RegularFile, md_len = length data, md_mtime = t\<rparr>"
| "node_meta (Directory t) = \<lparr>md_type = DirType, md_len = 0, md_mtime = t\<rparr>"
| "node_meta (Link a t) = \<lparr>md_type = SymlinkType, md_len = 0, md_mtime = 0\<rparr>"

definition meta_at :: "fs \<Rightarrow> path \<Rightarrow> io_error + metadata" where
  "meta_at s k =
     (if k \<in> set (fs_denied s) then Inl (io_other ''permission denied'')
      else case node_at s k of None \<Rightarrow> Inl (io_other ''not found'') | Some n \<Rightarrow> Inr (node_meta n))"

definition fs_symlink_metadata :: "fs \<Rightarrow> path \<Rightarrow> io_error + metadata" where
  "fs_symlink_metadata s p =
     (case key_of s p of None \<Rightarrow> Inl (io_other ''not found'') | Some k \<Rightarrow> meta_at s k)"

definition fs_metadata :: "fs \<Rightarrow> path \<Rightarrow> io_error + metadata" where
  "fs_metadata s p =
     (case canonicalize s p of None \<Rightarrow> Inl (io_other ''not found'') | Some k \<Rightarrow> meta_at s k)"

text \<open>\<open>read_dir\<close>: the names in a directory, in the order of the map.\<close>

definition fs_read_dir :: "fs \<Rightarrow> path \<Rightarrow> io_error + string list" where
  "fs_read_dir s p =
     (case dir_of s p of
        None \<Rightarrow> Inl (io_other ''not found'')
      | Some d \<Rightarrow>
          (if d \<in> set (fs_denied s) then Inl (io_other ''permission denied'')
           else Inr (map last (filter (\<lambda>k. k \<noteq> [] \<and> butlast k = d) (map fst (fs_nodes s))))))"

text \<open>Opening a file and reading its first \<open>n\<close> bytes; links are followed.\<close>

definition fs_read_prefix :: "fs \<Rightarrow> path \<Rightarrow> nat \<Rightarrow> io_error + char list" where
  "fs_read_prefix s p n =
     (case canonicalize s p of
        None \<Rightarrow> Inl (io_other ''not found'')
      | Some k \<Rightarrow>
          (if k \<in> set (fs_denied s) then Inl (io_other ''permission denied'')
           else case node_at s k of
             Some (File data _) \<Rightarrow> Inr (take n data)
           | _ \<Rightarrow> Inl (io_other ''not a file'')))"

subsection \<open>Writing\<close>

definition take_fault :: "fs \<Rightarrow> nat option \<times> fs" where
  "take_fault s =
     (case fs_faults s of [] \<Rightarrow> (None, s) | f # fs' \<Rightarrow> (f, s\<lparr>fs_faults := fs'\<rparr>))"

definition set_node :: "path \<Rightarrow> node \<Rightarrow> fs \<Rightarrow> fs" where
  "set_node k n s = s\<lparr>fs_nodes := AList.update k n (fs_nodes s)\<rparr>"

definition del_node :: "path \<Rightarrow> fs \<Rightarrow> fs" where
  "del_node k s = s\<lparr>fs_nodes := AList.delete k (fs_nodes s)\<rparr>"

text \<open>\<open>OpenOptions::create_new\<close>: the handle is the real path of the new file.\<close>

definition fs_create_new :: "fs \<Rightarrow> path \<Rightarrow> (io_error + path) \<times> fs" where
  "fs_create_new s p =
     (case take_fault s of
        (Some _, s1) \<Rightarrow> (Inl (io_other ''create failed''), s1)
      | (None, s1) \<Rightarrow>
          (case key_of s1 p of
             None \<Rightarrow> (Inl (io_other ''not found''), s1)
           | Some k \<Rightarrow>
               (if node_at s1 k \<noteq> None
                then (Inl \<lparr>io_kind = AlreadyExists, io_text = ''file exists''\<rparr>, s1)
                else (Inr k, set_node k (File [] (fs_now s1)) s1))))"

definition fs_write_all :: "fs \<Rightarrow> path \<Rightarrow> char list \<Rightarrow> (io_error + unit) \<times> fs" where
  "fs_write_all s k data =
     (case take_fault s of
        (Some n, s1) \<Rightarrow> (Inl (io_other ''write failed''), set_node k (File (take n data) (fs_now s1)) s1)
      | (None, s1) \<Rightarrow> (Inr (), set_node k (File data (fs_now s1)) s1))"

definition fs_sync :: "fs \<Rightarrow> (io_error + unit) \<times> fs" where
  "fs_sync s =
     (case take_fault s of
        (Some _, s1) \<Rightarrow> (Inl (io_other ''sync failed''), s1)
      | (None, s1) \<Rightarrow> (Inr (), s1))"

text \<open>\<open>rename\<close> replaces a file or a link at the destination and refuses a directory.\<close>

definition fs_rename :: "fs \<Rightarrow> path \<Rightarrow> path \<Rightarrow> (io_error + unit) \<times> fs" where
  "fs_rename s src dst =
     (case take_fault s of
        (Some _, s1) \<Rightarrow> (Inl (io_other ''rename failed''), s1)
      | (None, s1) \<Rightarrow>
          (case (key_of s1 src, key_of s1 dst) of
             (Some a, Some b) \<Rightarrow>
               (case (node_at s1 a, node_at s1 b) of
                  (None, _) \<Rightarrow> (Inl (io_other ''not found''), s1)
                | (_, Some (Directory _)) \<Rightarrow> (Inl (io_other ''is a directory''), s1)
                | (Some n, _) \<Rightarrow> (Inr (), set_node b n (del_node a s1)))
           | _ \<Rightarrow> (Inl (io_other ''not found''), s1)))"

definition fs_remove_file :: "fs \<Rightarrow> path \<Rightarrow> (io_error + unit) \<times> fs" where
  "fs_remove_file s p =
     (case take_fault s of
        (Some _, s1) \<Rightarrow> (Inl (io_other ''remove failed''), s1)
      | (None, s1) \<Rightarrow>
          (case key_of s1 p of
             None \<Rightarrow> (Inl (io_other ''not found''), s1)
           | Some k \<Rightarrow>
               (case node_at s1 k of
                  Some (File _ _) \<Rightarrow> (Inr (), del_node k s1)
                | Some (Link _ _) \<Rightarrow> (Inr (), del_node k s1)
                | _ \<Rightarrow> (Inl (io_other ''not a file''), s1))))"

text \<open>\<open>DirBuilder::recursive\<close>: create every missing directory on the way.\<close>

fun mkdirs :: "path \<Rightarrow> string list \<Rightarrow> fs \<Rightarrow> (io_error + unit) \<times> fs" where
  "mkdirs pre [] s = (Inr (), s)"
| "mkdirs pre (c # cs) s =
     (if dir_of s (pre @ [c]) \<noteq> None then mkdirs (pre @ [c]) cs s
      else case key_of s (pre @ [c]) of
        None \<Rightarrow> (Inl (io_other ''not found''), s)
      | Some k \<Rightarrow>
          (if node_at s k \<noteq> None then (Inl (io_other ''not a directory''), s)
           else mkdirs (pre @ [c]) cs (set_node k (Directory (fs_now s)) s)))"

definition fs_create_dir_all :: "fs \<Rightarrow> path \<Rightarrow> (io_error + unit) \<times> fs" where
  "fs_create_dir_all s p =
     (case take_fault s of
        (Some _, s1) \<Rightarrow> (Inl (io_other ''mkdir failed''), s1)
      | (None, s1) \<Rightarrow> mkdirs [] p s1)"

subsection \<open>Laws\<close>

lemma node_at_set [simp]: "k \<noteq> [] \<Longrightarrow> node_at (set_node k n s) p = (if p = k then Some n else node_at s p)"
  by (auto simp: node_at_def set_node_def)

lemma node_at_del [simp]: "k \<noteq> [] \<Longrightarrow> node_at (del_node k s) p = (if p = k then None else node_at s p)"
  by (auto simp: node_at_def del_node_def)

lemma fs_frame [simp]:
  "fs_denied (set_node k n s) = fs_denied s" "fs_faults (set_node k n s) = fs_faults s"
  "fs_now (set_node k n s) = fs_now s" "fs_denied (del_node k s) = fs_denied s"
  "fs_faults (del_node k s) = fs_faults s" "fs_now (del_node k s) = fs_now s"
  "node_at (s\<lparr>fs_faults := f\<rparr>) = node_at s"
  by (simp_all add: set_node_def del_node_def node_at_def fun_eq_iff)

lemma take_fault_props [simp]:
  "node_at (snd (take_fault s)) = node_at s" "fs_denied (snd (take_fault s)) = fs_denied s"
  "fs_now (snd (take_fault s)) = fs_now s" "fs_nodes (snd (take_fault s)) = fs_nodes s"
  by (auto simp: take_fault_def node_at_def fun_eq_iff split: list.split)

lemma key_of_not_Nil: "key_of s p = Some k \<Longrightarrow> k \<noteq> []"
  by (auto simp: key_of_def split: if_splits)

text \<open>Looking a directory up only depends on directories and links.\<close>

lemma dir_of_cong: "dirlink s = dirlink s' \<Longrightarrow> dir_of s p = dir_of s' p"
  by (simp add: dir_of_def)

lemma key_of_cong: "dirlink s = dirlink s' \<Longrightarrow> key_of s p = key_of s' p"
  by (simp add: key_of_def dir_of_def)

lemma dirlink_set_file:
  "k \<noteq> [] \<Longrightarrow> dirlink s k = None \<Longrightarrow> dirlink (set_node k (File d t) s) = dirlink s"
  by (auto simp: dirlink_def fun_eq_iff)

lemma dirlink_del_file:
  "k \<noteq> [] \<Longrightarrow> dirlink s k = None \<Longrightarrow> dirlink (del_node k s) = dirlink s"
  by (auto simp: dirlink_def fun_eq_iff split: option.splits node.splits)

lemma dirlink_fault [simp]: "dirlink (snd (take_fault s)) = dirlink s"
  by (simp add: dirlink_def fun_eq_iff)

text \<open>A resolved directory is reached through real directories only.\<close>

definition real_dir :: "fs \<Rightarrow> path \<Rightarrow> bool" where
  "real_dir s d \<longleftrightarrow> (\<forall>q r. d = q @ r \<longrightarrow> (\<exists>t. node_at s q = Some (Directory t)))"

lemma real_dir_Nil [simp]: "real_dir s []"
  by (simp add: real_dir_def node_at_def)

lemma real_dirD: "real_dir s (q @ r) \<Longrightarrow> \<exists>t. node_at s q = Some (Directory t)"
  by (simp add: real_dir_def)

lemma real_dir_prefix:
  assumes "real_dir s (d @ r)" shows "real_dir s d"
  unfolding real_dir_def
proof (intro allI impI)
  fix q r' assume "d = q @ r'"
  with assms have "real_dir s (q @ (r' @ r))" by simp
  then show "\<exists>t. node_at s q = Some (Directory t)" by (rule real_dirD)
qed

lemma real_dir_butlast: "real_dir s d \<Longrightarrow> real_dir s (butlast d)"
  using real_dir_prefix [of s "butlast d" "[last d]"] by (cases "d = []") simp_all

lemma real_dir_snoc: "real_dir s d \<Longrightarrow> node_at s (d @ [c]) = Some (Directory t) \<Longrightarrow> real_dir s (d @ [c])"
  unfolding real_dir_def
proof (intro allI impI)
  fix q r
  assume d: "\<forall>q r. d = q @ r \<longrightarrow> (\<exists>t. node_at s q = Some (Directory t))"
    and n: "node_at s (d @ [c]) = Some (Directory t)" and e: "d @ [c] = q @ r"
  show "\<exists>t. node_at s q = Some (Directory t)"
  proof (cases r rule: rev_cases)
    case Nil
    with e n show ?thesis by simp
  next
    case (snoc r' x)
    with e have "d = q @ r'" by simp
    with d show ?thesis by blast
  qed
qed

lemma walk_real:
  "walk n (dirlink s) cur cs = Some d \<Longrightarrow> real_dir s cur \<Longrightarrow> real_dir s d"
proof (induction n "dirlink s" cur cs rule: walk.induct)
  case (2 n cur c cs)
  show ?case
  proof (cases "c = ''.'' \<or> c = ''..''")
    case True
    with 2 show ?thesis by (auto intro: real_dir_butlast split: if_splits)
  next
    case False
    with 2 show ?thesis
      by (auto simp: dirlink_def split: option.splits node.splits if_splits
          intro: real_dir_snoc)
  qed
qed simp

lemma dir_of_real: "dir_of s p = Some d \<Longrightarrow> real_dir s d"
  by (auto simp: dir_of_def intro: walk_real)

lemma key_of_real: "key_of s p = Some k \<Longrightarrow> real_dir s (butlast k) \<and> k \<noteq> []"
  by (auto simp: key_of_def split: if_splits dest: dir_of_real)

lemma follow_file_cases:
  assumes "follow_file n s p = Some k"
  obtains (reg) data t where "key_of s p = Some k" "node_at s k = Some (File data t)"
  | (lnk) m p' where "n = Suc m" "follow_file m s p' = Some k"
proof -
  obtain q where q: "key_of s p = Some q"
    using assms by (cases "key_of s p") (simp_all add: follow_file.simps [of n])
  obtain nd where nd: "node_at s q = Some nd"
    using assms q by (cases "node_at s q") (simp_all add: follow_file.simps [of n])
  show thesis
  proof (cases nd)
    case (File data t)
    with assms q nd reg show thesis by (simp add: follow_file.simps [of n])
  next
    case (Directory t)
    with assms q nd show thesis by (simp add: follow_file.simps [of n])
  next
    case (Link ab t)
    with assms q nd have "n \<noteq> 0" "follow_file (n - 1) s (if ab then t else butlast q @ t) = Some k"
      by (simp_all add: follow_file.simps [of n] split: if_splits)
    then show thesis using lnk [of "n - 1"] by simp
  qed
qed

lemma follow_file_real:
  "follow_file n s p = Some k \<Longrightarrow>
     real_dir s (butlast k) \<and> k \<noteq> [] \<and> (\<exists>data t. node_at s k = Some (File data t))"
proof (induction n arbitrary: p)
  case 0
  from 0 show ?case
    by (rule follow_file_cases) (use key_of_real in blast, simp)
next
  case (Suc n)
  from Suc.prems show ?case
    by (rule follow_file_cases) (use key_of_real in blast, use Suc.IH in blast)
qed

lemma canonical_file:
  assumes "canonicalize s p = Some k" and "node_at s k = Some (File data t)"
  shows "real_dir s (butlast k) \<and> k \<noteq> []"
proof -
  have "dir_of s p \<noteq> Some k"
    using assms(2) dir_of_real [of s p k] real_dirD [of s k "[]"] by auto
  then show ?thesis
    using assms(1) follow_file_real [of SYMLINK_LIMIT s p k]
    by (auto simp: canonicalize_def split: option.splits)
qed

end
