(* ===== verification/Fetch.thy ===== *)
theory Fetch
  imports Policy Framing "HOL-Library.Monad_Syntax"
begin

text \<open>
  The bounded, policy-checked download of \<open>src/cover/fetch.rs\<close>. Everything outside the
  process (resolver, transport, the body being read, the clock, the stop flag) acts on a world
  \<open>'w\<close>; the operations are the fields of \<open>fetch_env\<close>. The URL parser and \<open>Url::join\<close> are
  the crate's, hence parameters. The body of a response is read from the world: one response is
  open at a time. A loop that may not end is a \<open>partial_function (option)\<close>; \<open>None\<close> is not
  returning.
\<close>

definition DOWNLOAD_TIMEOUT :: duration where "DOWNLOAD_TIMEOUT = from_secs 5"
definition DOWNLOAD_DEADLINE :: duration where "DOWNLOAD_DEADLINE = from_secs 20"
definition MAX_COVER_BYTES :: nat where "MAX_COVER_BYTES = 10 * 1024 * 1024"
definition MAX_REDIRECTS :: nat where "MAX_REDIRECTS = 10"
definition CHUNK :: nat where "CHUNK = 64 * 1024"

record response =
  rs_status :: nat
  rs_location :: "string option"
  rs_content_length :: "string option"

type_synonym 'w reader = "nat \<Rightarrow> 'w \<Rightarrow> (io_error + byte list) \<times> 'w"

record 'w fetch_env =
  fe_domains :: "string list"
  fe_dns :: "'w dns"
  fe_get :: "url \<Rightarrow> socket_addr list \<Rightarrow> 'w \<Rightarrow> (cover_error + response) \<times> 'w"
  fe_read :: "'w reader"
  fe_now :: "'w \<Rightarrow> instant \<times> 'w"
  fe_should_stop :: "'w \<Rightarrow> bool \<times> 'w"
  fe_parse :: "string \<Rightarrow> url option"
  fe_join :: "url \<Rightarrow> string \<Rightarrow> url option"

text \<open>\<open>str::parse::<u64>\<close>: an optional plus sign, at least one digit, no overflow.\<close>

definition parse_u64 :: "string \<Rightarrow> nat option" where
  "parse_u64 s =
     (let ds = (if starts_with s ''+'' then tl s else s)
      in if ds = [] \<or> \<not> list_all is_digit ds \<or> 2 ^ 64 \<le> digits_value ds then None
         else Some (digits_value ds))"

partial_function (option) read_loop ::
  "'w reader \<Rightarrow> ('w \<Rightarrow> instant \<times> 'w) \<Rightarrow> ('w \<Rightarrow> bool \<times> 'w) \<Rightarrow> instant \<Rightarrow> byte list \<Rightarrow> 'w \<Rightarrow>
     ((cover_error + byte list) \<times> 'w) option" where
  "read_loop rd now should_stop deadline out w =
     (case should_stop w of (stop, w1) \<Rightarrow>
        if stop then Some (Inl Aborted, w1)
        else (case now w1 of (t, w2) \<Rightarrow>
          if t > deadline then Some (Inl Timeout, w2)
          else (case rd CHUNK w2 of (r, w3) \<Rightarrow>
            (case r of
               Inl e \<Rightarrow>
                 (if io_kind e = Interrupted then read_loop rd now should_stop deadline out w3
                  else Some (Inl (cover_error_from_io e), w3))
             | Inr chunk \<Rightarrow>
                 (if chunk = [] then Some (Inr out, w3)
                  else if length out + length chunk > MAX_COVER_BYTES then Some (Inl TooLarge, w3)
                  else read_loop rd now should_stop deadline (out @ chunk) w3)))))"

definition declared_too_large :: "response \<Rightarrow> bool" where
  "declared_too_large resp =
     (case rs_content_length resp of
        None \<Rightarrow> False
      | Some declared \<Rightarrow>
          (case parse_u64 (trim declared) of None \<Rightarrow> False | Some n \<Rightarrow> n > MAX_COVER_BYTES))"

definition read_body ::
  "'w reader \<Rightarrow> response \<Rightarrow> instant \<Rightarrow> ('w \<Rightarrow> instant \<times> 'w) \<Rightarrow> ('w \<Rightarrow> bool \<times> 'w) \<Rightarrow> 'w \<Rightarrow>
     ((cover_error + byte list) \<times> 'w) option" where
  "read_body rd resp deadline now should_stop w =
     (if declared_too_large resp then Some (Inl TooLarge, w)
      else read_loop rd now should_stop deadline [] w)"

definition is_redirect :: "nat \<Rightarrow> bool" where
  "is_redirect s \<longleftrightarrow> s \<in> {301, 302, 303, 307, 308}"

text \<open>\<open>fetch_hops n\<close> is the \<open>for\<close> loop with \<open>n\<close> iterations left.\<close>

primrec fetch_hops ::
  "nat \<Rightarrow> 'w fetch_env \<Rightarrow> instant \<Rightarrow> url \<Rightarrow> 'w \<Rightarrow> ((cover_error + byte list) \<times> 'w) option" where
  "fetch_hops 0 env deadline u w = Some (Inl (Io ''too many redirects''), w)"
| "fetch_hops (Suc n) env deadline u w =
     (case check_destination u (fe_domains env) (fe_dns env) w of
        (Inl e, w1) \<Rightarrow> Some (Inl e, w1)
      | (Inr addrs, w1) \<Rightarrow>
          (case fe_now env w1 of (t, w2) \<Rightarrow>
             if t > deadline then Some (Inl Timeout, w2)
             else (case fe_get env u addrs w2 of
               (Inl e, w3) \<Rightarrow> Some (Inl e, w3)
             | (Inr resp, w3) \<Rightarrow>
                 (let s = rs_status resp in
                  if 200 \<le> s \<and> s \<le> 299
                  then read_body (fe_read env) resp deadline (fe_now env) (fe_should_stop env) w3
                  else if is_redirect s then
                    (case rs_location resp of
                       None \<Rightarrow> Some (Inl (Io (''HTTP '' @ show_nat s @ '' without Location'')), w3)
                     | Some loc \<Rightarrow>
                         (case fe_join env u loc of
                            None \<Rightarrow> Some (Inl (Refused BadRedirect), w3)
                          | Some u' \<Rightarrow> fetch_hops n env deadline u' w3))
                  else Some (Inl (Io (''HTTP '' @ show_nat s)), w3)))))"

definition fetch ::
  "string \<Rightarrow> 'w fetch_env \<Rightarrow> 'w \<Rightarrow> ((cover_error + byte list) \<times> 'w) option" where
  "fetch url_text env w =
     (case fe_now env w of (t, w1) \<Rightarrow>
        let deadline = t + DOWNLOAD_DEADLINE in
        (case fe_parse env url_text of
           None \<Rightarrow> Some (Inl (Refused BadUrl), w1)
         | Some u \<Rightarrow> fetch_hops (MAX_REDIRECTS + 1) env deadline u w1))"

subsection \<open>The real transport\<close>

text \<open>
  \<open>PinnedResolver\<close> and \<open>UreqTransport\<close>: the HTTP client is the crate \<open>ureq\<close>, a parameter that
  is given a configuration, what the pinned resolver answers, and the URL text.
\<close>

datatype ureq_error = HostNotFound | UreqTimeout | UreqOther string

record http_config =
  hc_proxy :: "string option"
  hc_max_redirects :: nat
  hc_http_status_as_error :: bool
  hc_timeout_connect :: "duration option"
  hc_timeout_send_request :: "duration option"
  hc_timeout_recv_response :: "duration option"
  hc_timeout_recv_body :: "duration option"
  hc_timeout_global :: "duration option"

record ureq_response =
  ur_status :: nat
  ur_header :: "string \<Rightarrow> string option"

type_synonym 'w ureq =
  "http_config \<Rightarrow> ureq_error + socket_addr list \<Rightarrow> string \<Rightarrow> 'w \<Rightarrow> (ureq_error + ureq_response) \<times> 'w"

definition pinned_resolve :: "socket_addr list \<Rightarrow> ureq_error + socket_addr list" where
  "pinned_resolve addrs = (let out = take 16 addrs in if out = [] then Inl HostNotFound else Inr out)"

definition ureq_config :: http_config where
  "ureq_config =
     \<lparr>hc_proxy = None, hc_max_redirects = 0, hc_http_status_as_error = False,
      hc_timeout_connect = Some DOWNLOAD_TIMEOUT, hc_timeout_send_request = Some DOWNLOAD_TIMEOUT,
      hc_timeout_recv_response = Some DOWNLOAD_TIMEOUT, hc_timeout_recv_body = Some DOWNLOAD_DEADLINE,
      hc_timeout_global = Some (DOWNLOAD_DEADLINE + DOWNLOAD_TIMEOUT)\<rparr>"

definition cover_error_from_ureq :: "ureq_error \<Rightarrow> cover_error" where
  "cover_error_from_ureq e =
     (case e of UreqTimeout \<Rightarrow> Timeout | HostNotFound \<Rightarrow> Io ''host not found'' | UreqOther m \<Rightarrow> Io m)"

definition ureq_get ::
  "'w ureq \<Rightarrow> url \<Rightarrow> socket_addr list \<Rightarrow> 'w \<Rightarrow> (cover_error + response) \<times> 'w" where
  "ureq_get ureq u addrs w =
     (case ureq ureq_config (pinned_resolve addrs) (url_as_str u) w of
        (Inl e, w') \<Rightarrow> (Inl (cover_error_from_ureq e), w')
      | (Inr resp, w') \<Rightarrow>
          (Inr \<lparr>rs_status = ur_status resp, rs_location = ur_header resp ''location'',
                rs_content_length = ur_header resp ''content-length''\<rparr>, w'))"

subsection \<open>The body is bounded\<close>

lemma read_loop_bounded:
  assumes "read_loop rd now should_stop deadline out w = Some y" and "length out \<le> MAX_COVER_BYTES"
  shows "case fst y of Inl _ \<Rightarrow> True | Inr body \<Rightarrow> length body \<le> MAX_COVER_BYTES"
proof -
  have "length out \<le> MAX_COVER_BYTES \<longrightarrow>
      (case fst y of Inl _ \<Rightarrow> True | Inr body \<Rightarrow> length body \<le> MAX_COVER_BYTES)"
    using assms(1)
    by (rule read_loop.raw_induct
        [where P = "\<lambda>rd now should_stop deadline out w y. length out \<le> MAX_COVER_BYTES \<longrightarrow>
          (case fst y of Inl _ \<Rightarrow> True | Inr body \<Rightarrow> length body \<le> MAX_COVER_BYTES)", rotated])
      (auto split: prod.splits sum.splits if_splits, (fastforce split: sum.splits)+)
  with assms(2) show ?thesis by blast
qed

text \<open>
  A clock that every read advances. \<open>ticking\<close> is what the code relies on for the total deadline:
  \<open>now\<close> reads the clock, the stop flag does not turn it back, a read takes time.
\<close>

definition ticking ::
  "('w \<Rightarrow> instant) \<Rightarrow> 'w reader \<Rightarrow> ('w \<Rightarrow> instant \<times> 'w) \<Rightarrow> ('w \<Rightarrow> bool \<times> 'w) \<Rightarrow> bool" where
  "ticking clk rd now should_stop \<longleftrightarrow>
     (\<forall>w. fst (now w) = clk (snd (now w)) \<and> clk w \<le> clk (snd (now w))) \<and>
     (\<forall>w. clk w \<le> clk (snd (should_stop w))) \<and>
     (\<forall>n w. clk w < clk (snd (rd n w)))"

lemma read_loop_returns:
  assumes tick: "ticking clk rd now should_stop"
  shows "\<exists>y. read_loop rd now should_stop deadline out w = Some y"
proof (induction "Suc deadline - clk w" arbitrary: out w rule: less_induct)
  case less
  obtain stop w1 where w1: "should_stop w = (stop, w1)" by (cases "should_stop w")
  obtain t w2 where w2: "now w1 = (t, w2)" by (cases "now w1")
  obtain r w3 where w3: "rd CHUNK w2 = (r, w3)" by (cases "rd CHUNK w2")
  have le: "clk w \<le> clk w2" "t = clk w2" "clk w2 < clk w3"
    using tick w1 w2 w3 unfolding ticking_def by (metis fst_conv snd_conv order_trans)+
  show ?case
  proof (cases "t > deadline")
    case True
    then show ?thesis by (simp add: read_loop.simps [of rd now] w1 w2)
  next
    case False
    then have "Suc deadline - clk w3 < Suc deadline - clk w" using le by simp
    from less [OF this] have IH: "\<exists>a b. read_loop rd now should_stop deadline out' w3 = Some (a, b)" for out'
      by auto
    from False show ?thesis
      by (subst read_loop.simps) (cases r; simp add: w1 w2 w3 IH)
  qed
qed

lemma fetch_hops_returns:
  assumes "ticking clk (fe_read env) (fe_now env) (fe_should_stop env)"
  shows "\<exists>y. fetch_hops n env deadline u w = Some y"
proof (induction n arbitrary: u w)
  case (Suc n)
  have "\<exists>y. read_body (fe_read env) resp deadline (fe_now env) (fe_should_stop env) w = Some y" for resp w
    using read_loop_returns [OF assms] by (simp add: read_body_def)
  with Suc show ?case
    by (simp add: Let_def split: prod.split sum.split option.split)
qed simp

lemma fetch_hops_bounded:
  "fetch_hops n env deadline u w = Some (Inr body, w') \<Longrightarrow> length body \<le> MAX_COVER_BYTES"
proof (induction n arbitrary: u w)
  case (Suc n)
  from Suc.prems show ?case
    by (auto simp: Let_def read_body_def split: prod.splits sum.splits option.splits if_splits
        dest: Suc.IH read_loop_bounded)
qed simp

subsection \<open>Every request is permitted\<close>

text \<open>
  \<open>logged env\<close> behaves as \<open>env\<close> on the first component of its world and appends every request
  the transport is given to the second.
\<close>

type_synonym request = "url \<times> socket_addr list"

definition lift_world :: "('w \<Rightarrow> 'a \<times> 'w) \<Rightarrow> 'w \<times> request list \<Rightarrow> 'a \<times> ('w \<times> request list)" where
  "lift_world f s = (fst (f (fst s)), (snd (f (fst s)), snd s))"

definition logged :: "'w fetch_env \<Rightarrow> ('w \<times> request list) fetch_env" where
  "logged env =
     \<lparr>fe_domains = fe_domains env,
      fe_dns = (\<lambda>host. lift_world (fe_dns env host)),
      fe_get = (\<lambda>u addrs s. lift_world (fe_get env u addrs) (fst s, snd s @ [(u, addrs)])),
      fe_read = (\<lambda>n. lift_world (fe_read env n)),
      fe_now = lift_world (fe_now env),
      fe_should_stop = lift_world (fe_should_stop env),
      fe_parse = fe_parse env,
      fe_join = fe_join env\<rparr>"

lemma logged_simps [simp]:
  "fe_domains (logged env) = fe_domains env"
  "fe_dns (logged env) = (\<lambda>host. lift_world (fe_dns env host))"
  "fe_get (logged env) u addrs s = lift_world (fe_get env u addrs) (fst s, snd s @ [(u, addrs)])"
  "fe_read (logged env) = (\<lambda>n. lift_world (fe_read env n))"
  "fe_now (logged env) = lift_world (fe_now env)"
  "fe_should_stop (logged env) = lift_world (fe_should_stop env)"
  "fe_parse (logged env) = fe_parse env"
  "fe_join (logged env) = fe_join env"
  by (simp_all add: logged_def)

lemma lift_world_log: "lift_world f s = (r, s') \<Longrightarrow> snd s' = snd s"
  by (auto simp: lift_world_def)

definition keeps_log :: "('w \<times> request list \<Rightarrow> 'a \<times> ('w \<times> request list)) \<Rightarrow> bool" where
  "keeps_log f \<longleftrightarrow> (\<forall>s. snd (snd (f s)) = snd s)"

lemma keeps_logD: "keeps_log f \<Longrightarrow> f s = (r, s') \<Longrightarrow> snd s' = snd s"
  unfolding keeps_log_def by (metis snd_conv)

lemma keeps_lift [simp]: "keeps_log (lift_world f)"
  by (simp add: keeps_log_def lift_world_def)

lemma read_loop_log_induct:
  assumes "read_loop rd now stop deadline out s = Some y"
  shows "keeps_log (rd CHUNK) \<longrightarrow> keeps_log now \<longrightarrow> keeps_log stop \<longrightarrow> snd (snd y) = snd s"
  using assms
proof (rule read_loop.raw_induct
    [where P = "\<lambda>rd now stop deadline out s y.
       keeps_log (rd CHUNK) \<longrightarrow> keeps_log now \<longrightarrow> keeps_log stop \<longrightarrow> snd (snd y) = snd s", rotated],
    intro impI)
  fix loop rd now stop deadline out s y
  assume IH: "\<And>rd now stop deadline out s y. loop rd now stop deadline out s = Some y \<Longrightarrow>
      keeps_log (rd CHUNK) \<longrightarrow> keeps_log now \<longrightarrow> keeps_log stop \<longrightarrow> snd (snd y) = snd s"
    and step: "(case stop s of (b, s1) \<Rightarrow>
        if b then Some (Inl Aborted, s1)
        else (case now s1 of (t, s2) \<Rightarrow>
          if t > deadline then Some (Inl Timeout, s2)
          else (case rd CHUNK s2 of (r, s3) \<Rightarrow>
            (case r of
               Inl e \<Rightarrow>
                 (if io_kind e = Interrupted then loop rd now stop deadline out s3
                  else Some (Inl (cover_error_from_io e), s3))
             | Inr chunk \<Rightarrow>
                 (if chunk = [] then Some (Inr out, s3)
                  else if length out + length chunk > MAX_COVER_BYTES then Some (Inl TooLarge, s3)
                  else loop rd now stop deadline (out @ chunk) s3))))) = Some y"
    and keeps: "keeps_log (rd CHUNK)" "keeps_log now" "keeps_log stop"
  obtain b s1 where 1: "stop s = (b, s1)" by (cases "stop s")
  obtain t s2 where 2: "now s1 = (t, s2)" by (cases "now s1")
  obtain r s3 where 3: "rd CHUNK s2 = (r, s3)" by (cases "rd CHUNK s2")
  note logs = keeps_logD [OF keeps(3) 1] keeps_logD [OF keeps(2) 2] keeps_logD [OF keeps(1) 3]
  note IH' = IH [of rd now stop deadline _ s3 y, simplified keeps simp_thms]
  show "snd (snd y) = snd s"
    using step logs IH' by (cases r) (auto simp: 1 2 3 split: if_splits)
qed

lemmas read_loop_log =
  read_loop_log_induct [of "\<lambda>n. lift_world (rd n)" "lift_world now" "lift_world stop" for rd now stop,
    simplified keeps_lift simp_thms]

lemma check_destination_log:
  "check_destination u ds (\<lambda>host. lift_world (dns host)) s = (r, s') \<Longrightarrow> snd s' = snd s"
  by (auto simp: check_destination_def split: if_splits option.splits url_host.splits sum.splits prod.splits
      dest: lift_world_log)

lemma fetch_hops_requests:
  assumes "fetch_hops n (logged env) deadline u s = Some (r, s')"
  shows "\<exists>new. snd s' = snd s @ new \<and> length new \<le> n \<and>
    (\<forall>q \<in> set new. permitted (fe_domains env) (fst q) (snd q))"
  using assms
proof (induction n arbitrary: u s)
  case 0
  then show ?case by auto
next
  case (Suc n)
  obtain c s1 where c: "check_destination u (fe_domains env) (\<lambda>host. lift_world (fe_dns env host)) s = (c, s1)"
    by (cases "check_destination u (fe_domains env) (\<lambda>host. lift_world (fe_dns env host)) s")
  obtain t s2 where t: "lift_world (fe_now env) s1 = (t, s2)" by (cases "lift_world (fe_now env) s1")
  have log: "snd s1 = snd s" "snd s2 = snd s1"
    using check_destination_log [OF c] lift_world_log [OF t] by simp_all
  show ?case
  proof (cases c)
    case (Inl e)
    with Suc.prems c log show ?thesis by auto
  next
    case (Inr addrs)
    have ok: "permitted (fe_domains env) u addrs" using c Inr by (auto dest: check_permitted)
    obtain g s3 where g: "lift_world (fe_get env u addrs) (fst s2, snd s2 @ [(u, addrs)]) = (g, s3)"
      by (cases "lift_world (fe_get env u addrs) (fst s2, snd s2 @ [(u, addrs)])")
    have s3: "snd s3 = snd s @ [(u, addrs)]" using lift_world_log [OF g] log by simp
    have stop_here: ?thesis if "snd s' = snd s3"
      using that s3 ok by (intro exI [of _ "[(u, addrs)]"]) simp
    have go_on: ?thesis if hop: "fetch_hops n (logged env) deadline u' s3 = Some (r, s')" for u'
    proof -
      obtain new where "snd s' = snd s3 @ new" "length new \<le> n"
        "\<forall>q \<in> set new. permitted (fe_domains env) (fst q) (snd q)"
        using Suc.IH [OF hop] by blast
      then show ?thesis using s3 ok by (intro exI [of _ "(u, addrs) # new"]) simp
    qed
    show ?thesis
    proof (cases "t > deadline")
      case True
      with Suc.prems c t Inr log show ?thesis by auto
    next
      case False
      have step: "(case g of
          Inl e \<Rightarrow> Some (Inl e, s3)
        | Inr resp \<Rightarrow>
            (if 200 \<le> rs_status resp \<and> rs_status resp \<le> 299
             then (if declared_too_large resp then Some (Inl TooLarge, s3)
                   else read_loop (\<lambda>n. lift_world (fe_read env n)) (lift_world (fe_now env))
                          (lift_world (fe_should_stop env)) deadline [] s3)
             else if is_redirect (rs_status resp) then
               (case rs_location resp of
                  None \<Rightarrow> Some (Inl (Io (''HTTP '' @ show_nat (rs_status resp) @ '' without Location'')), s3)
                | Some loc \<Rightarrow>
                    (case fe_join env u loc of
                       None \<Rightarrow> Some (Inl (Refused BadRedirect), s3)
                     | Some u' \<Rightarrow> fetch_hops n (logged env) deadline u' s3))
             else Some (Inl (Io (''HTTP '' @ show_nat (rs_status resp))), s3))) = Some (r, s')"
        using Suc.prems False
        by (cases g) (simp_all add: c Inr t g read_body_def Let_def cong: if_cong option.case_cong)
      show ?thesis
      proof (cases g)
        case (Inl e)
        with step False stop_here show ?thesis by simp
      next
        case (Inr resp)
        note step = step [unfolded Inr sum.case]
        show ?thesis
        proof (cases "200 \<le> rs_status resp \<and> rs_status resp \<le> 299")
          case True
          with step False stop_here show ?thesis
            by (auto split: if_splits dest!: read_loop_log)
        next
          case False
          with step \<open>\<not> t > deadline\<close> stop_here go_on show ?thesis
            by (auto split: if_splits option.splits)
        qed
      qed
    qed
  qed
qed

subsection \<open>What a fetch promises\<close>

text \<open>C3. Fetch, destinations: whatever the resolver, the transport and the redirects do, a fetch
  makes at most eleven requests and each one is permitted by the destination policy.\<close>

theorem fetch_requests_permitted:
  assumes "fetch text (logged env) (w, []) = Some (r, (w', reqs))"
  shows "length reqs \<le> MAX_REDIRECTS + 1 \<and> (\<forall>q \<in> set reqs. permitted (fe_domains env) (fst q) (snd q))"
  using assms fetch_hops_requests [of "MAX_REDIRECTS + 1" env _ _ "(snd (fe_now env w), [])" r "(w', reqs)"]
  by (auto simp: fetch_def lift_world_def Let_def split: option.splits)

text \<open>A server that redirects once, then sends one chunk and ends.\<close>

definition demo_env :: "nat fetch_env" where
  "demo_env =
     \<lparr>fe_domains = DEFAULT_ART_DOMAINS,
      fe_dns = (\<lambda>_ w. (Inr [V4 0x17C0E454], w)),
      fe_get = (\<lambda>u addrs w. (Inr \<lparr>rs_status = (if w = 0 then 302 else 200),
        rs_location = Some ''/img/y'', rs_content_length = Some ''4''\<rparr>, Suc w)),
      fe_read = (\<lambda>n w. (Inr (if w = 2 then ''data'' else []), Suc w)),
      fe_now = (\<lambda>w. (w, w)),
      fe_should_stop = (\<lambda>w. (False, w)),
      fe_parse = (\<lambda>_. Some art_url_example),
      fe_join = (\<lambda>u _. Some u)\<rparr>"

lemma demo_check:
  fixes s :: "nat \<times> request list"
  shows "check_destination art_url_example DEFAULT_ART_DOMAINS (fe_dns (logged demo_env)) s =
    (Inr [(V4 0x17C0E454, HTTPS_PORT)], s)"
proof -
  have "fe_dns (logged demo_env) = (\<lambda>_ w. (Inr [V4 0x17C0E454], w))"
    by (simp add: lift_world_def fun_eq_iff demo_env_def)
  then show ?thesis by (simp only: example_permitted)
qed

lemma demo_small:
  "declared_too_large \<lparr>rs_status = st, rs_location = l, rs_content_length = Some ''4''\<rparr> = False"
proof -
  have "parse_u64 (trim ''4'') = Some 4"
    by (simp add: parse_u64_def trim_def is_space_def digits_value_def is_digit_def starts_with_def)
  then show ?thesis by (simp add: declared_too_large_def MAX_COVER_BYTES_def)
qed

lemma demo_ops:
  "fe_now (logged demo_env) s = (fst s, s)"
  "fe_should_stop (logged demo_env) s = (False, s)"
  "fe_read (logged demo_env) n s = (Inr (if fst s = 2 then ''data'' else []), (Suc (fst s), snd s))"
  "fe_parse (logged demo_env) t = Some art_url_example"
  "fe_join (logged demo_env) u t = Some u"
  "fe_domains (logged demo_env) = DEFAULT_ART_DOMAINS"
  "fe_get (logged demo_env) u addrs s =
     (Inr \<lparr>rs_status = (if fst s = 0 then 302 else 200), rs_location = Some ''/img/y'',
           rs_content_length = Some ''4''\<rparr>, (Suc (fst s), snd s @ [(u, addrs)]))"
  by (simp_all add: lift_world_def demo_env_def)

lemmas demo_simps = demo_check demo_small demo_ops

lemma demo_read:
  "3 \<le> deadline \<Longrightarrow> read_loop (fe_read (logged demo_env)) (fe_now (logged demo_env))
     (fe_should_stop (logged demo_env)) deadline [] (Suc (Suc 0), reqs) = Some (Inr ''data'', (4, reqs))"
  by (subst read_loop.simps, subst read_loop.simps)
    (simp add: demo_simps MAX_COVER_BYTES_def del: logged_simps)

lemma demo_fetch:
  "fetch ''https://i.scdn.co/img/x'' (logged demo_env) (0, []) =
     Some (Inr ''data'', (4, [(art_url_example, [(V4 0x17C0E454, HTTPS_PORT)]),
                              (art_url_example, [(V4 0x17C0E454, HTTPS_PORT)])]))"
proof -
  have hops: "MAX_REDIRECTS + 1 = Suc (Suc 9)" by (simp add: MAX_REDIRECTS_def)
  have long: "3 \<le> DOWNLOAD_DEADLINE" by (simp add: DOWNLOAD_DEADLINE_def from_secs_def)
  show ?thesis
    unfolding fetch_def hops fetch_hops.simps(2)
    using long
    by (simp add: demo_simps demo_read read_body_def is_redirect_def Let_def del: logged_simps)
qed

theorem fetch_requests_permitted_witness:
  "permitted (fe_domains demo_env) art_url_example [(V4 0x17C0E454, HTTPS_PORT)]"
  using fetch_requests_permitted [OF demo_fetch] by simp

text \<open>C29. Fetch, bounds: on a clock that every read advances, a fetch returns, whatever the server
  drips, and a returned body has at most ten mebibytes.\<close>

theorem fetch_returns_bounded:
  assumes "ticking clk (fe_read env) (fe_now env) (fe_should_stop env)"
  shows "\<exists>r w'. fetch text env w = Some (r, w') \<and>
    (case r of Inl _ \<Rightarrow> True | Inr body \<Rightarrow> length body \<le> MAX_COVER_BYTES)"
proof -
  obtain t w1 where now: "fe_now env w = (t, w1)" by (cases "fe_now env w")
  show ?thesis
  proof (cases "fe_parse env text")
    case None
    then show ?thesis by (simp add: fetch_def now)
  next
    case (Some u)
    obtain r w' where hops: "fetch_hops (MAX_REDIRECTS + 1) env (t + DOWNLOAD_DEADLINE) u w1 = Some (r, w')"
      using fetch_hops_returns [OF assms] by fastforce
    have "case r of Inl _ \<Rightarrow> True | Inr body \<Rightarrow> length body \<le> MAX_COVER_BYTES"
      using fetch_hops_bounded hops by (cases r) fastforce+
    with hops Some show ?thesis by (simp add: fetch_def now Let_def)
  qed
qed

text \<open>A server that drips one byte per read for ever.\<close>

definition drip_env :: "nat fetch_env" where
  "drip_env = demo_env\<lparr>fe_read := (\<lambda>n w. (Inr ''x'', Suc w))\<rparr>"

theorem fetch_returns_bounded_witness:
  "\<exists>r w'. fetch ''https://i.scdn.co/img/x'' drip_env 0 = Some (r, w') \<and>
    (case r of Inl _ \<Rightarrow> True | Inr body \<Rightarrow> length body \<le> MAX_COVER_BYTES)"
  by (rule fetch_returns_bounded [where clk = "\<lambda>w. w"]) (simp add: ticking_def drip_env_def demo_env_def)

end
