(* ===== verification/Cache.thy ===== *)
theory Cache
  imports Fs Fetch "HOL-Library.Product_Lexorder"
begin

text \<open>
  The downloaded-cover cache (\<open>src/cover/cache.rs\<close>) on the file system of \<open>Fs\<close>: signature
  sniff, atomic publish through a private temporary file, and eviction. The SHA-256 of crate
  \<open>sha2\<close> is the parameter \<open>digest\<close>. The process-wide counter \<open>TEMP_SEQ\<close> is threaded as a
  number.
\<close>

record cache_limits =
  max_bytes :: nat
  max_entries :: nat
  max_age :: duration

definition CACHE_LIMITS :: cache_limits where
  "CACHE_LIMITS = \<lparr>max_bytes = 128 * 1024 * 1024, max_entries = 512,
     max_age = from_secs (30 * 24 * 60 * 60)\<rparr>"

definition default_cache_dir :: "path option \<Rightarrow> path" where
  "default_cache_dir home =
     (case home of None \<Rightarrow> [] | Some h \<Rightarrow> h) @ [''.cache'', ''mpris-chroma'', ''covers'']"

definition cache_path :: "(string \<Rightarrow> nat list) \<Rightarrow> path \<Rightarrow> string \<Rightarrow> path" where
  "cache_path digest cache_dir url_text =
     cache_dir @ [concat (map hex_byte (digest url_text)) @ ''.img'']"

definition JPEG_MAGIC :: "char list" where "JPEG_MAGIC = [CHR 0xFF, CHR 0xD8, CHR 0xFF]"
definition PNG_MAGIC :: "char list" where
  "PNG_MAGIC = [CHR 0x89, CHR ''P'', CHR ''N'', CHR ''G'', CHR 0x0D, CHR 0x0A, CHR 0x1A, CHR 0x0A]"

definition looks_like_image :: "char list \<Rightarrow> bool" where
  "looks_like_image data \<longleftrightarrow>
     starts_with data JPEG_MAGIC \<or> starts_with data PNG_MAGIC \<or>
     (length data \<ge> 12 \<and> take 4 data = ''RIFF'' \<and> take 4 (drop 8 data) = ''WEBP'')"

definition is_real_file :: "fs \<Rightarrow> path \<Rightarrow> bool" where
  "is_real_file s p =
     (case fs_symlink_metadata s p of Inl _ \<Rightarrow> False | Inr m \<Rightarrow> md_type m = RegularFile)"

subsection \<open>Publishing\<close>

primrec hex_fixed :: "nat \<Rightarrow> nat \<Rightarrow> string" where
  "hex_fixed 0 n = []"
| "hex_fixed (Suc k) n = hex_fixed k (n div 16) @ [hex_digit (n mod 16)]"

definition subsec_nanos :: "fs \<Rightarrow> nat" where
  "subsec_nanos s = (if fs_now s < 0 then 0 else nat (fs_now s mod 1000000000))"

definition temp_name :: "nat \<Rightarrow> nat \<Rightarrow> nat \<Rightarrow> string" where
  "temp_name pid sq nanos =
     ''.tmp-'' @ show_nat pid @ ''-'' @ show_nat sq @ ''-'' @ hex_fixed 8 nanos @ ''.img''"

text \<open>\<open>create_temp\<close>: a taken name moves on to the next sequence number.\<close>

partial_function (option) create_temp ::
  "nat \<Rightarrow> path \<Rightarrow> nat \<Rightarrow> fs \<Rightarrow> ((io_error + (path \<times> path)) \<times> nat \<times> fs) option" where
  "create_temp pid dir sq s =
     (let p = dir @ [temp_name pid sq (subsec_nanos s)] in
      case fs_create_new s p of (r, s1) \<Rightarrow>
        (case r of
           Inr handle \<Rightarrow> Some (Inr (p, handle), sq + 1, s1)
         | Inl e \<Rightarrow>
             (if io_kind e = AlreadyExists then create_temp pid dir (sq + 1) s1
              else Some (Inl e, sq + 1, s1))))"

definition and_then :: "(io_error + unit) \<times> fs \<Rightarrow> (fs \<Rightarrow> (io_error + unit) \<times> fs) \<Rightarrow> (io_error + unit) \<times> fs" where
  "and_then r f = (case r of (Inl e, s) \<Rightarrow> (Inl e, s) | (Inr _, s) \<Rightarrow> f s)"

definition write_and_rename ::
  "path \<Rightarrow> path \<Rightarrow> path \<Rightarrow> char list \<Rightarrow> fs \<Rightarrow> (io_error + unit) \<times> fs" where
  "write_and_rename tmp handle dest data s =
     and_then (and_then (fs_write_all s handle data) fs_sync) (\<lambda>s. fs_rename s tmp dest)"

definition publish ::
  "nat \<Rightarrow> path \<Rightarrow> char list \<Rightarrow> nat \<Rightarrow> fs \<Rightarrow> ((io_error + unit) \<times> nat \<times> fs) option" where
  "publish pid dest data sq s =
     (let dir = butlast dest in
      case create_temp pid dir sq s of
        None \<Rightarrow> None
      | Some (Inl e, sq1, s1) \<Rightarrow> Some (Inl e, sq1, s1)
      | Some (Inr (tmp, handle), sq1, s1) \<Rightarrow>
          (case write_and_rename tmp handle dest data s1 of
             (Inr _, s2) \<Rightarrow> Some (Inr (), sq1, snd (fs_sync s2))
           | (Inl e, s2) \<Rightarrow> Some (Inl e, sq1, snd (fs_remove_file s2 tmp))))"

subsection \<open>Eviction\<close>

type_synonym entry = "int \<times> nat \<times> path"

text \<open>One name of the directory: skipped, removed for its age, or kept as an entry.\<close>

definition evict_age :: "int \<Rightarrow> int \<Rightarrow> duration" where
  "evict_age now mtime = nat (now - mtime)"

fun evict_scan ::
  "path \<Rightarrow> int \<Rightarrow> cache_limits \<Rightarrow> string list \<Rightarrow> fs \<Rightarrow> entry list \<times> fs" where
  "evict_scan dir now limits [] s = ([], s)"
| "evict_scan dir now limits (name # names) s =
     (if starts_with name ''.'' then evict_scan dir now limits names s
      else (case fs_symlink_metadata s (dir @ [name]) of
        Inl _ \<Rightarrow> evict_scan dir now limits names s
      | Inr m \<Rightarrow>
          (if md_type m = SymlinkType then evict_scan dir now limits names s
           else if evict_age now (md_mtime m) > max_age limits
           then evict_scan dir now limits names (snd (fs_remove_file s (dir @ [name])))
           else (case evict_scan dir now limits names s of
                   (entries, s') \<Rightarrow> ((md_mtime m, md_len m, dir @ [name]) # entries, s')))))"

fun evict_trim :: "cache_limits \<Rightarrow> entry list \<Rightarrow> nat \<Rightarrow> nat \<Rightarrow> fs \<Rightarrow> fs" where
  "evict_trim limits [] bytes cnt s = s"
| "evict_trim limits ((t, len, p) # es) bytes cnt s =
     (if bytes \<le> max_bytes limits \<and> cnt \<le> max_entries limits then s
      else evict_trim limits es (bytes - len) (cnt - 1) (snd (fs_remove_file s p)))"

definition evict :: "path \<Rightarrow> int \<Rightarrow> cache_limits \<Rightarrow> fs \<Rightarrow> fs" where
  "evict dir now limits s =
     (case fs_read_dir s dir of
        Inl _ \<Rightarrow> s
      | Inr names \<Rightarrow>
          (case evict_scan dir now limits names s of
             (entries, s1) \<Rightarrow>
               let sorted = sort entries in
               evict_trim limits sorted (sum_list (map (\<lambda>e. fst (snd e)) sorted)) (length sorted) s1))"

subsection \<open>Temporary names\<close>

lemma dash_not_in_show: "CHR ''-'' \<notin> set (show_nat n)"
  using is_digit_show [of n] by (auto simp: list_all_iff is_digit_def)

lemma temp_name_inj: "temp_name pid m a = temp_name pid n b \<Longrightarrow> m = n"
proof -
  assume "temp_name pid m a = temp_name pid n b"
  then have "show_nat m @ CHR ''-'' # hex_fixed 8 a = show_nat n @ CHR ''-'' # hex_fixed 8 b"
    by (simp add: temp_name_def del: hex_fixed.simps)
  then have "split_on (CHR ''-'') (show_nat m @ CHR ''-'' # hex_fixed 8 a) =
      split_on (CHR ''-'') (show_nat n @ CHR ''-'' # hex_fixed 8 b)" by simp
  then have "show_nat m = show_nat n"
    by (simp only: split_on_append_sep [OF dash_not_in_show] list.inject)
  then show ?thesis by (rule show_nat_inj)
qed

text \<open>Only finitely many names are taken, so \<open>create_temp\<close> ends.\<close>

lemma fs_create_new_exists:
  assumes "fs_create_new s p = (Inl e, s1)" and "io_kind e = AlreadyExists"
  shows "\<exists>k. key_of s p = Some k \<and> node_at s k \<noteq> None" and "s1 = snd (take_fault s)"
  using assms key_of_cong [of "snd (take_fault s)" s p]
  by (auto simp: fs_create_new_def io_other_def split: prod.splits option.splits if_splits
      dest!: arg_cong [of "take_fault s" _ snd])

definition taken_names :: "nat \<Rightarrow> fs \<Rightarrow> nat \<Rightarrow> path set" where
  "taken_names pid s sq =
     {k \<in> set (map fst (fs_nodes s)). \<exists>d m a. k = d @ [temp_name pid m a] \<and> sq \<le> m}"

lemma taken_names_less:
  assumes "key_of s (dir @ [temp_name pid sq a]) = Some k" and "node_at s k \<noteq> None"
  shows "card (taken_names pid s (Suc sq)) < card (taken_names pid s sq)"
proof (rule psubset_card_mono)
  show "finite (taken_names pid s sq)" by (simp add: taken_names_def)
  obtain d where k: "k = d @ [temp_name pid sq a]"
    using assms(1) by (auto simp: key_of_def)
  have "k \<in> set (map fst (fs_nodes s))"
    using assms(2) k by (force simp: node_at_def split: if_splits dest: map_of_SomeD)
  then have "k \<in> taken_names pid s sq" using k by (auto simp: taken_names_def)
  moreover have "k \<notin> taken_names pid s (Suc sq)"
    using k by (auto simp: taken_names_def dest: temp_name_inj)
  moreover have "taken_names pid s (Suc sq) \<subseteq> taken_names pid s sq"
    unfolding taken_names_def using Suc_leD by blast
  ultimately show "taken_names pid s (Suc sq) \<subset> taken_names pid s sq"
    by blast
qed

lemma create_temp_returns: "\<exists>y. create_temp pid dir sq s = Some y"
proof (induction "card (taken_names pid s sq)" arbitrary: sq s rule: less_induct)
  case less
  let ?p = "dir @ [temp_name pid sq (subsec_nanos s)]"
  obtain r s1 where r: "fs_create_new s ?p = (r, s1)" by (cases "fs_create_new s ?p")
  show ?case
  proof (cases "\<exists>e. r = Inl e \<and> io_kind e = AlreadyExists")
    case True
    then obtain e where e: "r = Inl e" "io_kind e = AlreadyExists" by blast
    obtain k where "key_of s ?p = Some k" "node_at s k \<noteq> None" and s1: "s1 = snd (take_fault s)"
      using fs_create_new_exists [OF r [unfolded e(1)] e(2)] by blast
    then have "card (taken_names pid s1 (Suc sq)) < card (taken_names pid s sq)"
      using taken_names_less by (simp add: taken_names_def)
    from less [OF this] e r show ?thesis
      by (subst create_temp.simps) (simp add: Let_def)
  next
    case False
    with r show ?thesis
      by (subst create_temp.simps) (auto simp: Let_def split: sum.split)
  qed
qed

text \<open>What \<open>create_temp\<close> returns: a fresh empty file beside the destination, or nothing changed.\<close>

definition temp_result :: "path \<Rightarrow> fs \<Rightarrow> (io_error + (path \<times> path)) \<times> nat \<times> fs \<Rightarrow> bool" where
  "temp_result dir s y \<longleftrightarrow>
     (case y of
        (Inl _, _, s1) \<Rightarrow> node_at s1 = node_at s
      | (Inr (p, h), _, s1) \<Rightarrow>
          (\<exists>name. p = dir @ [name] \<and> starts_with name ''.tmp-'') \<and> key_of s p = Some h \<and>
          node_at s h = None \<and> (\<exists>t. node_at s1 = (node_at s)(h \<mapsto> File [] t)))"

lemma fs_create_new_spec:
  assumes "fs_create_new s p = (r, s1)"
  shows "case r of Inl _ \<Rightarrow> node_at s1 = node_at s
    | Inr h \<Rightarrow> key_of s p = Some h \<and> node_at s h = None \<and> (\<exists>t. node_at s1 = (node_at s)(h \<mapsto> File [] t))"
proof -
  obtain f s0 where f: "take_fault s = (f, s0)" by (cases "take_fault s")
  then have s0: "node_at s0 = node_at s" "key_of s0 p = key_of s p"
    using take_fault_props(1) [of s] key_of_cong [of s0 s p] by (simp_all add: dirlink_def fun_eq_iff)
  show ?thesis
  proof (cases f)
    case (Some n)
    with assms f s0 show ?thesis by (auto simp: fs_create_new_def)
  next
    case None
    show ?thesis
    proof (cases "key_of s p")
      case None
      with \<open>f = None\<close> assms f s0 show ?thesis by (auto simp: fs_create_new_def)
    next
      case (Some k)
      have "k \<noteq> []" using key_of_not_Nil [OF Some] .
      with Some \<open>f = None\<close> assms f s0 show ?thesis
        by (auto simp: fs_create_new_def fun_eq_iff split: if_splits)
    qed
  qed
qed

lemma create_temp_spec:
  assumes "create_temp pid dir sq s = Some y" shows "temp_result dir s y"
  using assms
proof (rule create_temp.raw_induct [where P = "\<lambda>pid dir sq s y. temp_result dir s y", rotated])
  fix loop pid dir sq s y
  let ?p = "dir @ [temp_name pid sq (subsec_nanos s)]"
  assume IH: "\<And>pid dir sq s y. loop pid dir sq s = Some y \<Longrightarrow> temp_result dir s y"
    and step: "(let p = ?p in
      case fs_create_new s p of (r, s1) \<Rightarrow>
        (case r of
           Inr handle \<Rightarrow> Some (Inr (p, handle), sq + 1, s1)
         | Inl e \<Rightarrow>
             (if io_kind e = AlreadyExists then loop pid dir (sq + 1) s1
              else Some (Inl e, sq + 1, s1)))) = Some y"
  obtain r s1 where r: "fs_create_new s ?p = (r, s1)" by (cases "fs_create_new s ?p")
  note spec = fs_create_new_spec [OF r]
  have name: "starts_with (temp_name pid sq (subsec_nanos s)) ''.tmp-''"
    by (simp add: temp_name_def starts_with_def)
  show "temp_result dir s y"
  proof (cases r)
    case (Inr h)
    with step r spec name show ?thesis by (auto simp: temp_result_def)
  next
    case (Inl e)
    then have same: "node_at s1 = node_at s" using spec by simp
    have keys: "key_of s1 = key_of s"
      by (rule ext, rule key_of_cong) (simp add: dirlink_def fun_eq_iff same)
    have "temp_result dir s1 y \<longleftrightarrow> temp_result dir s y"
      unfolding temp_result_def same keys ..
    with Inl step r same IH [of pid dir "sq + 1" s1 y] show ?thesis
      by (auto simp: temp_result_def [of dir s "(Inl e, _, s1)"] split: if_splits)
  qed
qed

subsection \<open>Publishing is atomic\<close>

lemma take_fault_node: "take_fault s = (f, s1) \<Longrightarrow> node_at s1 = node_at s"
  using take_fault_props(1) [of s] by simp

lemma fs_write_all_spec:
  assumes "fs_write_all s h data = (r, s1)" and "h \<noteq> []"
  shows "\<exists>d t. node_at s1 = (node_at s)(h \<mapsto> File d t) \<and> (case r of Inl _ \<Rightarrow> True | Inr _ \<Rightarrow> d = data)"
proof -
  obtain f s0 where f: "take_fault s = (f, s0)" by (cases "take_fault s")
  from assms f take_fault_node [OF f] show ?thesis
    by (cases f) (auto simp: fs_write_all_def fun_eq_iff)
qed

lemma fs_sync_spec: "fs_sync s = (r, s1) \<Longrightarrow> node_at s1 = node_at s"
proof -
  assume a: "fs_sync s = (r, s1)"
  obtain f s0 where f: "take_fault s = (f, s0)" by (cases "take_fault s")
  from a f take_fault_node [OF f] show ?thesis by (cases f) (auto simp: fs_sync_def)
qed

lemma keys_cong: "node_at s1 = node_at s \<Longrightarrow> key_of s1 = key_of s"
  by (rule ext, rule key_of_cong) (simp add: dirlink_def fun_eq_iff)

lemma fs_rename_spec:
  assumes "fs_rename s src dst = (r, s1)" and "key_of s src = Some a" and "key_of s dst = Some b"
    and "node_at s a = Some n"
  shows "case r of Inl _ \<Rightarrow> node_at s1 = node_at s | Inr _ \<Rightarrow> node_at s1 = (node_at s)(a := None, b \<mapsto> n)"
proof -
  obtain f s0 where f: "take_fault s = (f, s0)" by (cases "take_fault s")
  note same = take_fault_node [OF f]
  have "a \<noteq> []" "b \<noteq> []" using assms(2,3) key_of_not_Nil by blast+
  with assms f same keys_cong [OF same] show ?thesis
    by (cases f) (auto simp: fs_rename_def fun_eq_iff split: option.splits node.splits)
qed

lemma fs_remove_file_spec:
  assumes "fs_remove_file s p = (r, s1)" and "key_of s p = Some k"
  shows "node_at s1 = node_at s \<or> node_at s1 = (node_at s)(k := None)"
proof -
  obtain f s0 where f: "take_fault s = (f, s0)" by (cases "take_fault s")
  note same = take_fault_node [OF f]
  have "k \<noteq> []" using assms(2) key_of_not_Nil by blast
  with assms f same keys_cong [OF same] show ?thesis
    by (cases f) (auto simp: fs_remove_file_def fun_eq_iff split: option.splits node.splits)
qed

lemma key_of_put_file:
  assumes "node_at s h = None \<or> (\<exists>d t. node_at s h = Some (File d t))"
    and "node_at s1 = (node_at s)(h \<mapsto> File d t)"
  shows "key_of s1 = key_of s"
  using assms by (intro ext key_of_cong) (auto simp: dirlink_def fun_eq_iff)

lemma write_and_rename_spec:
  assumes "write_and_rename tmp h dest data s = (r, s')"
    and "key_of s tmp = Some h" and "key_of s dest = Some k" and "h \<noteq> k"
    and "node_at s h = Some (File [] t0)"
  shows "case r of
      Inr _ \<Rightarrow> (\<exists>t. node_at s' = (node_at s)(h := None, k \<mapsto> File data t))
    | Inl _ \<Rightarrow> (\<exists>d t. node_at s' = (node_at s)(h \<mapsto> File d t)) \<and> key_of s' = key_of s"
proof -
  obtain r1 s1 where w: "fs_write_all s h data = (r1, s1)" by (cases "fs_write_all s h data")
  have "h \<noteq> []" using assms(2) key_of_not_Nil by blast
  from fs_write_all_spec [OF w this] obtain d t where s1: "node_at s1 = (node_at s)(h \<mapsto> File d t)"
    and d: "case r1 of Inl _ \<Rightarrow> True | Inr _ \<Rightarrow> d = data" by blast
  have k1: "key_of s1 = key_of s" by (rule key_of_put_file [OF _ s1]) (use assms(5) in blast)
  show ?thesis
  proof (cases r1)
    case (Inl e)
    then have "r = Inl e" "s' = s1" using assms(1) w by (auto simp: write_and_rename_def and_then_def)
    with s1 k1 show ?thesis by auto
  next
    case (Inr u)
    obtain r2 s2 where y: "fs_sync s1 = (r2, s2)" by (cases "fs_sync s1")
    note s2 = fs_sync_spec [OF y]
    have k2: "key_of s2 = key_of s" using keys_cong [OF s2] k1 by simp
    show ?thesis
    proof (cases r2)
      case (Inl e)
      then have "r = Inl e" "s' = s2" using assms(1) w Inr y by (auto simp: write_and_rename_def and_then_def)
      with s1 s2 k2 show ?thesis by auto
    next
      case r2: (Inr u')
      then have rn: "fs_rename s2 tmp dest = (r, s')"
        using assms(1) w Inr y by (simp add: write_and_rename_def and_then_def)
      have "node_at s2 h = Some (File data t)" using s1 s2 d Inr by simp
      note spec = fs_rename_spec [OF rn, unfolded k2, OF assms(2,3) this]
      show ?thesis
      proof (cases r)
        case (Inl e)
        with spec have same: "node_at s' = node_at s2" by simp
        from Inl same s1 s2 k2 keys_cong [OF same] show ?thesis by auto
      next
        case (Inr u)
        with spec s1 s2 have "node_at s' = (node_at s)(h := None, k \<mapsto> File data t)" by simp
        with Inr show ?thesis by auto
      qed
    qed
  qed
qed

text \<open>C4. Cache, publish: it returns; on success the destination holds exactly the published bytes
  and every other name is as before; on failure every name but the private temporary file is as
  before, so the destination never holds a partial file and nothing is written through a link.\<close>

theorem publish_atomic:
  assumes "key_of s dest = Some k" and "\<not> starts_with (last dest) ''.tmp-''"
  shows "\<exists>r sq' s'. publish pid dest data sq s = Some (r, sq', s') \<and>
    (case r of
       Inr _ \<Rightarrow> (\<exists>t. node_at s' = (node_at s)(k \<mapsto> File data t))
     | Inl _ \<Rightarrow> (\<exists>h. h \<noteq> k \<and> (\<forall>q. q \<noteq> h \<longrightarrow> node_at s' q = node_at s q) \<and> starts_with (last h) ''.tmp-'') \<or>
                node_at s' = node_at s)"
proof -
  obtain rc sq1 s1 where c: "create_temp pid (butlast dest) sq s = Some (rc, sq1, s1)"
    using create_temp_returns [of pid "butlast dest" sq s] by auto
  note spec = create_temp_spec [OF c]
  show ?thesis
  proof (cases rc)
    case (Inl e)
    with spec c show ?thesis by (simp add: publish_def temp_result_def)
  next
    case (Inr ph)
    obtain p h where ph: "ph = (p, h)" by (cases ph)
    from spec Inr ph obtain name t where p: "p = butlast dest @ [name]" "starts_with name ''.tmp-''"
      and h: "key_of s p = Some h" "node_at s h = None" and s1: "node_at s1 = (node_at s)(h \<mapsto> File [] t)"
      by (auto simp: temp_result_def)
    have last: "last h = name" "last k = last dest"
      using h(1) p(1) assms(1) by (auto simp: key_of_def split: if_splits)
    then have neq: "h \<noteq> k" using p(2) assms(2) by auto
    have keys: "key_of s1 = key_of s" by (rule key_of_put_file [OF _ s1]) (simp add: h(2))
    obtain r2 s2 where wr: "write_and_rename p h dest data s1 = (r2, s2)"
      by (cases "write_and_rename p h dest data s1")
    note wspec = write_and_rename_spec [OF wr, unfolded keys, OF h(1) assms(1) neq, of t] s1
    show ?thesis
    proof (cases r2)
      case (Inr u)
      obtain r3 s3 where y: "fs_sync s2 = (r3, s3)" by (cases "fs_sync s2")
      have "\<exists>t'. node_at s2 = (node_at s)(k \<mapsto> File data t')"
        using wspec Inr h(2) fun_upd_idem [of "node_at s" h None] by fastforce
      then have "\<exists>t'. node_at s3 = (node_at s)(k \<mapsto> File data t')" using fs_sync_spec [OF y] by simp
      moreover have "publish pid dest data sq s = Some (Inr (), sq1, s3)"
        using c \<open>rc = Inr ph\<close> ph wr Inr y by (simp add: publish_def)
      ultimately show ?thesis by auto
    next
      case (Inl e)
      with wspec obtain d t' where s2: "node_at s2 = (node_at s)(h \<mapsto> File d t')" and k2: "key_of s2 = key_of s"
        using keys by auto
      obtain r3 s3 where rm: "fs_remove_file s2 p = (r3, s3)" by (cases "fs_remove_file s2 p")
      have "publish pid dest data sq s = Some (Inl e, sq1, s3)"
        using c \<open>rc = Inr ph\<close> ph wr Inl rm by (simp add: publish_def)
      moreover have "\<forall>q. q \<noteq> h \<longrightarrow> node_at s3 q = node_at s q"
        using fs_remove_file_spec [OF rm, of h] s2 k2 h(1) by auto
      ultimately show ?thesis using neq last p(2) by auto
    qed
  qed
qed

text \<open>A cache directory with a planted link and two files.\<close>

definition demo_fs :: fs where
  "demo_fs =
     \<lparr>fs_nodes = [([''c''], Directory 0), ([''c'', ''a.img''], Link True [''etc'', ''passwd'']),
        ([''c'', ''old.img''], File ''old!'' 1), ([''c'', ''new.img''], File ''new!'' 9)],
      fs_denied = [], fs_faults = [], fs_now = 10\<rparr>"

lemma demo_dir: "dir_of demo_fs [''c''] = Some [''c'']"
  by (simp add: dir_of_def demo_fs_def dirlink_def node_at_def)

lemma demo_key: "key_of demo_fs [''c'', n] = Some [''c'', n]"
  by (simp add: key_of_def demo_dir)

theorem publish_atomic_witness:
  "\<exists>r sq' s'. publish 7 [''c'', ''a.img''] ''data'' 0 demo_fs = Some (r, sq', s') \<and>
    (case r of
       Inr _ \<Rightarrow> (\<exists>t. node_at s' = (node_at demo_fs)([''c'', ''a.img''] \<mapsto> File ''data'' t))
     | Inl _ \<Rightarrow> (\<exists>h. h \<noteq> [''c'', ''a.img''] \<and> (\<forall>q. q \<noteq> h \<longrightarrow> node_at s' q = node_at demo_fs q) \<and>
                     starts_with (last h) ''.tmp-'') \<or>
                node_at s' = node_at demo_fs)"
  by (rule publish_atomic [OF demo_key]) (simp add: starts_with_def)

lemma hex_digit_not_dot: "n < 16 \<Longrightarrow> hex_digit n \<noteq> CHR ''.''"
  by (auto simp: hex_digit_def char_of_eq_iff take_bit_eq_mod)

lemma cache_path_not_temp:
  assumes "\<forall>b \<in> set (digest u). b < 256"
  shows "\<not> starts_with (last (cache_path digest dir u)) ''.tmp-''"
proof (cases "digest u")
  case Nil
  then show ?thesis by (simp add: cache_path_def starts_with_def)
next
  case (Cons b bs)
  with assms have "b div 16 < 16" by auto
  with Cons show ?thesis
    using hex_digit_not_dot by (auto simp: cache_path_def starts_with_def hex_byte_def)
qed

subsection \<open>Eviction keeps the budget\<close>

definition is_file :: "node option \<Rightarrow> bool" where
  "is_file n = (case n of Some (File _ _) \<Rightarrow> True | _ \<Rightarrow> False)"

lemma is_file_iff: "is_file n \<longleftrightarrow> (\<exists>data t. n = Some (File data t))"
  by (auto simp: is_file_def split: option.splits node.splits)

fun dels :: "path list \<Rightarrow> fs \<Rightarrow> fs" where
  "dels [] s = s"
| "dels (k # ks) s = dels ks (del_node k s)"

lemma dels_append: "dels (xs @ ys) s = dels ys (dels xs s)"
  by (induction xs arbitrary: s) simp_all

lemma dels_frame [simp]:
  "fs_denied (dels ks s) = fs_denied s" "fs_faults (dels ks s) = fs_faults s" "fs_now (dels ks s) = fs_now s"
  by (induction ks arbitrary: s) simp_all

lemma node_at_dels: "[] \<notin> set ks \<Longrightarrow> node_at (dels ks s) p = (if p \<in> set ks then None else node_at s p)"
  by (induction ks arbitrary: s) auto

lemma dirlink_dels: "[] \<notin> set ks \<Longrightarrow> \<forall>k \<in> set ks. is_file (node_at s k) \<Longrightarrow> dirlink (dels ks s) = dirlink s"
  by (rule ext) (fastforce simp: dirlink_def node_at_dels is_file_iff split: option.splits)

text \<open>The setting: no faults, and every visible name that is not a link is a readable file.\<close>

definition evictable :: "fs \<Rightarrow> path \<Rightarrow> string \<Rightarrow> bool" where
  "evictable s d n \<longleftrightarrow> \<not> starts_with n ''.'' \<and> is_file (node_at s (d @ [n])) \<and> d @ [n] \<notin> set (fs_denied s)"

definition quiet_dir :: "fs \<Rightarrow> path \<Rightarrow> path \<Rightarrow> bool" where
  "quiet_dir s dir d \<longleftrightarrow> fs_faults s = [] \<and> dir_of s dir = Some d"

lemma remove_evictable:
  assumes "quiet_dir s dir d" and "is_file (node_at s (d @ [n]))"
  shows "snd (fs_remove_file s (dir @ [n])) = del_node (d @ [n]) s"
proof -
  have "key_of s (dir @ [n]) = Some (d @ [n])"
    using assms(1) by (simp add: quiet_dir_def key_of_def)
  with assms show ?thesis
    by (auto simp: fs_remove_file_def take_fault_def quiet_dir_def is_file_def
        split: option.splits node.splits)
qed

lemma quiet_dels:
  assumes "quiet_dir s dir d" and "[] \<notin> set ks" and "\<forall>k \<in> set ks. is_file (node_at s k)"
  shows "quiet_dir (dels ks s) dir d"
  using assms dir_of_cong [OF dirlink_dels [OF assms(2,3)]] by (simp add: quiet_dir_def)

definition file_len :: "node option \<Rightarrow> nat" where
  "file_len n = (case n of Some (File data _) \<Rightarrow> length data | _ \<Rightarrow> 0)"

definition file_mtime :: "node option \<Rightarrow> int" where
  "file_mtime n = (case n of Some (File _ t) \<Rightarrow> t | _ \<Rightarrow> 0)"

definition aged :: "fs \<Rightarrow> path \<Rightarrow> int \<Rightarrow> cache_limits \<Rightarrow> string \<Rightarrow> bool" where
  "aged s d now limits n \<longleftrightarrow> evict_age now (file_mtime (node_at s (d @ [n]))) > max_age limits"

definition entry_of :: "fs \<Rightarrow> path \<Rightarrow> path \<Rightarrow> string \<Rightarrow> entry" where
  "entry_of s dir d n = (file_mtime (node_at s (d @ [n])), file_len (node_at s (d @ [n])), dir @ [n])"

lemma symlink_metadata_at:
  assumes "quiet_dir s dir d"
  shows "fs_symlink_metadata s (dir @ [n]) = meta_at s (d @ [n])"
  using assms by (simp add: fs_symlink_metadata_def key_of_def quiet_dir_def)

definition scannable :: "fs \<Rightarrow> path \<Rightarrow> string \<Rightarrow> bool" where
  "scannable s d n \<longleftrightarrow>
     starts_with n ''.'' \<or> evictable s d n \<or> (\<exists>ab t. node_at s (d @ [n]) = Some (Link ab t))"

lemma evictable_cong:
  "node_at s' (d @ [n]) = node_at s (d @ [n]) \<Longrightarrow> fs_denied s' = fs_denied s \<Longrightarrow>
     evictable s' d n = evictable s d n \<and> aged s' d now limits n = aged s d now limits n \<and>
     entry_of s' dir d n = entry_of s dir d n \<and> scannable s' d n = scannable s d n"
  by (simp add: evictable_def aged_def entry_of_def scannable_def)

lemma evict_scan_spec:
  assumes "quiet_dir s dir d" "distinct names" "\<forall>n \<in> set names. scannable s d n"
  shows "evict_scan dir now limits names s =
    (map (entry_of s dir d) (filter (\<lambda>n. evictable s d n \<and> \<not> aged s d now limits n) names),
     dels (map (\<lambda>n. d @ [n]) (filter (\<lambda>n. evictable s d n \<and> aged s d now limits n) names)) s)"
  using assms
proof (induction names arbitrary: s)
  case (Cons n ns)
  note meta = symlink_metadata_at [OF Cons.prems(1), of n]
  show ?case
  proof (cases "evictable s d n")
    case False
    then have skip: "evict_scan dir now limits (n # ns) s = evict_scan dir now limits ns s"
      using Cons.prems(3) by (auto simp: meta meta_at_def scannable_def)
    with False Cons show ?thesis by (simp del: evict_scan.simps)
  next
    case True
    then obtain data t where nd: "node_at s (d @ [n]) = Some (File data t)"
      by (auto simp: evictable_def is_file_iff)
    have m: "fs_symlink_metadata s (dir @ [n]) =
        Inr \<lparr>md_type = RegularFile, md_len = length data, md_mtime = t\<rparr>"
      and dot: "\<not> starts_with n ''.''"
      using True nd by (auto simp: meta meta_at_def evictable_def)
    show ?thesis
    proof (cases "aged s d now limits n")
      case False
      have "evict_scan dir now limits ns s =
        (map (entry_of s dir d) (filter (\<lambda>n. evictable s d n \<and> \<not> aged s d now limits n) ns),
         dels (map (\<lambda>n. d @ [n]) (filter (\<lambda>n. evictable s d n \<and> aged s d now limits n) ns)) s)"
        using Cons by simp
      with True False m dot nd show ?thesis
        by (simp add: aged_def entry_of_def file_mtime_def file_len_def)
    next
      case old: True
      let ?s = "del_node (d @ [n]) s"
      have rm: "snd (fs_remove_file s (dir @ [n])) = ?s"
        by (rule remove_evictable [OF Cons.prems(1)]) (simp add: nd is_file_iff)
      have q: "quiet_dir ?s dir d"
        using quiet_dels [OF Cons.prems(1), of "[d @ [n]]"] nd by (simp add: is_file_iff)
      have others: "node_at ?s (d @ [m]) = node_at s (d @ [m])" if "m \<in> set ns" for m
        using that Cons.prems(2) by auto
      note cong = evictable_cong [OF others, simplified, of _ now limits dir]
      have "\<forall>m \<in> set ns. scannable ?s d m" using Cons.prems(3) cong by simp
      from Cons.IH [OF q _ this] Cons.prems(2)
      have IH: "evict_scan dir now limits ns ?s =
          (map (entry_of ?s dir d) (filter (\<lambda>n. evictable ?s d n \<and> \<not> aged ?s d now limits n) ns),
           dels (map (\<lambda>n. d @ [n]) (filter (\<lambda>n. evictable ?s d n \<and> aged ?s d now limits n) ns)) ?s)"
        by simp
      have f: "filter (\<lambda>n. evictable ?s d n \<and> \<not> aged ?s d now limits n) ns =
            filter (\<lambda>n. evictable s d n \<and> \<not> aged s d now limits n) ns"
          "filter (\<lambda>n. evictable ?s d n \<and> aged ?s d now limits n) ns =
            filter (\<lambda>n. evictable s d n \<and> aged s d now limits n) ns"
        using cong by (auto intro!: filter_cong)
      have e: "map (entry_of ?s dir d) (filter (\<lambda>n. evictable s d n \<and> \<not> aged s d now limits n) ns) =
          map (entry_of s dir d) (filter (\<lambda>n. evictable s d n \<and> \<not> aged s d now limits n) ns)"
        using cong by (intro map_cong) auto
      show ?thesis
        using True old m dot rm nd by (simp add: IH f e) (simp add: aged_def file_mtime_def)
    qed
  qed
qed simp

text \<open>Trimming removes the shortest prefix of the sorted entries that meets both budgets.\<close>

definition total_len :: "entry list \<Rightarrow> nat" where
  "total_len es = sum_list (map (\<lambda>e. fst (snd e)) es)"

definition in_budget :: "cache_limits \<Rightarrow> entry list \<Rightarrow> bool" where
  "in_budget limits es \<longleftrightarrow> total_len es \<le> max_bytes limits \<and> length es \<le> max_entries limits"

lemma evict_trim_spec:
  assumes "quiet_dir s dir d" "distinct ns" "\<forall>n \<in> set ns. is_file (node_at s (d @ [n]))"
    and "map (\<lambda>e. snd (snd e)) es = map (\<lambda>n. dir @ [n]) ns"
  shows "\<exists>j \<le> length es. evict_trim limits es (total_len es) (length es) s = dels (map (\<lambda>n. d @ [n]) (take j ns)) s \<and>
    in_budget limits (drop j es) \<and> (\<forall>i < j. \<not> in_budget limits (drop i es))"
  using assms
proof (induction es arbitrary: ns s)
  case Nil
  then show ?case by (simp add: in_budget_def total_len_def)
next
  case (Cons e es)
  obtain t l p where e: "e = (t, l, p)" by (cases e)
  from Cons.prems(4) obtain n ns' where ns: "ns = n # ns'" and p: "p = dir @ [n]"
    and es: "map (\<lambda>e. snd (snd e)) es = map (\<lambda>n. dir @ [n]) ns'"
    by (cases ns) (auto simp: e)
  show ?case
  proof (cases "in_budget limits (e # es)")
    case True
    then have "evict_trim limits (e # es) (total_len (e # es)) (length (e # es)) s = s"
      by (simp add: e in_budget_def)
    with True show ?thesis by (intro exI [of _ 0]) simp
  next
    case False
    let ?s = "del_node (d @ [n]) s"
    have isf: "is_file (node_at s (d @ [n]))" using Cons.prems(3) ns by simp
    have q: "quiet_dir ?s dir d" using quiet_dels [OF Cons.prems(1), of "[d @ [n]]"] isf by simp
    have "\<forall>m \<in> set ns'. is_file (node_at ?s (d @ [m]))" using Cons.prems(2,3) ns by auto
    then obtain j where j: "j \<le> length es"
      "evict_trim limits es (total_len es) (length es) ?s = dels (map (\<lambda>n. d @ [n]) (take j ns')) ?s"
      "in_budget limits (drop j es)" "\<forall>i < j. \<not> in_budget limits (drop i es)"
      using Cons.IH [OF q _ _ es] Cons.prems(2) ns by auto
    have "evict_trim limits (e # es) (total_len (e # es)) (length (e # es)) s =
        evict_trim limits es (total_len es) (length es) ?s"
      using False remove_evictable [OF Cons.prems(1) isf]
      by (auto simp: e p in_budget_def total_len_def)
    with j False ns show ?thesis
      by (intro exI [of _ "Suc j"]) (auto simp: less_Suc_eq_0_disj)
  qed
qed

lemma sort_map_key: "sort (map f xs) = map f (sort_key f xs)"
  by (rule properties_for_sort) (simp_all only: mset_map mset_sort sorted_sort_key)

lemma in_budget_mset:
  assumes "mset xs = mset ys" shows "in_budget limits xs = in_budget limits ys"
proof -
  have "sum_mset (image_mset (\<lambda>e. fst (snd e)) (mset xs)) = sum_mset (image_mset (\<lambda>e. fst (snd e)) (mset ys))"
    using assms by simp
  then have "total_len xs = total_len ys"
    by (simp only: total_len_def sum_mset_sum_list flip: mset_map)
  moreover have "length xs = length ys" using assms by (rule mset_eq_length)
  ultimately show ?thesis by (simp add: in_budget_def)
qed

lemma in_budget_sort [simp]: "in_budget limits (sort es) = in_budget limits es"
  by (rule in_budget_mset) simp

definition kept_names :: "fs \<Rightarrow> path \<Rightarrow> string list \<Rightarrow> string list" where
  "kept_names s d names = filter (evictable s d) names"

lemma evict_spec:
  assumes q: "quiet_dir s dir d" and names: "fs_read_dir s dir = Inr names" and dist: "distinct names"
    and scan: "\<forall>n \<in> set names. scannable s d n"
  obtains gone kept where "evict dir now limits s = dels (map (\<lambda>n. d @ [n]) gone) s"
    "distinct kept" "set kept \<inter> set gone = {}"
    "set gone \<union> set kept = set (kept_names s d names)"
    "in_budget limits (map (entry_of s dir d) kept)"
    "\<forall>n \<in> set kept. \<not> aged s d now limits n"
    "\<forall>n \<in> set gone. aged s d now limits n \<or> (\<forall>k \<in> set kept. entry_of s dir d n \<le> entry_of s dir d k)"
    "in_budget limits (map (entry_of s dir d) (filter (\<lambda>n. \<not> aged s d now limits n) (kept_names s d names))) \<Longrightarrow>
       \<forall>n \<in> set gone. aged s d now limits n"
proof -
  let ?old = "filter (\<lambda>n. evictable s d n \<and> aged s d now limits n) names"
  let ?young = "filter (\<lambda>n. evictable s d n \<and> \<not> aged s d now limits n) names"
  let ?f = "entry_of s dir d" and ?path = "\<lambda>n. d @ [n]"
  let ?s1 = "dels (map ?path ?old) s" and ?ns = "sort_key ?f ?young"
  note sc = evict_scan_spec [OF q dist scan, of now limits]
  have files: "is_file (node_at s (d @ [n]))" if "evictable s d n" for n
    using that by (simp add: evictable_def)
  have q1: "quiet_dir ?s1 dir d" by (rule quiet_dels [OF q]) (auto simp: files)
  have f1: "\<forall>n \<in> set ?ns. is_file (node_at ?s1 (d @ [n]))"
    by (auto simp: node_at_dels files image_iff)
  have paths: "map (\<lambda>e. snd (snd e)) (sort (map ?f ?young)) = map (\<lambda>n. dir @ [n]) ?ns"
    by (simp add: sort_map_key comp_def entry_of_def [abs_def])
  obtain j where j: "evict_trim limits (sort (map ?f ?young)) (total_len (sort (map ?f ?young)))
        (length (sort (map ?f ?young))) ?s1 = dels (map ?path (take j ?ns)) ?s1"
      "in_budget limits (drop j (sort (map ?f ?young)))"
      "\<forall>i < j. \<not> in_budget limits (drop i (sort (map ?f ?young)))"
    using evict_trim_spec [OF q1 _ f1 paths, of limits] dist by auto
  have ev: "evict dir now limits s = dels (map ?path (?old @ take j ?ns)) s"
    using names sc j(1) by (simp add: evict_def dels_append total_len_def)
  define T D where TD: "T = take j ?ns" "D = drop j ?ns"
  have ns: "?ns = T @ D" by (simp add: TD)
  have "distinct (T @ D)" using dist by (simp flip: ns)
  then have dD: "distinct D" and dis: "set T \<inter> set D = {}" by simp_all
  have "set (T @ D) = set ?young" by (simp only: set_sort flip: ns)
  then have setj: "n \<in> set T \<or> n \<in> set D \<longleftrightarrow> n \<in> set names \<and> evictable s d n \<and> \<not> aged s d now limits n" for n
    by (auto simp: set_eq_iff)
  have "sorted (map ?f (T @ D))" by (simp only: sorted_sort_key flip: ns)
  then have sorted: "\<forall>n \<in> set T. \<forall>k \<in> set D. ?f n \<le> ?f k" by (simp add: sorted_append)
  show thesis
  proof (rule that [of "?old @ T" D])
    show "evict dir now limits s = dels (map ?path (?old @ T)) s" using ev by (simp only: TD)
    show "distinct D" by (rule dD)
    show "set D \<inter> set (?old @ T) = {}" using dis setj by auto
    show "set (?old @ T) \<union> set D = set (kept_names s d names)"
      using setj by (auto simp: kept_names_def)
    show "in_budget limits (map ?f D)"
      using j(2) by (simp only: sort_map_key drop_map TD)
    show "\<forall>n \<in> set D. \<not> aged s d now limits n" using setj by blast
    show "\<forall>n \<in> set (?old @ T). aged s d now limits n \<or> (\<forall>k \<in> set D. ?f n \<le> ?f k)"
      using sorted by auto
  next
    assume "in_budget limits (map ?f (filter (\<lambda>n. \<not> aged s d now limits n) (kept_names s d names)))"
    then have "in_budget limits (drop 0 (sort (map ?f ?young)))"
      by (simp add: kept_names_def conj_commute)
    with j(3) have "j = 0" by blast
    then show "\<forall>n \<in> set (?old @ T). aged s d now limits n" by (auto simp: TD)
  qed
qed



end
