(* ===== verification/Local.thy ===== *)
theory Local
  imports Cache
begin

text \<open>
  Local covers (\<open>src/cover/local.rs\<close>): \<open>file://\<close> URLs confined beneath the covers directory, and
  the memoized scan for the newest image. \<open>Resolution\<close> and \<open>content_id\<close> are from
  \<open>src/cover/mod.rs\<close>.
\<close>

type_synonym content_id = "nat \<times> int"

datatype resolution =
  Ready path content_id
| Retryable string
| Rejected string

definition content_id_of :: "fs \<Rightarrow> path \<Rightarrow> io_error + content_id" where
  "content_id_of s p =
     (case fs_metadata s p of Inl e \<Rightarrow> Inl e | Inr m \<Rightarrow> Inr (md_len m, md_mtime m))"

definition ready :: "fs \<Rightarrow> path \<Rightarrow> resolution" where
  "ready s p =
     (case content_id_of s p of
        Inr cid \<Rightarrow> Ready p cid
      | Inl _ \<Rightarrow> Retryable ''cover vanished'')"

text \<open>\<open>Path::is_file\<close> follows links.\<close>

definition path_is_file :: "fs \<Rightarrow> path \<Rightarrow> bool" where
  "path_is_file s p =
     (case fs_metadata s p of Inl _ \<Rightarrow> False | Inr m \<Rightarrow> md_type m = RegularFile)"

definition path_starts_with :: "path \<Rightarrow> path \<Rightarrow> bool" where
  "path_starts_with p cover_root = (take (length cover_root) p = cover_root)"

definition resolve_file ::
  "(string \<Rightarrow> url option) \<Rightarrow> fs \<Rightarrow> string \<Rightarrow> path option \<Rightarrow> resolution" where
  "resolve_file parse s art_url cover_root =
     (case parse art_url of
        None \<Rightarrow> Rejected ''unparseable file url''
      | Some u \<Rightarrow>
          (if (case url_host_str u of None \<Rightarrow> False | Some h \<Rightarrow> h \<noteq> [] \<and> h \<noteq> ''localhost'')
           then Rejected ''file authority not permitted''
           else (case cover_root of
             None \<Rightarrow> Rejected ''no cover root for file://''
           | Some r \<Rightarrow>
               (case canonicalize s r of
                  None \<Rightarrow> Retryable ''cover root missing''
                | Some real_root \<Rightarrow>
                    (case url_to_file_path u of
                       None \<Rightarrow> Rejected ''not a local file path''
                     | Some p \<Rightarrow>
                         (case canonicalize s p of
                            None \<Rightarrow> Retryable ''local cover file missing''
                          | Some target \<Rightarrow>
                              (if \<not> path_is_file s target then Retryable ''not a regular file''
                               else if \<not> path_starts_with target real_root
                               then Rejected ''path outside cover root''
                               else ready s target)))))))"

subsection \<open>The directory scan\<close>

record dir_scanner =
  sc_memo :: "(path \<times> (int \<times> path)) list"
  sc_scans :: nat

definition dir_scanner_default :: dir_scanner where
  "dir_scanner_default = \<lparr>sc_memo = [], sc_scans = 0\<rparr>"

definition candidate :: "fs \<Rightarrow> path \<Rightarrow> string \<Rightarrow> (int \<times> path) option" where
  "candidate s dir name =
     (let p = dir @ [name] in
      case fs_symlink_metadata s p of
        Inl _ \<Rightarrow> None
      | Inr m \<Rightarrow>
          (if md_type m \<noteq> RegularFile then None
           else (case fs_read_prefix s p 12 of
             Inl _ \<Rightarrow> None
           | Inr header \<Rightarrow> if looks_like_image header then Some (md_mtime m, p) else None)))"

text \<open>The loop over the candidates: strictly newer wins.\<close>

fun newest :: "(int \<times> path) option \<Rightarrow> (int \<times> path) list \<Rightarrow> (int \<times> path) option" where
  "newest best [] = best"
| "newest best (c # cs) =
     newest (case best of None \<Rightarrow> Some c | Some b \<Rightarrow> if fst c > fst b then Some c else Some b) cs"

definition forget :: "path \<Rightarrow> dir_scanner \<Rightarrow> dir_scanner" where
  "forget dir sc = sc\<lparr>sc_memo := AList.delete dir (sc_memo sc)\<rparr>"

definition full_scan :: "fs \<Rightarrow> path \<Rightarrow> int \<Rightarrow> dir_scanner \<Rightarrow> resolution \<times> dir_scanner" where
  "full_scan s dir dir_mtime sc =
     (let sc = sc\<lparr>sc_scans := sc_scans sc + 1\<rparr> in
      case fs_read_dir s dir of
        Inl _ \<Rightarrow> (Retryable ''covers dir unreadable'', forget dir sc)
      | Inr names \<Rightarrow>
          (case newest None (List.map_filter (candidate s dir) names) of
             None \<Rightarrow> (Retryable ''no cover in dir yet'', forget dir sc)
           | Some (_, p) \<Rightarrow>
               (ready s p, sc\<lparr>sc_memo := AList.update dir (dir_mtime, p) (sc_memo sc)\<rparr>)))"

definition scan :: "fs \<Rightarrow> path \<Rightarrow> dir_scanner \<Rightarrow> resolution \<times> dir_scanner" where
  "scan s dir sc =
     (case fs_metadata s dir of
        Inl _ \<Rightarrow> (Retryable ''covers dir missing'', forget dir sc)
      | Inr m \<Rightarrow>
          (let dir_mtime = md_mtime m in
           case map_of (sc_memo sc) dir of
             Some (t, p) \<Rightarrow>
               (if t = dir_mtime then
                  (case content_id_of s p of
                     Inr cid \<Rightarrow> (Ready p cid, sc)
                   | Inl _ \<Rightarrow> full_scan s dir dir_mtime (forget dir sc))
                else full_scan s dir dir_mtime sc)
           | None \<Rightarrow> full_scan s dir dir_mtime sc))"

subsection \<open>Confinement\<close>

text \<open>
  Where a resolved local cover lives: a regular file whose every directory is real (no link is
  crossed), at or beneath the real root.
\<close>

definition confined :: "fs \<Rightarrow> path \<Rightarrow> path \<Rightarrow> bool" where
  "confined s cover_root p \<longleftrightarrow>
     (\<exists>rest. p = cover_root @ rest) \<and> real_dir s (butlast p) \<and> is_file (node_at s p)"

lemma starts_with_append: "path_starts_with p cover_root \<longleftrightarrow> (\<exists>rest. p = cover_root @ rest)"
  by (auto simp: path_starts_with_def) (metis append_take_drop_id)

lemma walk_dirs:
  "(\<forall>c \<in> set cs. c \<noteq> ''.'' \<and> c \<noteq> ''..'') \<Longrightarrow> real_dir s (cur @ cs) \<Longrightarrow>
     walk n (dirlink s) cur cs = Some (cur @ cs)"
proof (induction cs arbitrary: cur)
  case (Cons c cs)
  have "\<exists>t. node_at s (cur @ [c]) = Some (Directory t)"
    using Cons.prems(2) real_dirD [of s "cur @ [c]" cs] by simp
  with Cons show ?case by (auto simp: dirlink_def)
qed simp

definition names_ok :: "fs \<Rightarrow> bool" where
  "names_ok s \<longleftrightarrow> (\<forall>k c. k \<in> fst ` set (fs_nodes s) \<longrightarrow> c \<in> set k \<longrightarrow> c \<noteq> ''.'' \<and> c \<noteq> ''..'')"

lemma names_okD:
  "names_ok s \<Longrightarrow> node_at s k \<noteq> None \<Longrightarrow> c \<in> set k \<Longrightarrow> c \<noteq> ''.'' \<and> c \<noteq> ''..''"
  by (force simp: names_ok_def node_at_def split: if_splits dest: map_of_SomeD)

lemma dir_of_real_dir:
  assumes "names_ok s" and "real_dir s d" shows "dir_of s d = Some d"
proof -
  have "node_at s d \<noteq> None" using real_dirD [of s d "[]"] assms(2) by auto
  then have "\<forall>c \<in> set d. c \<noteq> ''.'' \<and> c \<noteq> ''..''" using names_okD [OF assms(1)] by blast
  then show ?thesis using walk_dirs [of d s "[]"] assms(2) by (simp add: dir_of_def)
qed

text \<open>A canonical path is its own canonical path.\<close>

lemma canonicalize_idem:
  assumes "names_ok s" and "canonicalize s p = Some k"
  shows "canonicalize s k = Some k"
proof (cases "dir_of s p")
  case (Some d)
  with assms have "dir_of s k = Some k" using dir_of_real dir_of_real_dir by (auto simp: canonicalize_def)
  then show ?thesis by (simp add: canonicalize_def)
next
  case None
  then have f: "follow_file SYMLINK_LIMIT s p = Some k" using assms(2) by (simp add: canonicalize_def)
  from follow_file_real [OF f] obtain data t where k: "real_dir s (butlast k)" "k \<noteq> []"
    "node_at s k = Some (File data t)" by blast
  have "dir_of s k \<noteq> Some d" for d
  proof
    assume d: "dir_of s k = Some d"
    have dots: "\<forall>c \<in> set k. c \<noteq> ''.'' \<and> c \<noteq> ''..''" using names_okD [OF assms(1), of k] k(3) by blast
    have "walk n (dirlink s) cur cs = None"
      if "real_dir s (cur @ butlast cs)" "cs \<noteq> []" "node_at s (cur @ cs) = Some (File data t)"
        "\<forall>c \<in> set cs. c \<noteq> ''.'' \<and> c \<noteq> ''..''" for n cur cs
      using that
    proof (induction cs arbitrary: cur)
      case (Cons c cs)
      show ?case
      proof (cases "cs = []")
        case True
        with Cons.prems show ?thesis by (simp add: dirlink_def)
      next
        case False
        then have "\<exists>t. node_at s (cur @ [c]) = Some (Directory t)"
          using Cons.prems(1) real_dirD [of s "cur @ [c]" "butlast cs"] by simp
        with Cons False show ?thesis by (auto simp: dirlink_def)
      qed
    qed simp
    from this [of "[]" k SYMLINK_LIMIT] k dots d show False by (simp add: dir_of_def)
  qed
  then have "dir_of s k = None" by (cases "dir_of s k") blast+
  moreover have "key_of s k = Some k"
    using k dir_of_real_dir [OF assms(1) k(1)] by (simp add: key_of_def)
  ultimately show ?thesis
    using k by (simp add: canonicalize_def follow_file.simps [of SYMLINK_LIMIT])
qed

lemma regular_meta [simp]: "md_type (node_meta n) = RegularFile \<longleftrightarrow> (\<exists>data t. n = File data t)"
  by (cases n) simp_all

lemma path_is_file_at:
  assumes "names_ok s" and "canonicalize s p = Some k" and "path_is_file s k"
  shows "is_file (node_at s k)"
  using assms(3) canonicalize_idem [OF assms(1,2)]
  by (auto simp: path_is_file_def fs_metadata_def meta_at_def is_file_iff
      split: sum.splits if_splits option.splits)

text \<open>C23. Local covers are confined: a \<open>file://\<close> URL that resolves names a regular file at or
  beneath the real covers root, reached through real directories only, and the identity returned is
  that file's.\<close>

theorem resolve_file_confined:
  assumes "names_ok s" and "resolve_file parse s art_url cover_root = Ready p cid"
  shows "\<exists>r real_root data t. cover_root = Some r \<and> canonicalize s r = Some real_root \<and> confined s real_root p \<and>
    node_at s p = Some (File data t) \<and> cid = (length data, t)"
proof -
  obtain u r real_root fp where r: "cover_root = Some r" "canonicalize s r = Some real_root"
    and fp: "canonicalize s fp = Some p" and isf: "path_is_file s p" and pre: "path_starts_with p real_root"
    and rd: "ready s p = Ready p cid"
    using assms(2)
    by (auto simp: resolve_file_def ready_def split: option.splits if_splits sum.splits)
  have f: "is_file (node_at s p)" by (rule path_is_file_at [OF assms(1) fp isf])
  then obtain data t where nd: "node_at s p = Some (File data t)" by (auto simp: is_file_iff)
  have "cid = (length data, t)"
    using rd nd canonicalize_idem [OF assms(1) fp]
    by (auto simp: ready_def content_id_of_def fs_metadata_def meta_at_def split: sum.splits if_splits)
  with r pre f nd canonical_file [OF fp nd] show ?thesis
    by (auto simp: confined_def starts_with_append)
qed

text \<open>A covers directory with one cover, and a URL naming it.\<close>

definition demo_file_url :: url where
  "demo_file_url =
     \<lparr>url_scheme = ''file'', url_username = [], url_password = None, url_port = None,
      url_host = None, url_host_str = None, url_to_file_path = Some [''c'', ''new.img''],
      url_as_str = ''file:///c/new.img''\<rparr>"

lemma demo_names_ok: "names_ok demo_fs"
  by (auto simp: names_ok_def demo_fs_def)

lemma demo_canonical:
  "canonicalize demo_fs [''c''] = Some [''c'']" "canonicalize demo_fs [''c'', ''new.img''] = Some [''c'', ''new.img'']"
proof -
  have "dir_of demo_fs [''c'', ''new.img''] = None"
    by (simp add: dir_of_def demo_fs_def dirlink_def node_at_def)
  moreover have "node_at demo_fs [''c'', ''new.img''] = Some (File ''new!'' 9)"
    by (simp add: demo_fs_def node_at_def)
  ultimately show "canonicalize demo_fs [''c'', ''new.img''] = Some [''c'', ''new.img'']"
    by (simp add: canonicalize_def follow_file.simps [of SYMLINK_LIMIT] demo_key)
qed (simp add: canonicalize_def demo_dir)

lemma demo_resolve_file:
  "resolve_file (\<lambda>_. Some demo_file_url) demo_fs ''file:///c/new.img'' (Some [''c'']) = Ready [''c'', ''new.img''] (4, 9)"
proof -
  have "meta_at demo_fs [''c'', ''new.img''] = Inr \<lparr>md_type = RegularFile, md_len = 4, md_mtime = 9\<rparr>"
    by (simp add: meta_at_def demo_fs_def node_at_def)
  then show ?thesis
    by (simp add: resolve_file_def demo_file_url_def demo_canonical path_is_file_def fs_metadata_def
        path_starts_with_def ready_def content_id_of_def)
qed

theorem resolve_file_confined_witness: "confined demo_fs [''c''] [''c'', ''new.img'']"
  using resolve_file_confined [OF demo_names_ok demo_resolve_file] by (auto simp: demo_canonical)

subsection \<open>The newest cover\<close>

lemma newest_spec:
  "newest best cs = r \<Longrightarrow>
     (r = None \<longleftrightarrow> best = None \<and> cs = []) \<and>
     (\<forall>c. r = Some c \<longrightarrow> (c \<in> set cs \<or> best = Some c) \<and>
        (\<forall>x \<in> set cs. fst x \<le> fst c) \<and> (\<forall>b. best = Some b \<longrightarrow> fst b \<le> fst c))"
proof (induction cs arbitrary: best)
  case (Cons c cs)
  show ?case
  proof (cases best)
    case None
    with Cons.IH [of "Some c"] Cons.prems show ?thesis by auto
  next
    case (Some b)
    with Cons.IH [of "Some c"] Cons.IH [of "Some b"] Cons.prems show ?thesis
      by (cases "fst c > fst b") auto
  qed
qed auto

lemma map_filter_set: "c \<in> set (List.map_filter f xs) \<longleftrightarrow> (\<exists>x \<in> set xs. f x = Some c)"
  by (induction xs) (auto simp: List.map_filter_simps split: option.splits)

lemma ready_Ready: "ready s p = Ready q cid \<longleftrightarrow> q = p \<and> content_id_of s p = Inr cid"
  by (auto simp: ready_def split: sum.splits)

lemma full_scan_Ready:
  assumes "full_scan s dir t sc = (Ready p cid, sc')"
  shows "\<exists>names c. fs_read_dir s dir = Inr names \<and> newest None (List.map_filter (candidate s dir) names) = Some (c, p) \<and>
    content_id_of s p = Inr cid \<and> map_of (sc_memo sc') dir = Some (t, p)"
  using assms by (auto simp: full_scan_def Let_def ready_Ready split: sum.splits option.splits)


definition demo_scan_fs :: fs where
  "demo_scan_fs =
     \<lparr>fs_nodes = [([''c''], Directory 3), ([''c'', ''x.nfo''], File ''text'' 8), ([''c'', ''n.png''], File PNG_MAGIC 7)],
      fs_denied = [], fs_faults = [], fs_now = 10\<rparr>"

lemma demo_scan:
  "scan demo_scan_fs [''c''] dir_scanner_default =
     (Ready [''c'', ''n.png''] (8, 7), \<lparr>sc_memo = [([''c''], (3, [''c'', ''n.png'']))], sc_scans = 1\<rparr>)"
proof -
  have d: "dir_of demo_scan_fs [''c''] = Some [''c'']"
    by (simp add: dir_of_def demo_scan_fs_def dirlink_def node_at_def)
  then have key: "key_of demo_scan_fs [''c'', n] = Some [''c'', n]" for n by (simp add: key_of_def)
  have f: "dir_of demo_scan_fs [''c'', ''n.png''] = None" "dir_of demo_scan_fs [''c'', ''x.nfo''] = None"
    by (simp_all add: dir_of_def demo_scan_fs_def dirlink_def node_at_def)
  have n: "node_at demo_scan_fs [''c'', ''n.png''] = Some (File PNG_MAGIC 7)"
    "node_at demo_scan_fs [''c'', ''x.nfo''] = Some (File ''text'' 8)" "node_at demo_scan_fs [''c''] = Some (Directory 3)"
    "fs_denied demo_scan_fs = []"
    by (simp_all add: demo_scan_fs_def node_at_def)
  have can: "canonicalize demo_scan_fs [''c'', ''n.png''] = Some [''c'', ''n.png'']"
    "canonicalize demo_scan_fs [''c'', ''x.nfo''] = Some [''c'', ''x.nfo'']" "canonicalize demo_scan_fs [''c''] = Some [''c'']"
    by (simp_all add: canonicalize_def f n key d follow_file.simps [of SYMLINK_LIMIT])
  have names: "fs_read_dir demo_scan_fs [''c''] = Inr [''x.nfo'', ''n.png'']"
    by (simp add: fs_read_dir_def d n) (simp add: demo_scan_fs_def)
  note eval = names n can key candidate_def fs_symlink_metadata_def fs_metadata_def meta_at_def fs_read_prefix_def
    looks_like_image_def starts_with_def PNG_MAGIC_def JPEG_MAGIC_def List.map_filter_simps
    full_scan_def ready_def content_id_of_def dir_scanner_default_def
  show ?thesis
    by (simp add: scan_def eval)
qed


end
