(* ===== verification/Apply.thy ===== *)
theory Apply
  imports Policy
begin

text \<open>
  Applying palettes through \<open>wlchroma-ctl\<close> (\<open>src/apply.rs\<close>). A child process is described by what
  it does (\<open>child\<close>); the injected runner acts on a world \<open>'w\<close>; the TOML parser (crate \<open>toml\<close>)
  and the lossy UTF-8 decoding of diagnostics are parameters. An error message is kept as data.
\<close>

definition FADE_MS :: nat where "FADE_MS = 2000"
definition CTL_TIMEOUT :: duration where "CTL_TIMEOUT = from_secs 5"
definition MAX_DIAG :: nat where "MAX_DIAG = 200"
definition MAX_STDERR_READ :: nat where "MAX_STDERR_READ = 64 * 1024"
definition STDERR_GRACE :: duration where "STDERR_GRACE = from_millis 100"
definition FALLBACK_PALETTE :: string where "FALLBACK_PALETTE = ''witch_hour''"

datatype run_error = RunTimeout | Spawn io_error

record run_output =
  ro_code :: "int option"
  ro_stderr :: string

datatype ctl_error =
  CtlTimedOut nat
| CtlCouldNotRun io_error
| CtlExited "int option" string
| CtlMalformed "string list"

definition default_ctl :: "string option \<Rightarrow> string" where
  "default_ctl env_ctl =
     (case env_ctl of Some s \<Rightarrow> if s \<noteq> [] then s else ''wlchroma-ctl'' | None \<Rightarrow> ''wlchroma-ctl'')"

definition default_config_path :: "path option \<Rightarrow> path" where
  "default_config_path home =
     (case home of None \<Rightarrow> [] | Some h \<Rightarrow> h) @ [''.config'', ''wlchroma'', ''config.toml'']"

subsection \<open>A bounded run\<close>

text \<open>
  A spawned child: when it exits (if ever) and with which code, what it writes to stderr, when the
  last holder of that pipe closes it (a grandchild may hold it for ever), and whether waiting fails.
\<close>

record child =
  ch_exits_after :: "duration option"
  ch_code :: "int option"
  ch_stderr :: "char list"
  ch_pipe_closes_after :: "duration option"
  ch_wait_error :: "io_error option"

datatype process_step = Killed | Reaped

text \<open>
  \<open>process_run\<close> returns the result, what was done to the child after a timeout, and the time spent.
  The reader thread delivers what it read once it has \<open>MAX_STDERR_READ\<close> bytes or the pipe closes;
  the model lets it deliver at the close.
\<close>

definition process_run ::
  "(char list \<Rightarrow> string) \<Rightarrow> duration \<Rightarrow> io_error + child \<Rightarrow>
     (run_error + run_output) \<times> process_step list \<times> duration" where
  "process_run lossy timeout spawned =
     (case spawned of
        Inl e \<Rightarrow> (Inl (Spawn e), [], 0)
      | Inr c \<Rightarrow>
          (case ch_wait_error c of
             Some e \<Rightarrow> (Inl (Spawn e), [], 0)
           | None \<Rightarrow>
               (case (case ch_exits_after c of Some t \<Rightarrow> if t \<le> timeout then Some t else None | None \<Rightarrow> None) of
                  None \<Rightarrow> (Inl RunTimeout, [Killed, Reaped], timeout)
                | Some t \<Rightarrow>
                    (let left = max (timeout - t) STDERR_GRACE;
                         closed = (case ch_pipe_closes_after c of None \<Rightarrow> None
                                   | Some p \<Rightarrow> if p \<le> t + left then Some (max p t) else None);
                         buf = (case closed of None \<Rightarrow> [] | Some _ \<Rightarrow> take MAX_STDERR_READ (ch_stderr c))
                     in (Inr \<lparr>ro_code = ch_code c, ro_stderr = lossy buf\<rparr>, [],
                         case closed of None \<Rightarrow> t + left | Some p \<Rightarrow> p)))))"

subsection \<open>Colours and the config\<close>

definition is_ascii_hexdigit :: "char \<Rightarrow> bool" where
  "is_ascii_hexdigit c =
     (let n = of_char c :: nat in 48 \<le> n \<and> n \<le> 57 \<or> 65 \<le> n \<and> n \<le> 70 \<or> 97 \<le> n \<and> n \<le> 102)"

definition valid_hex :: "string \<Rightarrow> bool" where
  "valid_hex v \<longleftrightarrow> length v = 7 \<and> v ! 0 = CHR ''#'' \<and> list_all is_ascii_hexdigit (drop 1 v)"

datatype toml = TString string | TArray "toml list" | TTable "(string \<times> toml) list" | TOther

fun toml_get :: "string \<Rightarrow> toml \<Rightarrow> toml option" where
  "toml_get k (TTable kvs) = map_of kvs k"
| "toml_get k _ = None"

fun as_array :: "toml \<Rightarrow> toml list option" where
  "as_array (TArray xs) = Some xs"
| "as_array _ = None"

fun as_str :: "toml \<Rightarrow> string option" where
  "as_str (TString s) = Some s"
| "as_str _ = None"

text \<open>\<open>String::from_utf8\<close>: well-formed UTF-8, as the Unicode table of byte sequences.\<close>

definition in_range :: "nat \<Rightarrow> nat \<Rightarrow> char \<Rightarrow> bool" where
  "in_range lo hi c = (lo \<le> of_char c \<and> of_char c \<le> hi)"

definition cont :: "char \<Rightarrow> bool" where
  "cont c = in_range 0x80 0xBF c"

fun valid_utf8 :: "char list \<Rightarrow> bool" where
  "valid_utf8 [] = True"
| "valid_utf8 (a # s) =
     (if in_range 0 0x7F a then valid_utf8 s
      else (case s of
        [] \<Rightarrow> False
      | b # s1 \<Rightarrow>
          (if in_range 0xC2 0xDF a then cont b \<and> valid_utf8 s1
           else (case s1 of
             [] \<Rightarrow> False
           | c # s2 \<Rightarrow>
               (if in_range 0xE0 0xEF a
                then in_range (if a = CHR 0xE0 then 0xA0 else 0x80) (if a = CHR 0xED then 0x9F else 0xBF) b \<and>
                     cont c \<and> valid_utf8 s2
                else (case s2 of
                  [] \<Rightarrow> False
                | d # s3 \<Rightarrow>
                    in_range 0xF0 0xF4 a \<and>
                    in_range (if a = CHR 0xF0 then 0x90 else 0x80) (if a = CHR 0xF4 then 0x8F else 0xBF) b \<and>
                    cont c \<and> cont d \<and> valid_utf8 s3))))))"

definition toml_hex :: "toml \<Rightarrow> string option" where
  "toml_hex v = (case as_str v of Some s \<Rightarrow> if valid_hex s then Some s else None | None \<Rightarrow> None)"

definition config_palette ::
  "(string \<Rightarrow> toml option) \<Rightarrow> char list option \<Rightarrow> (string \<times> string \<times> string) option" where
  "config_palette parse_toml contents =
     (case contents of
        None \<Rightarrow> None
      | Some bytes \<Rightarrow>
          (if \<not> valid_utf8 bytes then None
           else (case Option.bind (Option.bind (Option.bind (Option.bind (parse_toml bytes)
                     (toml_get ''effect'')) (toml_get ''settings'')) (toml_get ''palette'')) as_array of
             Some [a, b, c] \<Rightarrow>
               (case (toml_hex a, toml_hex b, toml_hex c) of
                  (Some x, Some y, Some z) \<Rightarrow> Some (x, y, z)
                | _ \<Rightarrow> None)
           | _ \<Rightarrow> None)))"

subsection \<open>The ctl client\<close>

record 'w ctl =
  ctl_program :: string
  ctl_runner :: "string list \<Rightarrow> duration \<Rightarrow> 'w \<Rightarrow> (run_error + run_output) \<times> 'w"
  ctl_config :: "'w \<Rightarrow> char list option"
  ctl_parse_toml :: "string \<Rightarrow> toml option"
  ctl_fade_ms :: nat

text \<open>\<open>chars().take(n)\<close> on UTF-8 bytes: a continuation byte belongs to the character before it.\<close>

fun take_chars :: "nat \<Rightarrow> string \<Rightarrow> string" where
  "take_chars n [] = []"
| "take_chars n (b # bs) =
     (if cont b then b # take_chars n bs
      else case n of 0 \<Rightarrow> [] | Suc m \<Rightarrow> b # take_chars m bs)"

definition ctl_run :: "'w ctl \<Rightarrow> string list \<Rightarrow> 'w \<Rightarrow> (ctl_error + unit) \<times> 'w" where
  "ctl_run c args w =
     (case ctl_runner c (ctl_program c # args) CTL_TIMEOUT w of
        (Inl RunTimeout, w') \<Rightarrow> (Inl (CtlTimedOut (CTL_TIMEOUT div from_secs 1)), w')
      | (Inl (Spawn e), w') \<Rightarrow> (Inl (CtlCouldNotRun e), w')
      | (Inr out, w') \<Rightarrow>
          (if ro_code out = Some 0 then (Inr (), w')
           else (Inl (CtlExited (ro_code out) (take_chars MAX_DIAG (trim (ro_stderr out)))), w')))"

definition ctl_apply :: "'w ctl \<Rightarrow> string \<times> string \<times> string \<Rightarrow> 'w \<Rightarrow> (ctl_error + unit) \<times> 'w" where
  "ctl_apply c colors w =
     (case colors of (x, y, z) \<Rightarrow>
        if \<not> list_all valid_hex [x, y, z] then (Inl (CtlMalformed [x, y, z]), w)
        else ctl_run c ([''set-colors'', x, y, z] @ (if ctl_fade_ms c > 0 then [show_nat (ctl_fade_ms c)] else [])) w)"

definition ctl_revert :: "'w ctl \<Rightarrow> 'w \<Rightarrow> (ctl_error + unit) \<times> 'w" where
  "ctl_revert c w =
     (case config_palette (ctl_parse_toml c) (ctl_config c w) of
        Some colors \<Rightarrow> ctl_apply c colors w
      | None \<Rightarrow> ctl_run c [''set-palette'', FALLBACK_PALETTE] w)"

subsection \<open>A run is bounded\<close>

text \<open>Apply, time: whatever the child does, a run ends within the timeout plus the stderr grace;
  a child that does not exit in time is killed and reaped.\<close>

theorem process_run_bounded:
  "snd (snd (process_run lossy timeout spawned)) \<le> timeout + STDERR_GRACE \<and>
   (fst (process_run lossy timeout spawned) = Inl RunTimeout \<longleftrightarrow>
      fst (snd (process_run lossy timeout spawned)) = [Killed, Reaped])"
  by (auto simp: process_run_def Let_def split: sum.split option.split)

subsection \<open>Nothing but the intended tokens reaches the IPC line\<close>

lemma hexdigit_not_space: "is_ascii_hexdigit c \<Longrightarrow> \<not> is_space c"
  by (auto simp: is_ascii_hexdigit_def is_space_def Let_def)

lemma valid_hex_token:
  assumes "valid_hex v" shows "v \<noteq> [] \<and> (\<forall>c \<in> set v. \<not> is_space c)"
proof -
  from assms obtain a v' where v: "v = a # v'" by (cases v) (auto simp: valid_hex_def)
  with assms show ?thesis
    by (auto simp: valid_hex_def list_all_iff is_space_def dest: hexdigit_not_space)
      (auto simp: is_ascii_hexdigit_def is_space_def Let_def)
qed

lemma config_palette_valid:
  "config_palette parse_toml contents = Some (x, y, z) \<Longrightarrow> valid_hex x \<and> valid_hex y \<and> valid_hex z"
  by (auto simp: config_palette_def toml_hex_def split: option.splits if_splits list.splits)

text \<open>\<open>recording c\<close> runs as \<open>c\<close> and keeps the argument vectors the runner was given.\<close>

definition recording :: "'w ctl \<Rightarrow> ('w \<times> string list list) ctl" where
  "recording c =
     \<lparr>ctl_program = ctl_program c,
      ctl_runner = (\<lambda>argv t s. case ctl_runner c argv t (fst s) of (r, w') \<Rightarrow> (r, (w', snd s @ [argv]))),
      ctl_config = ctl_config c \<circ> fst, ctl_parse_toml = ctl_parse_toml c, ctl_fade_ms = ctl_fade_ms c\<rparr>"

text \<open>\<open>wlchroma-ctl\<close> joins its arguments with spaces into one line: the line reads back as the same tokens.\<close>

definition clean_argv :: "string \<Rightarrow> string list \<Rightarrow> bool" where
  "clean_argv program argv \<longleftrightarrow>
     argv \<noteq> [] \<and> hd argv = program \<and> tl argv \<noteq> [] \<and>
     split_on (CHR '' '') (join_with (CHR '' '') (tl argv)) = tl argv \<and>
     list_all (\<lambda>a. a \<noteq> [] \<and> list_all (\<lambda>ch. \<not> is_space ch) a) (tl argv)"

lemma clean_argvI:
  assumes "args \<noteq> []" and "\<forall>a \<in> set args. a \<noteq> [] \<and> (\<forall>ch \<in> set a. \<not> is_space ch)"
  shows "clean_argv program (program # args)"
proof -
  have "is_space (CHR '' '')" by (simp add: is_space_def)
  then have "\<forall>a \<in> set args. CHR '' '' \<notin> set a" using assms(2) by blast
  then show ?thesis using assms by (simp add: clean_argv_def list_all_iff split_on_join)
qed

lemma show_nat_token: "show_nat n \<noteq> [] \<and> (\<forall>ch \<in> set (show_nat n). \<not> is_space ch)"
proof -
  have "show_nat n \<noteq> []" by (subst show_nat.simps) simp
  moreover have "\<not> is_space ch" if "is_digit ch" for ch
    using that by (auto simp: is_digit_def is_space_def)
  ultimately show ?thesis using is_digit_show [of n] by (auto simp: list_all_iff)
qed

lemma ctl_run_calls:
  "snd (snd (ctl_run (recording c) args s)) = snd s @ [ctl_program c # args]"
  by (auto simp: ctl_run_def recording_def split: prod.splits sum.splits run_error.splits)

lemma apply_calls:
  "snd (snd (ctl_apply (recording c) colors (w, []))) \<in>
     {calls. length calls \<le> 1 \<and> list_all (clean_argv (ctl_program c)) calls}"
proof -
  obtain x y z where c: "colors = (x, y, z)" by (cases colors)
  have fade: "ctl_fade_ms (recording c) = ctl_fade_ms c" by (simp add: recording_def)
  have "clean_argv (ctl_program c) (ctl_program c #
      ([''set-colors'', x, y, z] @ (if ctl_fade_ms c > 0 then [show_nat (ctl_fade_ms c)] else [])))"
    if "valid_hex x" "valid_hex y" "valid_hex z"
    by (rule clean_argvI)
      (use that [THEN valid_hex_token] show_nat_token [of "ctl_fade_ms c"] in \<open>auto simp: is_space_def\<close>)
  then show ?thesis
    by (auto simp: ctl_apply_def c ctl_run_calls fade simp del: append.simps)
qed


text \<open>Apply, revert: the preset is applied only when it is three well-formed colours; otherwise
  the named fallback palette is requested, so a broken config still reverts.\<close>

theorem ctl_revert_total:
  "ctl_revert c w =
     (case config_palette (ctl_parse_toml c) (ctl_config c w) of
        Some (x, y, z) \<Rightarrow>
          ctl_run c ([''set-colors'', x, y, z] @ (if ctl_fade_ms c > 0 then [show_nat (ctl_fade_ms c)] else [])) w
      | None \<Rightarrow> ctl_run c [''set-palette'', ''witch_hour''] w)"
  using config_palette_valid
  by (auto simp: ctl_revert_def ctl_apply_def FALLBACK_PALETTE_def split: option.split)

end
