(* ===== verification/Worker.thy ===== *)
theory Worker
  imports Jobs Local Apply
begin

text \<open>
  The palette worker (\<open>src/worker.rs\<close>). What it shares with the other threads is the mailbox slot
  and the stop flag; the rest of the world is \<open>'e\<close>. The injected stages act on that shared state,
  so a job the coordinator posts while a stage runs is visible to the check after it. A stage that
  panics returns \<open>None\<close>. Log lines are not modelled.
\<close>

type_synonym colors = "string \<times> string \<times> string"

record 'e shared =
  sh_slot :: mailbox
  sh_stop :: bool
  sh_env :: 'e

record 'e stages =
  st_resolve :: "string \<Rightarrow> path option \<Rightarrow> 'e shared \<Rightarrow> resolution option \<times> 'e shared"
  st_extract :: "path \<Rightarrow> mode \<Rightarrow> content_id \<Rightarrow> 'e shared \<Rightarrow> colors option \<times> 'e shared"
  st_apply :: "colors \<Rightarrow> 'e shared \<Rightarrow> (ctl_error + unit) option \<times> 'e shared"
  st_revert :: "'e shared \<Rightarrow> (ctl_error + unit) option \<times> 'e shared"

datatype committed = RevertTo mode | CoverShown content_id mode

text \<open>The result of a job: \<open>None\<close> is a panic, \<open>Some None\<close> a superseded job.\<close>

type_synonym 'e run_result = "job_result option option \<times> committed option \<times> 'e shared"

definition job_done :: "job \<Rightarrow> outcome \<Rightarrow> string option \<Rightarrow> job_result option option" where
  "job_done j out cid = Some (Some \<lparr>jr_generation = j_generation j, jr_outcome = out, jr_cover_id = cid\<rparr>)"

definition run_revert :: "'e stages \<Rightarrow> job \<Rightarrow> committed option \<Rightarrow> 'e shared \<Rightarrow> 'e run_result" where
  "run_revert S j last_committed sh =
     (let key = RevertTo (d_mode (j_desired j)) in
      if last_committed = Some key then (job_done j SkippedDuplicate None, last_committed, sh)
      else if superseded (j_generation j) (sh_slot sh) then (Some None, last_committed, sh)
      else (case st_revert S sh of
        (None, sh1) \<Rightarrow> (None, last_committed, sh1)
      | (Some (Inl _), sh1) \<Rightarrow> (job_done j FailedRetryable None, last_committed, sh1)
      | (Some (Inr _), sh1) \<Rightarrow> (job_done j Committed None, Some key, sh1)))"

definition run_cover ::
  "'e stages \<Rightarrow> job \<Rightarrow> path \<Rightarrow> content_id \<Rightarrow> committed option \<Rightarrow> 'e shared \<Rightarrow> 'e run_result" where
  "run_cover S j p cid last_committed sh =
     (let cover_id = Some (path_display p);
          key = CoverShown cid (d_mode (j_desired j))
      in if last_committed = Some key then (job_done j SkippedDuplicate cover_id, last_committed, sh)
         else if superseded (j_generation j) (sh_slot sh) then (Some None, last_committed, sh)
         else (case st_extract S p (d_mode (j_desired j)) cid sh of
           (None, sh1) \<Rightarrow> (None, last_committed, sh1)
         | (Some cols, sh1) \<Rightarrow>
             (if superseded (j_generation j) (sh_slot sh1) then (Some None, last_committed, sh1)
              else (case st_apply S cols sh1 of
                (None, sh2) \<Rightarrow> (None, last_committed, sh2)
              | (Some (Inl _), sh2) \<Rightarrow> (job_done j FailedRetryable None, last_committed, sh2)
              | (Some (Inr _), sh2) \<Rightarrow> (job_done j Committed cover_id, Some key, sh2)))))"

definition run_once :: "'e stages \<Rightarrow> job \<Rightarrow> committed option \<Rightarrow> 'e shared \<Rightarrow> 'e run_result" where
  "run_once S j last_committed sh =
     (case d_target (j_desired j) of
        None \<Rightarrow> run_revert S j last_committed sh
      | Some target \<Rightarrow>
          (case st_resolve S (ct_art_url target) (ct_covers_dir target) sh of
             (None, sh1) \<Rightarrow> (None, last_committed, sh1)
           | (Some (Retryable _), sh1) \<Rightarrow> (job_done j FailedRetryable None, last_committed, sh1)
           | (Some (resolution.Rejected _), sh1) \<Rightarrow> (job_done j outcome.Rejected None, last_committed, sh1)
           | (Some (Ready p cid), sh1) \<Rightarrow> run_cover S j p cid last_committed sh1))"

record 'e worker =
  wk_last_committed :: "committed option"
  wk_reported :: "job_result list"
  wk_shared :: "'e shared"

definition worker_new :: "committed option \<Rightarrow> 'e shared \<Rightarrow> 'e worker" where
  "worker_new initial_committed sh =
     \<lparr>wk_last_committed = initial_committed, wk_reported = [], wk_shared = sh\<rparr>"

text \<open>\<open>serve\<close>: a panic is reported as a retryable failure.\<close>

definition serve :: "'e stages \<Rightarrow> job \<Rightarrow> 'e worker \<Rightarrow> 'e worker" where
  "serve S j w =
     (case run_once S j (wk_last_committed w) (wk_shared w) of
        (r, lc, sh) \<Rightarrow>
          let result = (case r of
                None \<Rightarrow> Some \<lparr>jr_generation = j_generation j, jr_outcome = FailedRetryable, jr_cover_id = None\<rparr>
              | Some x \<Rightarrow> x)
          in \<lparr>wk_last_committed = lc,
              wk_reported = (case result of None \<Rightarrow> wk_reported w | Some x \<Rightarrow> wk_reported w @ [x]),
              wk_shared = sh\<rparr>)"

text \<open>One iteration of the pump: blocked on the mailbox, stopped, or a job served.\<close>

datatype pump = Waiting | Finished | Served

definition pump_once :: "'e stages \<Rightarrow> 'e worker \<Rightarrow> pump \<times> 'e worker" where
  "pump_once S w =
     (case mailbox_get (sh_stop (wk_shared w)) (sh_slot (wk_shared w)) of
        (Block, _) \<Rightarrow> (Waiting, w)
      | (Return None, slot) \<Rightarrow> (Finished, w\<lparr>wk_shared := (wk_shared w)\<lparr>sh_slot := slot\<rparr>\<rparr>)
      | (Return (Some j), slot) \<Rightarrow> (Served, serve S j (w\<lparr>wk_shared := (wk_shared w)\<lparr>sh_slot := slot\<rparr>\<rparr>)))"

primrec worker_run :: "nat \<Rightarrow> 'e stages \<Rightarrow> 'e worker \<Rightarrow> pump \<times> 'e worker" where
  "worker_run 0 S w = (Served, w)"
| "worker_run (Suc n) S w =
     (case pump_once S w of
        (Served, w') \<Rightarrow> worker_run n S w'
      | (p, w') \<Rightarrow> (p, w'))"

subsection \<open>Thread lifecycle\<close>

record worker_handle =
  wh_stop :: bool
  wh_woken :: bool
  wh_thread :: bool

definition worker_start :: worker_handle where
  "worker_start = \<lparr>wh_stop = False, wh_woken = False, wh_thread = True\<rparr>"

text \<open>\<open>ends_after\<close> is when the thread signals its exit (or its channel disconnects), if ever.\<close>

definition stop_and_join :: "duration \<Rightarrow> duration option \<Rightarrow> worker_handle \<Rightarrow> bool \<times> worker_handle" where
  "stop_and_join timeout ends_after h =
     (let h1 = h\<lparr>wh_stop := True, wh_woken := True\<rparr> in
      if \<not> wh_thread h1 then (True, h1)
      else (case ends_after of
        Some t \<Rightarrow> (if t \<le> timeout then (True, h1\<lparr>wh_thread := False\<rparr>) else (False, h1))
      | None \<Rightarrow> (False, h1)))"

subsection \<open>What a job does\<close>

text \<open>The end of a job: superseded with a newer job waiting, or a result with its generation.\<close>

definition key_of_job :: "job \<Rightarrow> content_id \<Rightarrow> committed" where
  "key_of_job j cid =
     (if d_target (j_desired j) = None then RevertTo (d_mode (j_desired j))
      else CoverShown cid (d_mode (j_desired j)))"

definition well_ended :: "job \<Rightarrow> committed option \<Rightarrow> 'e run_result \<Rightarrow> bool" where
  "well_ended j lc out \<longleftrightarrow>
     (case out of
        (None, lc', sh') \<Rightarrow> lc' = lc
      | (Some None, lc', sh') \<Rightarrow> lc' = lc \<and> superseded (j_generation j) (sh_slot sh')
      | (Some (Some r), lc', sh') \<Rightarrow>
          jr_generation r = j_generation j \<and>
          (case jr_outcome r of
             Committed \<Rightarrow> (\<exists>cid. lc' = Some (key_of_job j cid) \<and> lc \<noteq> lc')
           | SkippedDuplicate \<Rightarrow> (\<exists>cid. lc' = lc \<and> lc = Some (key_of_job j cid))
           | _ \<Rightarrow> lc' = lc \<and> jr_cover_id r = None))"

lemma run_revert_ended: "d_target (j_desired j) = None \<Longrightarrow> well_ended j lc (run_revert S j lc sh)"
  by (auto simp: run_revert_def Let_def job_done_def well_ended_def key_of_job_def
      split: prod.split option.split sum.split)

lemma run_cover_ended: "d_target (j_desired j) \<noteq> None \<Longrightarrow> well_ended j lc (run_cover S j p cid lc sh)"
  by (auto simp: run_cover_def Let_def job_done_def well_ended_def key_of_job_def
      split: prod.split option.split sum.split)

lemma run_once_ended: "well_ended j lc (run_once S j lc sh)"
proof (cases "d_target (j_desired j)")
  case None
  then show ?thesis by (simp add: run_once_def run_revert_ended)
next
  case (Some t)
  then show ?thesis
    by (simp add: run_once_def run_cover_ended split: prod.split option.split resolution.split)
      (simp add: well_ended_def job_done_def)
qed

text \<open>Worker, job outcome: a job that is not dropped ends with a result of its own generation;
  the dedup key moves exactly on a commit, to the job's own key; a skip happens exactly when that key
  was already there; a dropped job leaves a strictly newer one in the mailbox; a panic changes no key.\<close>

theorem job_well_ended: "well_ended j lc (run_once S j lc sh)"
  by (rule run_once_ended)

text \<open>Worker, no lost job: serving a job reports exactly one result with the job's generation,
  also when a stage panics, unless a strictly newer job is waiting to report in its place.\<close>

theorem serve_reports:
  "(\<exists>r. wk_reported (serve S j w) = wk_reported w @ [r] \<and> jr_generation r = j_generation j) \<or>
   wk_reported (serve S j w) = wk_reported w \<and> superseded (j_generation j) (sh_slot (wk_shared (serve S j w)))"
proof -
  obtain r lc sh where run: "run_once S j (wk_last_committed w) (wk_shared w) = (r, lc, sh)"
    by (cases "run_once S j (wk_last_committed w) (wk_shared w)")
  have "well_ended j (wk_last_committed w) (r, lc, sh)" unfolding run [symmetric] by (rule run_once_ended)
  then show ?thesis
    by (auto simp: serve_def run Let_def well_ended_def split: option.splits)
qed

text \<open>Worker, supersession: if a strictly newer job is waiting when extraction ends, the job is
  dropped before ctl is called: the outcome does not depend on the apply stage at all.\<close>

theorem superseded_never_applies:
  assumes "\<And>p m cid sh0. superseded (j_generation j) (sh_slot (snd (st_extract S p m cid sh0)))"
  shows "run_once (S\<lparr>st_apply := f\<rparr>) j lc sh = run_once S j lc sh"
proof -
  have "run_cover (S\<lparr>st_apply := f\<rparr>) j p cid lc sh0 = run_cover S j p cid lc sh0" for p cid sh0
    using assms [of p "d_mode (j_desired j)" cid sh0]
    by (auto simp: run_cover_def Let_def split: prod.split option.split)
  moreover have "run_revert (S\<lparr>st_apply := f\<rparr>) j lc sh = run_revert S j lc sh"
    by (simp add: run_revert_def cong: if_cong)
  ultimately show ?thesis
    by (simp add: run_once_def split: prod.split option.split resolution.split)
qed

subsection \<open>The dedup key and the display\<close>

text \<open>
  The display shows the preset or a palette. \<open>faithful_stages\<close> is what the dedup relies on: extraction
  is a function of content and mode, a confirmed apply shows those colours, a confirmed revert the
  preset, and nothing else (a failed or panicking call included) changes the display.
\<close>

datatype display = Preset | Showing colors

definition faithful_stages ::
  "'e stages \<Rightarrow> ('e shared \<Rightarrow> display) \<Rightarrow> (content_id \<Rightarrow> mode \<Rightarrow> colors) \<Rightarrow> bool" where
  "faithful_stages S shown palette \<longleftrightarrow>
     (\<forall>u d sh. shown (snd (st_resolve S u d sh)) = shown sh) \<and>
     (\<forall>p m cid sh. shown (snd (st_extract S p m cid sh)) = shown sh \<and>
        (\<forall>c. fst (st_extract S p m cid sh) = Some c \<longrightarrow> c = palette cid m)) \<and>
     (\<forall>c sh. shown (snd (st_apply S c sh)) =
        (case fst (st_apply S c sh) of Some (Inr _) \<Rightarrow> Showing c | _ \<Rightarrow> shown sh)) \<and>
     (\<forall>sh. shown (snd (st_revert S sh)) =
        (case fst (st_revert S sh) of Some (Inr _) \<Rightarrow> Preset | _ \<Rightarrow> shown sh))"

fun display_of :: "(content_id \<Rightarrow> mode \<Rightarrow> colors) \<Rightarrow> committed \<Rightarrow> display" where
  "display_of palette (RevertTo m) = Preset"
| "display_of palette (CoverShown cid m) = Showing (palette cid m)"

definition key_true :: "('e shared \<Rightarrow> display) \<Rightarrow> (content_id \<Rightarrow> mode \<Rightarrow> colors) \<Rightarrow> committed option \<Rightarrow> 'e shared \<Rightarrow> bool" where
  "key_true shown palette lc sh = (case lc of None \<Rightarrow> True | Some key \<Rightarrow> shown sh = display_of palette key)"

lemma run_revert_key:
  assumes "faithful_stages S shown palette" and "key_true shown palette lc sh"
  shows "case run_revert S j lc sh of (_, lc', sh') \<Rightarrow> key_true shown palette lc' sh'"
proof (cases "st_revert S sh")
  case (Pair r sh1)
  have "shown sh1 = (case r of Some (Inr _) \<Rightarrow> Preset | _ \<Rightarrow> shown sh)"
    using assms(1) Pair unfolding faithful_stages_def by (metis fst_conv snd_conv)
  with Pair assms(2) show ?thesis
    by (auto simp: run_revert_def Let_def key_true_def split: option.splits sum.splits)
qed

lemma run_cover_key:
  assumes "faithful_stages S shown palette" and "key_true shown palette lc sh"
  shows "case run_cover S j p cid lc sh of (_, lc', sh') \<Rightarrow> key_true shown palette lc' sh'"
proof -
  let ?m = "d_mode (j_desired j)"
  obtain e sh1 where e: "st_extract S p ?m cid sh = (e, sh1)" by (cases "st_extract S p ?m cid sh")
  have 1: "shown sh1 = shown sh" "\<forall>c. e = Some c \<longrightarrow> c = palette cid ?m"
    using assms(1) e unfolding faithful_stages_def by (metis fst_conv snd_conv)+
  show ?thesis
  proof (cases e)
    case None
    with e 1 assms(2) show ?thesis by (auto simp: run_cover_def Let_def key_true_def split: option.splits)
  next
    case (Some c)
    obtain a sh2 where a: "st_apply S c sh1 = (a, sh2)" by (cases "st_apply S c sh1")
    have "shown sh2 = (case a of Some (Inr _) \<Rightarrow> Showing c | _ \<Rightarrow> shown sh1)"
      using assms(1) a unfolding faithful_stages_def by (metis fst_conv snd_conv)
    with e a Some 1 assms(2) show ?thesis
      by (auto simp: run_cover_def Let_def key_true_def split: option.splits sum.splits)
  qed
qed

lemma run_once_key:
  assumes "faithful_stages S shown palette" and "key_true shown palette lc sh"
  shows "case run_once S j lc sh of (_, lc', sh') \<Rightarrow> key_true shown palette lc' sh'"
proof (cases "d_target (j_desired j)")
  case None
  with run_revert_key [OF assms] show ?thesis by (simp add: run_once_def)
next
  case (Some t)
  obtain r sh1 where r: "st_resolve S (ct_art_url t) (ct_covers_dir t) sh = (r, sh1)"
    by (cases "st_resolve S (ct_art_url t) (ct_covers_dir t) sh")
  have "shown sh1 = shown sh" using assms(1) r unfolding faithful_stages_def by (metis snd_conv)
  then have 1: "key_true shown palette lc sh1" using assms(2) by (simp add: key_true_def split: option.splits)
  show ?thesis
    using Some r 1 run_cover_key [OF assms(1) 1]
    by (auto simp: run_once_def split: option.split resolution.split)
qed


subsection \<open>Concrete runs\<close>

text \<open>A display in the environment; ctl times out when told to, after the change took effect.\<close>

record demo_env =
  de_shown :: display
  de_ctl_ok :: bool

definition demo_stages :: "demo_env stages" where
  "demo_stages =
     \<lparr>st_resolve = (\<lambda>u d sh. (Some (Ready [u] (length u, 0)), sh)),
      st_extract = (\<lambda>p m cid sh. (Some (hd p, hd p, hd p), sh)),
      st_apply = (\<lambda>c sh.
        (Some (if de_ctl_ok (sh_env sh) then Inr () else Inl (CtlTimedOut 5)),
         sh\<lparr>sh_env := (sh_env sh)\<lparr>de_shown := Showing c\<rparr>\<rparr>)),
      st_revert = (\<lambda>sh. (Some (Inr ()), sh\<lparr>sh_env := (sh_env sh)\<lparr>de_shown := Preset\<rparr>\<rparr>))\<rparr>"

definition demo_job :: "nat \<Rightarrow> string \<Rightarrow> job" where
  "demo_job g u = \<lparr>j_generation = g, j_desired = \<lparr>d_target = Some \<lparr>ct_art_url = u, ct_covers_dir = None\<rparr>, d_mode = Dark\<rparr>\<rparr>"

definition demo_shared :: "bool \<Rightarrow> demo_env shared" where
  "demo_shared ok = \<lparr>sh_slot = None, sh_stop = False, sh_env = \<lparr>de_shown = Preset, de_ctl_ok = ok\<rparr>\<rparr>"

definition set_ctl_ok :: "bool \<Rightarrow> demo_env worker \<Rightarrow> demo_env worker" where
  "set_ctl_ok ok w = w\<lparr>wk_shared := (wk_shared w)\<lparr>sh_env := (sh_env (wk_shared w))\<lparr>de_ctl_ok := ok\<rparr>\<rparr>\<rparr>"

text \<open>Worker, a limit of the dedup (finding): a ctl call that fails after taking effect leaves the
  key of the previous cover, so going back to that cover is skipped as a duplicate while the display
  shows the other one.\<close>

theorem stale_key_skips:
  "let w1 = serve demo_stages (demo_job 1 ''a'') (worker_new None (demo_shared True));
       w2 = serve demo_stages (demo_job 2 ''bb'') (set_ctl_ok False w1);
       w3 = serve demo_stages (demo_job 3 ''a'') (set_ctl_ok True w2)
   in map jr_outcome (wk_reported w3) = [Committed, FailedRetryable, SkippedDuplicate] \<and>
      de_shown (sh_env (wk_shared w3)) = Showing (''bb'', ''bb'', ''bb'')"
  by (simp add: serve_def run_once_def run_cover_def demo_stages_def demo_job_def demo_shared_def
      worker_new_def set_ctl_ok_def Let_def job_done_def)

text \<open>A newer job arrives during extraction: nothing is applied.\<close>

definition racing_stages :: "demo_env stages" where
  "racing_stages = demo_stages\<lparr>st_extract := (\<lambda>p m cid sh.
     (Some (hd p, hd p, hd p), sh\<lparr>sh_slot := Some (demo_job 9 ''new'')\<rparr>))\<rparr>"

theorem superseded_never_applies_witness:
  "run_once (racing_stages\<lparr>st_apply := (\<lambda>c sh. (None, sh))\<rparr>) (demo_job 1 ''a'') None (demo_shared True) =
     run_once racing_stages (demo_job 1 ''a'') None (demo_shared True)"
  by (rule superseded_never_applies) (simp add: racing_stages_def demo_job_def superseded_def)

definition steady_stages :: "demo_env stages" where
  "steady_stages = demo_stages\<lparr>
     st_extract := (\<lambda>p m cid sh. (Some (''x'', ''x'', ''x''), sh)),
     st_apply := (\<lambda>c sh. (Some (Inr ()), sh\<lparr>sh_env := (sh_env sh)\<lparr>de_shown := Showing c\<rparr>\<rparr>))\<rparr>"


end
