(* ===== verification/Cover.thy ===== *)
theory Cover
  imports Local
begin

text \<open>
  Cover resolution (\<open>src/cover/mod.rs\<close>): dispatch on the art URL, the cached download, the
  contained failure and its rate-limited warning. The world of a resolution is the file system, the
  temporary-name counter, the monotonic clock and the fetcher's own world \<open>'w\<close>. The fetcher is an
  argument (trait \<open>Fetch\<close>); \<open>http_fetch\<close> is the production one. \<open>None\<close> means the fetch never
  returned.
\<close>

definition LOG_INTERVAL :: duration where "LOG_INTERVAL = from_secs 60"

fun classify :: "cover_error \<Rightarrow> resolution" where
  "classify (Refused r) = Rejected (error_name (Refused r))"
| "classify TooLarge = Rejected (error_name TooLarge)"
| "classify e = Retryable (error_name e)"

record 'w world =
  wd_fs :: fs
  wd_temp_seq :: nat
  wd_instant :: instant
  wd_ext :: 'w

record resolver =
  cr_cache_dir :: path
  cr_cache_limits :: cache_limits
  cr_scanner :: dir_scanner
  cr_last_logged :: "(string \<times> instant) list"
  cr_warned :: "string list"

text \<open>What the resolver takes from outside: the URL parser, SHA-256, the process id and the fetcher.\<close>

record 'w cover_env =
  ce_parse :: "string \<Rightarrow> url option"
  ce_digest :: "string \<Rightarrow> nat list"
  ce_pid :: nat
  ce_fetch :: "string \<Rightarrow> 'w \<Rightarrow> ((cover_error + char list) \<times> 'w) option"

definition http_fetch :: "'w fetch_env \<Rightarrow> string \<Rightarrow> 'w \<Rightarrow> ((cover_error + char list) \<times> 'w) option" where
  "http_fetch env url_text w = fetch url_text env w"

definition resolver_new :: "path \<Rightarrow> resolver" where
  "resolver_new cache_dir =
     \<lparr>cr_cache_dir = cache_dir, cr_cache_limits = CACHE_LIMITS, cr_scanner = dir_scanner_default,
      cr_last_logged = [], cr_warned = []\<rparr>"

definition log_failure :: "instant \<Rightarrow> string \<Rightarrow> string \<Rightarrow> resolver \<Rightarrow> resolver" where
  "log_failure now key message r =
     (let due = (case map_of (cr_last_logged r) key of None \<Rightarrow> True | Some t \<Rightarrow> now - t \<ge> LOG_INTERVAL)
      in if due then r\<lparr>cr_last_logged := AList.update key now (cr_last_logged r),
                       cr_warned := cr_warned r @ [message]\<rparr>
         else r)"

definition contain ::
  "'w cover_env \<Rightarrow> instant \<Rightarrow> string \<Rightarrow> cover_error \<Rightarrow> resolver \<Rightarrow> resolution \<times> resolver" where
  "contain env now url_text e r =
     (let host = (case Option.bind (ce_parse env url_text) url_host_str of None \<Rightarrow> ''?'' | Some h \<Rightarrow> h)
      in (classify e,
          log_failure now host (''cover fetch failed for '' @ host @ '': '' @ error_name e) r))"

definition store ::
  "'w cover_env \<Rightarrow> path \<Rightarrow> char list \<Rightarrow> resolver \<Rightarrow> 'w world \<Rightarrow> ((io_error + unit) \<times> 'w world) option" where
  "store env dest data r w =
     (case fs_create_dir_all (wd_fs w) (cr_cache_dir r) of
        (Inl e, s1) \<Rightarrow> Some (Inl e, w\<lparr>wd_fs := s1\<rparr>)
      | (Inr _, s1) \<Rightarrow>
          (case publish (ce_pid env) dest data (wd_temp_seq w) s1 of
             None \<Rightarrow> None
           | Some (Inl e, sq, s2) \<Rightarrow> Some (Inl e, w\<lparr>wd_fs := s2, wd_temp_seq := sq\<rparr>)
           | Some (Inr _, sq, s2) \<Rightarrow>
               Some (Inr (), w\<lparr>wd_fs := evict (cr_cache_dir r) (fs_now s2) (cr_cache_limits r) s2,
                               wd_temp_seq := sq\<rparr>)))"

definition contained ::
  "'w cover_env \<Rightarrow> string \<Rightarrow> cover_error \<Rightarrow> resolver \<Rightarrow> 'w world \<Rightarrow> (resolution \<times> resolver \<times> 'w world) option" where
  "contained env url_text e r w =
     (case contain env (wd_instant w) url_text e r of (res, r') \<Rightarrow> Some (res, r', w))"

definition fetch_and_store ::
  "'w cover_env \<Rightarrow> string \<Rightarrow> path \<Rightarrow> resolver \<Rightarrow> 'w world \<Rightarrow> (resolution \<times> resolver \<times> 'w world) option" where
  "fetch_and_store env url_text dest r w =
     (case ce_fetch env url_text (wd_ext w) of
        None \<Rightarrow> None
      | Some (Inl e, x) \<Rightarrow> contained env url_text e r (w\<lparr>wd_ext := x\<rparr>)
      | Some (Inr data, x) \<Rightarrow>
          (if \<not> looks_like_image data
           then Some (Rejected ''empty or non-image body'', r, w\<lparr>wd_ext := x\<rparr>)
           else (case store env dest data r (w\<lparr>wd_ext := x\<rparr>) of
             None \<Rightarrow> None
           | Some (Inl e, w2) \<Rightarrow> contained env url_text (cover_error_from_io e) r w2
           | Some (Inr _, w2) \<Rightarrow>
               (case content_id_of (wd_fs w2) dest of
                  Inr cid \<Rightarrow> Some (Ready dest cid, r, w2)
                | Inl e \<Rightarrow> contained env url_text (cover_error_from_io e) r w2))))"

definition resolve_remote ::
  "'w cover_env \<Rightarrow> string \<Rightarrow> resolver \<Rightarrow> 'w world \<Rightarrow> (resolution \<times> resolver \<times> 'w world) option" where
  "resolve_remote env url_text r w =
     (let dest = cache_path (ce_digest env) (cr_cache_dir r) url_text in
      case (if is_real_file (wd_fs w) dest
            then (case content_id_of (wd_fs w) dest of Inr cid \<Rightarrow> Some cid | Inl _ \<Rightarrow> None)
            else None) of
        Some cid \<Rightarrow> Some (Ready dest cid, r, w)
      | None \<Rightarrow> fetch_and_store env url_text dest r w)"

definition resolve ::
  "'w cover_env \<Rightarrow> string \<Rightarrow> path option \<Rightarrow> resolver \<Rightarrow> 'w world \<Rightarrow>
     (resolution \<times> resolver \<times> 'w world) option" where
  "resolve env art_url covers_dir r w =
     (if starts_with art_url ''file://''
      then Some (resolve_file (ce_parse env) (wd_fs w) art_url covers_dir, r, w)
      else if starts_with art_url ''http://'' \<or> starts_with art_url ''https://''
      then resolve_remote env art_url r w
      else (case covers_dir of
        Some dir \<Rightarrow>
          (case scan (wd_fs w) dir (cr_scanner r) of
             (res, sc) \<Rightarrow> Some (res, r\<lparr>cr_scanner := sc\<rparr>, w))
      | None \<Rightarrow> Some (Rejected ''no art source'', r, w)))"

subsection \<open>Eviction only removes files\<close>

definition shrinks :: "fs \<Rightarrow> fs \<Rightarrow> bool" where
  "shrinks s s' \<longleftrightarrow> fs_denied s' = fs_denied s \<and>
     (\<forall>p. node_at s' p = node_at s p \<or> node_at s' p = None \<and> is_file (node_at s p))"

lemma shrinks_refl [simp]: "shrinks s s"
  by (simp add: shrinks_def)

lemma shrinks_trans: "shrinks s s' \<Longrightarrow> shrinks s' s'' \<Longrightarrow> shrinks s s''"
  unfolding shrinks_def by metis

lemma shrinks_dirlink:
  assumes "shrinks s s'" shows "dirlink s' = dirlink s"
proof
  fix p
  from assms have "node_at s' p = node_at s p \<or> node_at s' p = None \<and> is_file (node_at s p)"
    by (simp add: shrinks_def)
  then show "dirlink s' p = dirlink s p" by (auto simp: dirlink_def is_file_iff)
qed

lemma shrinks_keys: "shrinks s s' \<Longrightarrow> key_of s' p = key_of s p \<and> dir_of s' p = dir_of s p"
  using shrinks_dirlink key_of_cong dir_of_cong by metis

definition no_link :: "fs \<Rightarrow> path \<Rightarrow> bool" where
  "no_link s p \<longleftrightarrow> (\<forall>k ab t. key_of s p = Some k \<longrightarrow> node_at s k \<noteq> Some (Link ab t))"

lemma no_link_shrinks: "shrinks s s' \<Longrightarrow> no_link s p \<Longrightarrow> no_link s' p"
  unfolding no_link_def using shrinks_keys [of s s' p] unfolding shrinks_def
  by (metis option.distinct(1))

lemma remove_shrinks:
  assumes "no_link s p" shows "shrinks s (snd (fs_remove_file s p))"
proof -
  obtain f s0 where f: "take_fault s = (f, s0)" by (cases "take_fault s")
  note same = take_fault_node [OF f]
  have den: "fs_denied s0 = fs_denied s" using take_fault_props(2) [of s] f by simp
  show ?thesis
  proof (cases "key_of s p")
    case None
    with f same den keys_cong [OF same] show ?thesis
      by (cases f) (auto simp: fs_remove_file_def shrinks_def)
  next
    case (Some k)
    have "k \<noteq> []" using key_of_not_Nil [OF Some] .
    with f same den keys_cong [OF same] Some assms show ?thesis
      by (cases f) (auto simp: fs_remove_file_def shrinks_def no_link_def is_file_iff
          split: option.splits node.splits)
  qed
qed

lemma meta_no_link:
  "fs_symlink_metadata s p = Inr m \<Longrightarrow> md_type m \<noteq> SymlinkType \<Longrightarrow> no_link s p"
  by (auto simp: fs_symlink_metadata_def meta_at_def no_link_def split: option.splits if_splits)

lemma evict_scan_shrinks:
  "evict_scan dir now limits names s = (es, s') \<Longrightarrow>
     shrinks s s' \<and> (\<forall>e \<in> set es. no_link s' (snd (snd e)))"
proof (induction names arbitrary: s es)
  case (Cons n ns)
  show ?case
  proof (cases "starts_with n ''.''")
    case True
    with Cons show ?thesis by simp
  next
    case dot: False
    show ?thesis
    proof (cases "fs_symlink_metadata s (dir @ [n])")
      case (Inl e)
      with dot Cons show ?thesis by simp
    next
      case (Inr m)
      let ?rm = "snd (fs_remove_file s (dir @ [n]))"
      consider (link) "md_type m = SymlinkType"
        | (old) "md_type m \<noteq> SymlinkType" "evict_age now (md_mtime m) > max_age limits"
        | (young) "md_type m \<noteq> SymlinkType" "\<not> evict_age now (md_mtime m) > max_age limits" by blast
      then show ?thesis
      proof cases
        case link
        with dot Inr Cons show ?thesis by simp
      next
        case old
        then have "shrinks s ?rm" using remove_shrinks meta_no_link [OF Inr] by blast
        moreover have "shrinks ?rm s' \<and> (\<forall>e \<in> set es. no_link s' (snd (snd e)))"
          using Cons.IH Cons.prems dot Inr old by simp
        ultimately show ?thesis using shrinks_trans by blast
      next
        case young
        obtain es' where es': "evict_scan dir now limits ns s = (es', s')"
          "es = (md_mtime m, md_len m, dir @ [n]) # es'"
          using Cons.prems dot Inr young by (auto split: prod.splits)
        with Cons.IH [OF es'(1)] young meta_no_link [OF Inr] show ?thesis
          by (auto intro: no_link_shrinks)
      qed
    qed
  qed
qed simp

lemma evict_trim_shrinks:
  "\<forall>e \<in> set es. no_link s (snd (snd e)) \<Longrightarrow> shrinks s (evict_trim limits es b c s)"
proof (induction es arbitrary: s b c)
  case (Cons e es)
  obtain t l p where e: "e = (t, l, p)" by (cases e)
  have rm: "shrinks s (snd (fs_remove_file s p))" using Cons.prems e remove_shrinks by simp
  then have "\<forall>e \<in> set es. no_link (snd (fs_remove_file s p)) (snd (snd e))"
    using Cons.prems no_link_shrinks by auto
  from Cons.IH [OF this] show ?case by (auto simp: e intro: shrinks_trans [OF rm])
qed simp

lemma evict_shrinks: "shrinks s (evict dir now limits s)"
proof (cases "fs_read_dir s dir")
  case (Inr names)
  obtain es s1 where sc: "evict_scan dir now limits names s = (es, s1)"
    by (cases "evict_scan dir now limits names s")
  from evict_scan_shrinks [OF sc] have "shrinks s s1" and "\<forall>e \<in> set (sort es). no_link s1 (snd (snd e))"
    by simp_all
  then show ?thesis
    using Inr sc shrinks_trans [OF _ evict_trim_shrinks] by (simp add: evict_def Let_def)
qed (simp add: evict_def)

subsection \<open>A cover is downloaded once per URL\<close>

lemma walk_snoc:
  assumes "walk n look cur (cs @ [c]) = Some e" and "c \<noteq> ''.''" and "c \<noteq> ''..''"
  shows "\<exists>d. walk n look cur cs = Some d \<and> look (d @ [c]) \<noteq> None"
  using assms
proof (induction n look cur cs rule: walk.induct)
  case (1 n look cur)
  then show ?case by (auto split: option.splits)
next
  case (2 n look cur b cs)
  show ?case
  proof (cases "b = ''.'' \<or> b = ''..''")
    case True
    with 2 show ?thesis by auto
  next
    case False
    show ?thesis
    proof (cases "look (cur @ [b])")
      case None
      with False 2(5) show ?thesis by simp
    next
      case (Some nd)
      with False 2 show ?thesis by (cases nd) (auto split: if_splits)
    qed
  qed
qed

lemma dir_of_not_dir:
  assumes "key_of s p = Some k" and "dirlink s k = None" and "last p \<noteq> ''.''" "last p \<noteq> ''..''"
  shows "dir_of s p = None"
proof (cases "dir_of s p")
  case (Some e)
  have p: "p \<noteq> []" "k = the (dir_of s (butlast p)) @ [last p]"
    using assms(1) by (auto simp: key_of_def split: if_splits)
  have "walk SYMLINK_LIMIT (dirlink s) [] (butlast p @ [last p]) = Some e"
    using Some p by (simp add: dir_of_def)
  from walk_snoc [OF this assms(3,4)] obtain d where
    "walk SYMLINK_LIMIT (dirlink s) [] (butlast p) = Some d" "dirlink s (d @ [last p]) \<noteq> None" by blast
  with p(2) assms(2) show ?thesis by (simp add: dir_of_def)
qed simp

lemma walk_mono:
  "(\<forall>q. look' q \<noteq> None \<longrightarrow> look q = look' q) \<Longrightarrow> walk n look' cur cs = Some d \<Longrightarrow> walk n look cur cs = Some d"
proof (induction n look' cur cs rule: walk.induct)
  case (2 n look' cur c cs)
  show ?case
  proof (cases "c = ''.'' \<or> c = ''..''")
    case True
    with 2 show ?thesis by auto
  next
    case False
    then obtain nd where nd: "look' (cur @ [c]) = Some nd"
      using 2(6) by (cases "look' (cur @ [c])") auto
    then have "look (cur @ [c]) = Some nd" using 2(5) by simp
    with nd False 2 show ?thesis by (cases nd) (auto split: if_splits)
  qed
qed simp

lemma content_id_key:
  assumes "content_id_of s p = Inr cid" and "p \<noteq> []" "last p \<noteq> ''.''" "last p \<noteq> ''..''"
  shows "\<exists>d. dir_of s (butlast p) = Some d \<and> key_of s p = Some (d @ [last p])"
proof -
  have "canonicalize s p \<noteq> None"
    using assms(1) by (auto simp: content_id_of_def fs_metadata_def split: option.splits)
  then consider e where "dir_of s p = Some e" | k where "follow_file SYMLINK_LIMIT s p = Some k"
    by (auto simp: canonicalize_def split: option.splits)
  then have "dir_of s (butlast p) \<noteq> None"
  proof cases
    case (1 e)
    then have "walk SYMLINK_LIMIT (dirlink s) [] (butlast p @ [last p]) = Some e"
      using assms(2) by (simp add: dir_of_def)
    from walk_snoc [OF this assms(3,4)] show ?thesis by (auto simp: dir_of_def)
  next
    case (2 k)
    then show ?thesis
      by (auto simp: follow_file.simps [of SYMLINK_LIMIT] key_of_def split: option.splits if_splits)
  qed
  then show ?thesis using assms(2) by (auto simp: key_of_def)
qed

text \<open>A path whose real name is not a directory or link: its content identity reads that node.\<close>

lemma content_id_at:
  assumes "key_of s p = Some k" and "dirlink s k = None" and "last p \<noteq> ''.''" "last p \<noteq> ''..''"
    and "content_id_of s p = Inr cid"
  shows "is_file (node_at s k) \<and> k \<notin> set (fs_denied s)"
proof -
  note dir = dir_of_not_dir [OF assms(1-4)]
  show ?thesis
  proof (cases "node_at s k")
    case None
    then have "canonicalize s p = None"
      by (simp add: canonicalize_def dir follow_file.simps [of SYMLINK_LIMIT] assms(1))
    with assms(5) show ?thesis by (simp add: content_id_of_def fs_metadata_def)
  next
    case (Some nd)
    with assms(2) obtain data t where nd: "nd = File data t"
      by (cases nd) (auto simp: dirlink_def)
    then have "canonicalize s p = Some k"
      using Some by (simp add: canonicalize_def dir follow_file.simps [of SYMLINK_LIMIT] assms(1))
    with assms(5) Some nd show ?thesis
      by (auto simp: content_id_of_def fs_metadata_def meta_at_def is_file_iff split: if_splits)
  qed
qed

lemma create_temp_dir:
  assumes "create_temp pid dir sq s = Some (Inr ph, sq', s1)" shows "dir_of s dir \<noteq> None"
  using create_temp_spec [OF assms] by (cases ph) (auto simp: temp_result_def key_of_def)

lemma publish_stores:
  assumes "publish pid dest data sq s = Some (Inr u, sq', s')" and "dest \<noteq> []"
    and "\<not> starts_with (last dest) ''.tmp-''"
  shows "\<exists>k t. key_of s dest = Some k \<and> node_at s' = (node_at s)(k \<mapsto> File data t)"
proof -
  obtain y where c: "create_temp pid (butlast dest) sq s = Some y"
    using create_temp_returns [of pid "butlast dest" sq s] by blast
  obtain ph sq1 s1 where y: "y = (Inr ph, sq1, s1)"
    using assms(1) c by (cases y; cases "fst y") (auto simp: publish_def)
  have "dir_of s (butlast dest) \<noteq> None" using create_temp_dir c y by blast
  then obtain k where "key_of s dest = Some k" using assms(2) by (auto simp: key_of_def)
  from publish_atomic [OF this assms(3), of pid data sq] assms(1) this show ?thesis by auto
qed

lemma cache_path_last:
  "last (cache_path digest dir u) = concat (map hex_byte (digest u)) @ ''.img''"
  by (simp add: cache_path_def)

lemma cache_path_not_dots: "last (cache_path digest dir u) \<noteq> ''.'' \<and> last (cache_path digest dir u) \<noteq> ''..''"
proof -
  have "length (last (cache_path digest dir u)) \<ge> 4" by (simp add: cache_path_last)
  then show ?thesis by auto
qed

lemma fetch_and_store_Ready:
  assumes "fetch_and_store env u dest r w = Some (Ready p cid, r', w')"
  shows "\<exists>data x sq s1 s2. ce_fetch env u (wd_ext w) = Some (Inr data, x) \<and> looks_like_image data \<and>
    publish (ce_pid env) dest data (wd_temp_seq w) s1 = Some (Inr (), sq, s2) \<and>
    wd_fs w' = evict (cr_cache_dir r) (fs_now s2) (cr_cache_limits r) s2 \<and>
    p = dest \<and> content_id_of (wd_fs w') dest = Inr cid \<and> r' = r"
proof -
  have no: "contained env u e r v \<noteq> Some (Ready p cid, r', w')" for e v
    by (cases e) (simp_all add: contained_def contain_def Let_def)
  from assms no show ?thesis
    by (auto simp: fetch_and_store_def store_def split: option.splits sum.splits prod.splits if_splits) blast
qed

text \<open>Cover, caching: once a remote URL has resolved to a cover, resolving it again in the world
  left behind is a cache hit: the same path and identity, no fetch, no write, nothing logged. What
  was stored was sniffed as an image, and what is served is a regular file, never a link.\<close>

theorem resolve_remote_once:
  assumes "\<forall>b \<in> set (ce_digest env u). b < 256"
    and "resolve_remote env u r w = Some (Ready p cid, r', w')"
  shows "resolve_remote env u r' w' = Some (Ready p cid, r', w') \<and> is_real_file (wd_fs w') p \<and>
    p = cache_path (ce_digest env) (cr_cache_dir r) u"
proof -
  let ?dest = "cache_path (ce_digest env) (cr_cache_dir r) u"
  have hit: "resolve_remote env u r v = Some (Ready ?dest c, r, v)"
    if "is_real_file (wd_fs v) ?dest" "content_id_of (wd_fs v) ?dest = Inr c" for v c
    using that by (simp add: resolve_remote_def Let_def)
  show ?thesis
  proof (cases "resolve_remote env u r w = fetch_and_store env u ?dest r w")
    case False
    then obtain c where c: "is_real_file (wd_fs w) ?dest" "content_id_of (wd_fs w) ?dest = Inr c"
      by (cases "content_id_of (wd_fs w) ?dest") (auto simp: resolve_remote_def Let_def split: if_splits)
    have "p = ?dest" "cid = c" "r' = r" "w' = w" using hit [OF c] assms(2) by simp_all
    with hit [OF c] c show ?thesis by simp
  next
    case True
    then have "fetch_and_store env u ?dest r w = Some (Ready p cid, r', w')"
      using assms(2) by simp
    from fetch_and_store_Ready [OF this] obtain data x sq s1 s2 where
      pub: "publish (ce_pid env) ?dest data (wd_temp_seq w) s1 = Some (Inr (), sq, s2)"
      and ev: "wd_fs w' = evict (cr_cache_dir r) (fs_now s2) (cr_cache_limits r) s2"
      and p: "p = ?dest" and cid: "content_id_of (wd_fs w') ?dest = Inr cid" and r': "r' = r" by blast
    have "?dest \<noteq> []" by (simp add: cache_path_def)
    from publish_stores [OF pub this cache_path_not_temp [of "ce_digest env" u, OF assms(1)]]
    obtain k t where k: "key_of s1 ?dest = Some k" and n2: "node_at s2 = (node_at s1)(k \<mapsto> File data t)" by blast
    have sh: "shrinks s2 (wd_fs w')" unfolding ev by (rule evict_shrinks)
    have dl: "dirlink (wd_fs w') k = None" "\<forall>q. dirlink (wd_fs w') q \<noteq> None \<longrightarrow> dirlink s1 q = dirlink (wd_fs w') q"
      unfolding shrinks_dirlink [OF sh] by (auto simp: dirlink_def n2 split: if_splits)
    note dots = cache_path_not_dots [of "ce_digest env" "cr_cache_dir r" u]
    from content_id_key [OF cid \<open>?dest \<noteq> []\<close>] dots obtain d where
      d: "dir_of (wd_fs w') (butlast ?dest) = Some d" "key_of (wd_fs w') ?dest = Some (d @ [last ?dest])" by blast
    have "dir_of s1 (butlast ?dest) = Some d"
      using walk_mono [OF dl(2)] d(1) by (simp add: dir_of_def)
    then have key: "key_of (wd_fs w') ?dest = Some k"
      using k d(2) \<open>?dest \<noteq> []\<close> by (simp add: key_of_def)
    from content_id_at [OF key dl(1) _ _ cid] dots
    have "is_file (node_at (wd_fs w') k)" "k \<notin> set (fs_denied (wd_fs w'))" by blast+
    then have real: "is_real_file (wd_fs w') ?dest"
      by (auto simp: is_real_file_def fs_symlink_metadata_def key meta_at_def is_file_iff)
    show ?thesis using hit [OF real cid] real by (simp add: p r')
  qed
qed

definition demo_cover_fs :: fs where
  "demo_cover_fs =
     \<lparr>fs_nodes = [([''c''], Directory 0), ([''c'', ''ab.img''], File PNG_MAGIC 7)],
      fs_denied = [], fs_faults = [], fs_now = 10\<rparr>"

definition demo_cover_env :: "unit cover_env" where
  "demo_cover_env =
     \<lparr>ce_parse = (\<lambda>_. Some art_url_example), ce_digest = (\<lambda>_. [171]), ce_pid = 7,
      ce_fetch = (\<lambda>_ w. Some (Inl Timeout, w))\<rparr>"

definition demo_world :: "unit world" where
  "demo_world = \<lparr>wd_fs = demo_cover_fs, wd_temp_seq = 0, wd_instant = 0, wd_ext = ()\<rparr>"

lemma demo_cover_hit:
  "resolve_remote demo_cover_env ''https://i.scdn.co/img/x'' (resolver_new [''c'']) demo_world =
     Some (Ready [''c'', ''ab.img''] (8, 7), resolver_new [''c''], demo_world)"
proof -
  have path: "cache_path (\<lambda>_. [171]) [''c''] ''https://i.scdn.co/img/x'' = [''c'', ''ab.img'']"
  proof -
    have "char_of (97 :: nat) = CHR ''a''" "char_of (98 :: nat) = CHR ''b''" by code_simp+
    then show ?thesis by (simp add: cache_path_def hex_byte_def hex_digit_def)
  qed
  have d: "dir_of demo_cover_fs [''c''] = Some [''c'']" "dir_of demo_cover_fs [''c'', ''ab.img''] = None"
    by (simp_all add: dir_of_def demo_cover_fs_def dirlink_def node_at_def)
  have n: "node_at demo_cover_fs [''c'', ''ab.img''] = Some (File PNG_MAGIC 7)" "fs_denied demo_cover_fs = []"
    by (simp_all add: demo_cover_fs_def node_at_def)
  have key: "key_of demo_cover_fs [''c'', ''ab.img''] = Some [''c'', ''ab.img'']" by (simp add: key_of_def d)
  have "canonicalize demo_cover_fs [''c'', ''ab.img''] = Some [''c'', ''ab.img'']"
    by (simp add: canonicalize_def d key n follow_file.simps [of SYMLINK_LIMIT])
  then show ?thesis
    by (simp add: resolve_remote_def Let_def demo_cover_env_def resolver_new_def path demo_world_def
        is_real_file_def fs_symlink_metadata_def key meta_at_def n content_id_of_def fs_metadata_def PNG_MAGIC_def)
qed

theorem resolve_remote_once_witness:
  "is_real_file demo_cover_fs [''c'', ''ab.img'']"
proof -
  have "\<forall>b \<in> set (ce_digest demo_cover_env ''https://i.scdn.co/img/x''). b < 256"
    by (simp add: demo_cover_env_def)
  from resolve_remote_once [OF this demo_cover_hit]
  have "is_real_file (wd_fs demo_world) [''c'', ''ab.img'']" by blast
  then show ?thesis by (simp add: demo_world_def)
qed

text \<open>Cover, warnings: a failing host is logged at most once per sixty seconds: a failure
  inside the interval of a logged one changes nothing, one after it is logged again.\<close>

theorem log_failure_rate:
  assumes "map_of (cr_last_logged r) host = Some t"
  shows "cr_warned (log_failure now host m r) =
      (if now - t \<ge> LOG_INTERVAL then cr_warned r @ [m] else cr_warned r) \<and>
    (now - t < LOG_INTERVAL \<longrightarrow> log_failure now host m r = r) \<and>
    (now - t \<ge> LOG_INTERVAL \<longrightarrow> map_of (cr_last_logged (log_failure now host m r)) host = Some now)"
  using assms by (simp add: log_failure_def Let_def)

theorem log_failure_rate_witness:
  "log_failure 5 ''h'' ''m'' ((resolver_new [''c''])\<lparr>cr_last_logged := [(''h'', 1)]\<rparr>) =
     (resolver_new [''c''])\<lparr>cr_last_logged := [(''h'', 1)]\<rparr>"
  using log_failure_rate [of "(resolver_new [''c''])\<lparr>cr_last_logged := [(''h'', 1)]\<rparr>" "''h''" 1 5 "''m''"]
  by (simp add: LOG_INTERVAL_def from_secs_def)

end
