(* ===== verification/Sources.thy ===== *)
theory Sources
  imports Runtime Framing Fs
begin

unbundle bit_operations_syntax

text \<open>
  The event sources: the playerctl reader and child (\<open>src/sources/playerctl.rs\<close>), the D-Bus
  inputs (\<open>src/sources/dbus.rs\<close>) and the signals (\<open>src/sources/signals.rs\<close>). A source is the list
  of events it sends; a send blocks while the loop is behind and fails once the loop is gone, so
  what the loop sees is a prefix of that list. \<open>lossy\<close> is \<open>String::from_utf8_lossy\<close>.
\<close>

subsection \<open>playerctl\<close>

definition PLAYERS :: string where "PLAYERS = ''jellyfin-tui,spotify''"
definition CHILD_STOP_TIMEOUT :: duration where "CHILD_STOP_TIMEOUT = from_secs 5"

definition follow_cmd :: "string \<Rightarrow> string \<Rightarrow> string list" where
  "follow_cmd playerctl players =
     [playerctl, ''--player='' @ players, ''-a'', ''--follow'', ''metadata'', ''--format'',
      ''{{playerName}}'' @ [CHR 0x09] @ ''{{status}}'' @ [CHR 0x09] @ ''{{mpris:artUrl}}'']"

text \<open>\<open>which\<close>: \<open>stat\<close> answers whether a path is a regular file and its mode bits.\<close>

definition join_path :: "string \<Rightarrow> string \<Rightarrow> string" where
  "join_path dir name = (if ends_with dir ''/'' then dir @ name else dir @ ''/'' @ name)"

definition is_executable :: "(string \<Rightarrow> (bool \<times> nat) option) \<Rightarrow> string \<Rightarrow> bool" where
  "is_executable stat p =
     (case stat p of None \<Rightarrow> False | Some (is_reg, bits) \<Rightarrow> is_reg \<and> bits AND 0x49 \<noteq> 0)"

definition which :: "(string \<Rightarrow> (bool \<times> nat) option) \<Rightarrow> string \<Rightarrow> string \<Rightarrow> string option" where
  "which stat name path_var =
     find (is_executable stat)
       (map (\<lambda>dir. join_path dir name)
         (filter (\<lambda>dir. starts_with dir ''/'') (split_on (CHR '':'') path_var)))"

definition resolve_playerctl :: "(string \<Rightarrow> (bool \<times> nat) option) \<Rightarrow> string option \<Rightarrow> string + string" where
  "resolve_playerctl stat path_env =
     (case which stat ''playerctl'' (case path_env of None \<Rightarrow> [] | Some p \<Rightarrow> p) of
        Some p \<Rightarrow> Inr p
      | None \<Rightarrow> Inl (''playerctl not found on PATH '' @ [CHR 0xE2, CHR 0x80, CHR 0x94] @
          '' install it (Arch: pacman -S playerctl)''))"

text \<open>The text of an oversize report.\<close>

definition drop_detail :: "nat \<Rightarrow> nat \<Rightarrow> string" where
  "drop_detail mx n = ''line exceeded '' @ show_nat mx @ '' bytes ('' @ show_nat n @ ''+)''"

text \<open>
  The reader thread over the results of its reads; an exhausted list is a read still blocked. The drop
  callback runs inside \<open>feed\<close>, so its events precede the lines of the same read.
\<close>

fun reader :: "(byte list \<Rightarrow> string) \<Rightarrow> line_framer \<Rightarrow> (io_error + byte list) list \<Rightarrow> event list" where
  "reader lossy f [] = []"
| "reader lossy f (Inl e # rs) = (if io_kind e = Interrupted then reader lossy f rs else [Hangup])"
| "reader lossy f (Inr data # rs) =
     (if data = [] then [Hangup]
      else (case feed data f of (lines, drops, f') \<Rightarrow>
        map (\<lambda>n. Oversize (drop_detail (lf_max f) n)) drops @ map (\<lambda>l. Line (lossy l)) lines @
        reader lossy f' rs))"

definition start_reader :: "(byte list \<Rightarrow> string) \<Rightarrow> (io_error + byte list) list \<Rightarrow> event list" where
  "start_reader lossy rs = reader lossy (framer_new MAX_LINE_BYTES) rs"

text \<open>Terminating the child: what is done to it, in order.\<close>

datatype child_step = SigTerm | SigKill | Wait

definition terminate_child :: "bool \<Rightarrow> duration option \<Rightarrow> duration \<Rightarrow> child_step list" where
  "terminate_child already_exited exits_after_term timeout =
     (if already_exited then [Wait]
      else (case exits_after_term of
        Some t \<Rightarrow> (if t \<le> timeout then [SigTerm, Wait] else [SigTerm, SigKill, Wait])
      | None \<Rightarrow> [SigTerm, SigKill, Wait]))"

subsection \<open>D-Bus\<close>

definition APPEARANCE_NS :: string where "APPEARANCE_NS = ''org.freedesktop.appearance''"
definition SCHEME_KEY :: string where "SCHEME_KEY = ''color-scheme''"
definition PORTAL_BUS_NAME :: string where "PORTAL_BUS_NAME = ''org.freedesktop.portal.Desktop''"
definition PORTAL_OBJECT_PATH :: string where "PORTAL_OBJECT_PATH = ''/org/freedesktop/portal/desktop''"
definition PORTAL_INTERFACE :: string where "PORTAL_INTERFACE = ''org.freedesktop.portal.Settings''"

datatype dbus_value =
  VVariant dbus_value
| VU8 "8 word"
| VI16 "16 word"
| VU16 "16 word"
| VI32 "32 word"
| VU32 "32 word"
| VI64 "64 word"
| VU64 "64 word"
| VOther string

definition u32_try_from :: "int \<Rightarrow> nat option" where
  "u32_try_from wide = (if 0 \<le> wide \<and> wide < 2 ^ 32 then Some (nat wide) else None)"

definition u32_or_zero :: "int \<Rightarrow> nat option" where
  "u32_or_zero wide = Some (case u32_try_from wide of Some n \<Rightarrow> n | None \<Rightarrow> 0)"

fun scheme_value :: "dbus_value \<Rightarrow> nat option" where
  "scheme_value (VVariant inner) = scheme_value inner"
| "scheme_value (VU8 v) = u32_or_zero (uint v)"
| "scheme_value (VI16 v) = u32_or_zero (sint v)"
| "scheme_value (VU16 v) = u32_or_zero (uint v)"
| "scheme_value (VI32 v) = u32_or_zero (sint v)"
| "scheme_value (VU32 v) = u32_or_zero (uint v)"
| "scheme_value (VI64 v) = u32_or_zero (sint v)"
| "scheme_value (VU64 v) = u32_or_zero (uint v)"
| "scheme_value (VOther _) = None"

definition scheme_event :: "(dbus_value \<Rightarrow> string) \<Rightarrow> string \<Rightarrow> string \<Rightarrow> dbus_value \<Rightarrow> event option" where
  "scheme_event show_value namespace key v =
     (if namespace \<noteq> APPEARANCE_NS \<or> key \<noteq> SCHEME_KEY then None
      else Some (case scheme_value v of
        Some n \<Rightarrow> Scheme n
      | None \<Rightarrow> SchemeMalformed (''non-integer color-scheme value: '' @ show_value v)))"

text \<open>A method call on the bus: \<open>None\<close> is an error reply, or a body that is not a value.\<close>

definition read_color_scheme ::
  "(string \<Rightarrow> string \<Rightarrow> string \<Rightarrow> string \<Rightarrow> string \<times> string \<Rightarrow> dbus_value option) \<Rightarrow> nat option" where
  "read_color_scheme call =
     Option.bind (call PORTAL_BUS_NAME PORTAL_OBJECT_PATH PORTAL_INTERFACE ''Read'' (APPEARANCE_NS, SCHEME_KEY))
       scheme_value"

record match_rule =
  mr_sender :: string
  mr_path :: "string option"
  mr_interface :: string
  mr_member :: string

definition scheme_rule :: match_rule where
  "scheme_rule = \<lparr>mr_sender = PORTAL_BUS_NAME, mr_path = Some PORTAL_OBJECT_PATH,
     mr_interface = PORTAL_INTERFACE, mr_member = ''SettingChanged''\<rparr>"

definition vanish_rule :: match_rule where
  "vanish_rule = \<lparr>mr_sender = ''org.freedesktop.DBus'', mr_path = None,
     mr_interface = ''org.freedesktop.DBus'', mr_member = ''NameOwnerChanged''\<rparr>"

text \<open>
  A listener: \<open>deliver\<close> is what the bus passes through for a rule (a message or a stream error); the
  body of a message is what it deserializes to, if anything.
\<close>

definition listener :: "(match_rule \<Rightarrow> (io_error + 'm) list) \<Rightarrow> match_rule \<Rightarrow> ('m \<Rightarrow> event option) \<Rightarrow> event list" where
  "listener deliver rule handle =
     List.map_filter (\<lambda>m. case m of Inl _ \<Rightarrow> None | Inr msg \<Rightarrow> handle msg) (deliver rule)"

definition handle_scheme :: "(dbus_value \<Rightarrow> string) \<Rightarrow> (string \<times> string \<times> dbus_value) option \<Rightarrow> event option" where
  "handle_scheme show_value body =
     (case body of None \<Rightarrow> None | Some (ns, key, v) \<Rightarrow> scheme_event show_value ns key v)"

definition watch_scheme ::
  "(dbus_value \<Rightarrow> string) \<Rightarrow> (match_rule \<Rightarrow> (io_error + (string \<times> string \<times> dbus_value) option) list) \<Rightarrow> event list" where
  "watch_scheme show_value deliver = listener deliver scheme_rule (handle_scheme show_value)"

definition handle_vanish :: "(string \<times> string \<times> string) option \<Rightarrow> event option" where
  "handle_vanish body =
     (case body of None \<Rightarrow> None | Some (name, _, new) \<Rightarrow> if new = [] then Some (Vanish name) else None)"

definition watch_vanish ::
  "(match_rule \<Rightarrow> (io_error + (string \<times> string \<times> string) option) list) \<Rightarrow> event list" where
  "watch_vanish deliver = listener deliver vanish_rule handle_vanish"

text \<open>SIGTERM and SIGINT.\<close>

definition watch_signals :: "nat list \<Rightarrow> event list" where
  "watch_signals arrived = map (\<lambda>_. Shutdown) arrived"

subsection \<open>The reader sends the lines of the stream\<close>

fun line_of :: "event \<Rightarrow> string option" where
  "line_of (Line l) = Some l"
| "line_of _ = None"

fun is_oversize :: "event \<Rightarrow> bool" where
  "is_oversize (Oversize _) = True"
| "is_oversize _ = False"

text \<open>The bytes read before the stream ended, if it ended.\<close>

fun bytes_read :: "(io_error + byte list) list \<Rightarrow> byte list \<times> bool" where
  "bytes_read [] = ([], False)"
| "bytes_read (Inl e # rs) = (if io_kind e = Interrupted then bytes_read rs else ([], True))"
| "bytes_read (Inr d # rs) = (if d = [] then ([], True) else (d @ fst (bytes_read rs), snd (bytes_read rs)))"

lemma map_filter_lines [simp]:
  "List.map_filter line_of (map (\<lambda>n. Oversize (g n)) ns) = []"
  "List.map_filter line_of (map (\<lambda>l. Line (h l)) ls) = map h ls"
  "List.map_filter line_of (xs @ ys) = List.map_filter line_of xs @ List.map_filter line_of ys"
  by (induction ns) (simp_all add: List.map_filter_simps List.map_filter_def comp_def)

lemma filter_oversize [simp]:
  "filter is_oversize (map (\<lambda>n. Oversize (g n)) ns) = map (\<lambda>n. Oversize (g n)) ns"
  "filter is_oversize (map (\<lambda>l. Line (h l)) ls) = []"
  by (induction ns) (simp_all add: filter_empty_conv)

lemma count_hangup_map [simp]:
  "count_list (map (\<lambda>n. Oversize (g n)) ns) Hangup = 0" "count_list (map (\<lambda>l. Line (h l)) ls) Hangup = 0"
  by (auto simp: count_list_0_iff)

lemma reader_spec:
  "let evs = reader lossy (framer_after mx s) rs; b = fst (bytes_read rs) in
     map lossy (accepted_lines mx (s @ b)) = map lossy (accepted_lines mx s) @ List.map_filter line_of evs \<and>
     refused_lines mx (s @ b) = refused_lines mx s + length (filter is_oversize evs) \<and>
     count_list evs Hangup = (if snd (bytes_read rs) then 1 else 0) \<and>
     (snd (bytes_read rs) \<longrightarrow> evs \<noteq> [] \<and> last evs = Hangup)"
proof (induction rs arbitrary: s rule: bytes_read.induct)
  case 1
  then show ?case by (simp add: List.map_filter_simps)
next
  case (2 e rs)
  show ?case
  proof (cases "io_kind e = Interrupted")
    case True
    with 2 [OF True, of s] show ?thesis by (simp add: Let_def)
  next
    case False
    then show ?thesis by (simp add: Let_def List.map_filter_simps)
  qed
next
  case (3 d rs)
  show ?case
  proof (cases "d = []")
    case True
    then show ?thesis by (simp add: Let_def List.map_filter_simps)
  next
    case False
    obtain lines drops f where fd: "feed d (framer_after mx s) = (lines, drops, f)"
      by (cases "feed d (framer_after mx s)")
    note one = feed_one [OF fd]
    note IH = 3 [OF False, of "s @ d", unfolded one(3) [symmetric] Let_def]
    show ?thesis
      using False IH one fd by (auto simp: Let_def append_assoc)
  qed
qed

text \<open>Sources, playerctl reader: however the child's output is cut into reads, the lines sent are the
  complete lines of the stream that fit the bound, decoded, in order; one oversize report per refused
  line; and exactly one hangup, the last event, when the stream has ended.\<close>

theorem reader_lines_exact:
  "let evs = start_reader lossy rs; b = fst (bytes_read rs) in
     List.map_filter line_of evs = map lossy (accepted_lines MAX_LINE_BYTES b) \<and>
     length (filter is_oversize evs) = refused_lines MAX_LINE_BYTES b \<and>
     count_list evs Hangup = (if snd (bytes_read rs) then 1 else 0) \<and>
     (if snd (bytes_read rs) then last evs = Hangup else Hangup \<notin> set evs)"
proof -
  have "refused_lines MAX_LINE_BYTES [] = 0" "accepted_lines MAX_LINE_BYTES [] = []"
    by (simp_all add: refused_lines_def accepted_lines_def complete_lines_def)
  with reader_spec [of lossy MAX_LINE_BYTES "[]" rs] show ?thesis
    by (auto simp: start_reader_def framer_new_after Let_def count_list_0_iff split: if_splits)
qed

subsection \<open>The colour scheme\<close>

text \<open>The integer a value carries, through any nesting of variants.\<close>

fun wire_int :: "dbus_value \<Rightarrow> int option" where
  "wire_int (VVariant v) = wire_int v"
| "wire_int (VU8 v) = Some (uint v)"
| "wire_int (VI16 v) = Some (sint v)"
| "wire_int (VU16 v) = Some (uint v)"
| "wire_int (VI32 v) = Some (sint v)"
| "wire_int (VU32 v) = Some (uint v)"
| "wire_int (VI64 v) = Some (sint v)"
| "wire_int (VU64 v) = Some (uint v)"
| "wire_int (VOther _) = None"

lemma u32_or_zero_mode:
  "map_option mode_from_color_scheme (u32_or_zero x) = Some (if x = 2 then Light else Dark)"
  by (auto simp: u32_or_zero_def u32_try_from_def mode_from_color_scheme_def)

lemma scheme_value_mode:
  "map_option mode_from_color_scheme (scheme_value v) =
     map_option (\<lambda>x. if x = 2 then Light else Dark) (wire_int v)"
  by (induction v) (simp_all add: u32_or_zero_mode)

text \<open>The mode an event of the listener asks for, if it is one.\<close>

fun event_mode :: "event \<Rightarrow> mode option" where
  "event_mode (Scheme n) = Some (mode_from_color_scheme n)"
| "event_mode _ = None"

definition is_scheme_setting :: "string \<times> string \<times> 'v \<Rightarrow> bool" where
  "is_scheme_setting b \<longleftrightarrow> fst b = APPEARANCE_NS \<and> fst (snd b) = SCHEME_KEY"

lemma scheme_event_mode:
  "(case handle_scheme sv body of None \<Rightarrow> None | Some e \<Rightarrow> event_mode e) =
     (case body of None \<Rightarrow> None
      | Some b \<Rightarrow> (if is_scheme_setting b
          then map_option (\<lambda>x. if x = 2 then Light else Dark) (wire_int (snd (snd b))) else None))"
proof (cases body)
  case None
  then show ?thesis by (simp add: handle_scheme_def)
next
  case (Some b)
  obtain ns key v where b: "b = (ns, key, v)" by (cases b)
  show ?thesis
    using scheme_value_mode [of v] Some b
    by (cases "scheme_value v"; cases "wire_int v")
      (auto simp: handle_scheme_def scheme_event_def is_scheme_setting_def)
qed

text \<open>Sources, D-Bus: the modes the scheme listener asks for are, in order, those of the delivered
  color-scheme settings that carry an integer: light exactly for the value 2 whatever its width and
  sign (a negative or too wide number never aliases to 2), and other settings are ignored.\<close>

theorem watch_scheme_modes:
  "List.map_filter event_mode (watch_scheme sv deliver) =
     List.map_filter (\<lambda>m. case m of
         Inr (Some b) \<Rightarrow> (if is_scheme_setting b
           then map_option (\<lambda>x. if x = 2 then Light else Dark) (wire_int (snd (snd b))) else None)
       | _ \<Rightarrow> None) (deliver scheme_rule)"
proof -
  have "List.map_filter event_mode (List.map_filter (\<lambda>m. case m of Inl _ \<Rightarrow> None | Inr b \<Rightarrow> handle_scheme sv b) ms) =
     List.map_filter (\<lambda>m. case m of
         Inr (Some b) \<Rightarrow> (if is_scheme_setting b
           then map_option (\<lambda>x. if x = 2 then Light else Dark) (wire_int (snd (snd b))) else None)
       | _ \<Rightarrow> None) ms" for ms :: "(io_error + (string \<times> string \<times> dbus_value) option) list"
  proof (induction ms)
    case Nil
    then show ?case by (simp add: List.map_filter_simps)
  next
    case (Cons m ms)
    show ?case
    proof (cases m)
      case (Inl e)
      with Cons show ?thesis by (simp add: List.map_filter_simps)
    next
      case (Inr body)
      with Cons scheme_event_mode [of sv body] show ?thesis
        by (auto simp: List.map_filter_simps split: option.splits if_splits)
    qed
  qed
  then show ?thesis by (simp add: watch_scheme_def listener_def)
qed

end
