(* ===== verification/Quantize.thy ===== *)
theory Quantize
  imports Prelude "HOL-Library.Product_Lexorder"
begin

unbundle bit_operations_syntax

text \<open>
  The median-cut quantizer (\<open>src/color/quantize.rs\<close>). A colour \<open>[u8; 3]\<close> is a triple of
  8-bit words; hashes keep their 32 bits; pixel counts are natural numbers, with the places
  where the source casts to \<open>i32\<close> or wraps written out. A panic (an index out of range, a missing
  key, a failed assertion) is \<open>None\<close>. The mean of a box is the exact real quotient: the \<open>f64\<close>
  quotient of two 32-bit integers truncates to the same byte. The per-colour cache of the last pass
  memoizes a pure function of the colour and is left out.
\<close>

type_synonym rgb = "8 word \<times> 8 word \<times> 8 word"

definition axis_of :: "rgb \<Rightarrow> nat \<Rightarrow> 8 word" where
  "axis_of p i = (case p of (r, g, b) \<Rightarrow> if i = 0 then r else if i = 1 then g else b)"

definition pixel_hash :: "rgb \<Rightarrow> 32 word" where
  "pixel_hash p = (case p of (r, g, b) \<Rightarrow>
     (ucast r * 463) XOR (push_bit 8 (ucast g) * 10069) XOR (push_bit 16 (ucast b) * 64997))"

definition MAX_HASH_ENTRIES :: nat where
  "MAX_HASH_ENTRIES = 65536"

definition dist_sq :: "rgb \<Rightarrow> rgb \<Rightarrow> nat" where
  "dist_sq a b = (\<Sum>i \<leftarrow> [0, 1, 2]. nat ((uint (axis_of a i) - uint (axis_of b i)) ^ 2))"

record entry =
  en_color :: rgb
  en_count :: nat

record box_node =
  bn_entries :: "entry list"
  bn_pixel_count :: nat
  bn_children :: "(nat \<times> nat) option"

definition entry_axis :: "nat \<Rightarrow> entry \<Rightarrow> nat" where
  "entry_axis axis e = unat (axis_of (en_color e) axis)"

definition box_range :: "box_node \<Rightarrow> nat \<Rightarrow> nat \<times> nat" where
  "box_range b axis =
     (case map (entry_axis axis) (bn_entries b) of
        [] \<Rightarrow> (0, 0)
      | x # xs \<Rightarrow> (fold min xs x, fold max xs x))"

definition volume :: "box_node \<Rightarrow> int" where
  "volume b =
     (if bn_entries b = [] then 0
      else (\<Prod>a \<leftarrow> [0, 1, 2]. case box_range b a of (lo, hi) \<Rightarrow> int hi - int lo + 1))"

subsection \<open>The heap\<close>

text \<open>\<open>slots\<close> is 1-based: \<open>slots ! 0\<close> is unused. \<open>as_i32\<close> is the cast, and the difference wraps.\<close>

definition as_i32 :: "int \<Rightarrow> int" where
  "as_i32 x = signed_take_bit 31 x"

definition heap_cmp :: "box_node list \<Rightarrow> nat \<Rightarrow> nat \<Rightarrow> int" where
  "heap_cmp boxes a b =
     as_i32 (as_i32 (int (bn_pixel_count (boxes ! a))) - as_i32 (int (bn_pixel_count (boxes ! b))))"

function sift_up :: "box_node list \<Rightarrow> nat \<Rightarrow> nat \<Rightarrow> nat list \<Rightarrow> nat list" where
  "sift_up boxes val k slots =
     (if k \<le> 1 then slots[k := val]
      else if heap_cmp boxes val (slots ! (k div 2)) \<le> 0 then slots[k := val]
      else sift_up boxes val (k div 2) (slots[k := slots ! (k div 2)]))"
  by pat_completeness auto
termination by (relation "measure (\<lambda>(boxes, val, k, slots). k)") auto

definition heap_add :: "box_node list \<Rightarrow> nat \<Rightarrow> nat list \<Rightarrow> nat list" where
  "heap_add boxes val slots = (let s = slots @ [val] in sift_up boxes val (length s - 1) s)"

function sift_down :: "box_node list \<Rightarrow> nat \<Rightarrow> nat \<Rightarrow> nat \<Rightarrow> nat list \<Rightarrow> nat list" where
  "sift_down boxes v cnt k slots =
     (if 1 \<le> k \<and> k * 2 \<le> cnt then
        (let l0 = k * 2;
             l = (if l0 < cnt \<and> heap_cmp boxes (slots ! l0) (slots ! (l0 + 1)) < 0 then l0 + 1 else l0)
         in if heap_cmp boxes v (slots ! l) > 0 then slots[k := v]
            else sift_down boxes v cnt l (slots[k := slots ! l]))
      else slots[k := v])"
  by pat_completeness auto
termination by (relation "measure (\<lambda>(boxes, v, cnt, k, slots). Suc cnt - k)") auto

definition heap_remove :: "box_node list \<Rightarrow> nat list \<Rightarrow> nat option \<times> nat list" where
  "heap_remove boxes slots =
     (let count = length slots - 1 in
      if count = 0 then (None, slots)
      else
        let top = slots ! 1; v = last slots; rest = butlast slots; count' = count - 1 in
        if count' = 0 then (Some top, rest)
        else (Some top, sift_down boxes v count' 1 rest))"

subsection \<open>Splitting a box\<close>

text \<open>The axis loop: strictly larger weighted extents win.\<close>

definition better_axis :: "box_node \<Rightarrow> nat \<times> int \<Rightarrow> int option \<times> nat \<Rightarrow> int option \<times> nat" where
  "better_axis b iw best =
     (case iw of (i, w) \<Rightarrow>
        let f = (case box_range b i of (lo, hi) \<Rightarrow> (int hi - int lo) * w)
        in if (case fst best of None \<Rightarrow> True | Some m \<Rightarrow> m < f) then (Some f, i) else best)"

definition split_axis :: "box_node \<Rightarrow> nat" where
  "split_axis b = snd (fold (better_axis b) [(0, 77), (1, 150), (2, 29)] (None, 0))"

fun median_len :: "nat \<Rightarrow> nat \<Rightarrow> nat \<Rightarrow> entry list \<Rightarrow> nat" where
  "median_len pixel_count left left_len [] = left_len"
| "median_len pixel_count left left_len (e # es) =
     (if (2 * (left + en_count e)) mod 2 ^ 32 > pixel_count then left_len + 1
      else median_len pixel_count (left + en_count e) (left_len + 1) es)"

definition left_length :: "nat \<Rightarrow> nat \<Rightarrow> entry list \<Rightarrow> nat" where
  "left_length axis pixel_count sorted_entries =
     (let n = length sorted_entries;
          m = median_len pixel_count 0 0 sorted_entries;
          m' = (if m < n then
                  m + length (takeWhile (\<lambda>e. entry_axis axis e = entry_axis axis (sorted_entries ! (m - 1)))
                        (drop m sorted_entries))
                else m)
      in if m' = n then
           n - length (takeWhile (\<lambda>e. entry_axis axis e = entry_axis axis (last sorted_entries)) (rev sorted_entries))
         else m')"

definition leaf :: "entry list \<Rightarrow> box_node" where
  "leaf es = \<lparr>bn_entries = es, bn_pixel_count = sum_list (map en_count es), bn_children = None\<rparr>"

text \<open>An empty box has no last entry: the source would panic.\<close>

definition split :: "box_node \<Rightarrow> (box_node \<times> box_node) option" where
  "split b =
     (let axis = split_axis b;
          es = sort_key (\<lambda>e. - int (entry_axis axis e)) (bn_entries b)
      in if es = [] then None
         else let n = left_length axis (bn_pixel_count b) es
              in Some (leaf (take n es), leaf (drop n es)))"

subsection \<open>The quantizer\<close>

definition count_pixel :: "rgb \<Rightarrow> 32 word list \<times> (32 word \<times> entry) list \<Rightarrow> 32 word list \<times> (32 word \<times> entry) list" where
  "count_pixel p st =
     (case st of (order, table) \<Rightarrow>
        let h = pixel_hash p in
        case map_of table h of
          Some e \<Rightarrow> (order, AList.update h (e\<lparr>en_count := en_count e + 1\<rparr>) table)
        | None \<Rightarrow> (order @ [h], AList.update h \<lparr>en_color = p, en_count = 1\<rparr> table))"

definition color_table :: "rgb list \<Rightarrow> 32 word list \<times> (32 word \<times> entry) list" where
  "color_table pixels = fold count_pixel pixels ([], [])"

definition root_box :: "rgb list \<Rightarrow> box_node" where
  "root_box pixels =
     (case color_table pixels of (order, table) \<Rightarrow>
        \<lparr>bn_entries = map (\<lambda>h. the (map_of table h)) order,
         bn_pixel_count = length pixels mod 2 ^ 32, bn_children = None\<rparr>)"

text \<open>Pop boxes until one has more than one colour cell.\<close>

declare sift_up.simps [simp del] sift_down.simps [simp del]

lemma length_sift_up [simp]: "length (sift_up boxes val k slots) = length slots"
proof (induction boxes val k slots rule: sift_up.induct)
  case (1 boxes val k slots)
  then show ?case by (subst sift_up.simps) auto
qed

lemma length_sift_down [simp]: "length (sift_down boxes v c k slots) = length slots"
proof (induction boxes v c k slots rule: sift_down.induct)
  case (1 boxes v c k slots)
  then show ?case by (subst sift_down.simps) (auto simp: Let_def)
qed

lemma heap_remove_length:
  "heap_remove boxes slots = (Some n, rest) \<Longrightarrow> length rest < length slots"
  by (auto simp: heap_remove_def Let_def split: if_splits)

function next_box :: "box_node list \<Rightarrow> nat list \<Rightarrow> nat option \<times> nat list" where
  "next_box boxes slots =
     (case heap_remove boxes slots of
        (None, rest) \<Rightarrow> (None, rest)
      | (Some n, rest) \<Rightarrow> (if volume (boxes ! n) = 1 then next_box boxes rest else (Some n, rest)))"
  by pat_completeness auto
termination
  by (relation "measure (\<lambda>(boxes, slots). length slots)") (simp_all, metis heap_remove_length)

primrec median_cut :: "nat \<Rightarrow> box_node list \<Rightarrow> nat list \<Rightarrow> box_node list option" where
  "median_cut 0 boxes slots = Some boxes"
| "median_cut (Suc k) boxes slots =
     (case next_box boxes slots of
        (None, _) \<Rightarrow> Some boxes
      | (Some node, rest) \<Rightarrow>
          (case split (boxes ! node) of
             None \<Rightarrow> None
           | Some (l, r) \<Rightarrow>
               (let li = length boxes; ri = length boxes + 1;
                    boxes' = (boxes @ [l, r])[node := (boxes ! node)\<lparr>bn_children := Some (li, ri)\<rparr>]
                in median_cut k boxes' (heap_add boxes' ri (heap_add boxes' li rest)))))"

declare next_box.simps [simp del]


text \<open>Number the leaves depth-first, left first.\<close>

partial_function (option) number_leaves ::
  "box_node list \<Rightarrow> nat list \<Rightarrow> (32 word \<times> nat) list \<Rightarrow> nat \<Rightarrow> ((32 word \<times> nat) list \<times> nat) option" where
  "number_leaves boxes stack box_of n_entries =
     (case stack of
        [] \<Rightarrow> Some (box_of, n_entries)
      | n # rest \<Rightarrow>
          (case bn_children (boxes ! n) of
             Some (l, r) \<Rightarrow> number_leaves boxes (l # r # rest) box_of n_entries
           | None \<Rightarrow>
               number_leaves boxes rest
                 (fold (\<lambda>e. AList.update (pixel_hash (en_color e)) n_entries) (bn_entries (boxes ! n)) box_of)
                 (if bn_entries (boxes ! n) = [] then n_entries else n_entries + 1)))"

declare number_leaves.simps [code]

text \<open>The mean of the pixels of one box, per channel; \<open>as u8\<close> saturates.\<close>

definition real_as_u8 :: "real \<Rightarrow> 8 word" where
  "real_as_u8 x = word_of_int (max 0 (min 255 \<lfloor>x\<rfloor>))"

definition box_sum :: "(rgb \<Rightarrow> nat option) \<Rightarrow> rgb list \<Rightarrow> nat \<Rightarrow> nat \<Rightarrow> nat" where
  "box_sum own pixels i ch =
     sum_list (map (\<lambda>p. unat (axis_of p ch)) (filter (\<lambda>p. own p = Some i) pixels))"

definition box_pixels :: "(rgb \<Rightarrow> nat option) \<Rightarrow> rgb list \<Rightarrow> nat \<Rightarrow> nat" where
  "box_pixels own pixels i = length (filter (\<lambda>p. own p = Some i) pixels)"

definition palette_entry :: "(rgb \<Rightarrow> nat option) \<Rightarrow> rgb list \<Rightarrow> nat \<Rightarrow> rgb" where
  "palette_entry own pixels i =
     (let mean = (\<lambda>ch. real_as_u8 (1 / 2 + real (box_sum own pixels i ch) / real (box_pixels own pixels i)))
      in (mean 0, mean 1, mean 2))"

text \<open>The search outward from a pixel's own box.\<close>

fun search_from :: "rgb list \<Rightarrow> nat \<Rightarrow> rgb \<Rightarrow> nat \<Rightarrow> nat list \<Rightarrow> nat \<times> nat \<Rightarrow> nat" where
  "search_from palette own p limit [] best = fst best"
| "search_from palette own p limit (idx # row) best =
     (if dist_sq (palette ! own) (palette ! idx) > limit then fst best
      else let d = dist_sq (palette ! idx) p
           in search_from palette own p limit row (if d < snd best then (idx, d) else best))"

definition distance_row :: "rgb list \<Rightarrow> nat \<Rightarrow> nat list" where
  "distance_row palette i =
     sort_key (\<lambda>j. (dist_sq (palette ! i) (palette ! j), j)) [0..<length palette]"

definition nearest_index :: "rgb list \<Rightarrow> nat \<Rightarrow> rgb \<Rightarrow> nat" where
  "nearest_index palette own p =
     (let d = dist_sq (palette ! own) p
      in search_from palette own p (4 * d) (distance_row palette own) (own, d))"

record quantized =
  qz_palette :: "rgb list"
  qz_indices :: "nat list"

definition quantized_colors :: "quantized \<Rightarrow> (nat \<times> nat) list" where
  "quantized_colors q =
     map (\<lambda>i. (count_list (qz_indices q) i, i))
       (filter (\<lambda>i. count_list (qz_indices q) i > 0) [0..<length (qz_palette q)])"

definition map_pixels :: "rgb list \<Rightarrow> (32 word \<times> nat) list \<Rightarrow> nat \<Rightarrow> quantized option" where
  "map_pixels pixels box_of n =
     (let own = (\<lambda>p. map_of box_of (pixel_hash p)) in
      if list_all (\<lambda>p. case own p of None \<Rightarrow> False | Some b \<Rightarrow> b < n) pixels then
        let palette = map (palette_entry own pixels) [0..<n]
        in Some \<lparr>qz_palette = palette,
                 qz_indices = map (\<lambda>p. nearest_index palette (the (own p)) p mod 2 ^ 8) pixels\<rparr>
      else None)"

definition quantize :: "rgb list \<Rightarrow> nat \<Rightarrow> quantized option" where
  "quantize pixels colors =
     (if colors < 1 \<or> 256 < colors then None
      else if pixels = [] then Some \<lparr>qz_palette = [], qz_indices = []\<rparr>
      else if length (snd (color_table pixels)) > MAX_HASH_ENTRIES then None
      else
        let boxes0 = [root_box pixels] in
        Option.bind (median_cut (colors - 1) boxes0 (heap_add boxes0 0 [0])) (\<lambda>boxes.
        Option.bind (number_leaves boxes [0] [] 0) (\<lambda>(box_of, n).
        map_pixels pixels box_of n)))"

end
