(* ===== verification/Oklab.thy ===== *)
theory Oklab
  imports Apply Quantize
begin

text \<open>
  Oklab and OkLCh (\<open>src/color/oklab.rs\<close>). A float is an exact real: the model says what the formulas
  compute, not how an \<open>f64\<close> rounds them; \<open>powf\<close> is \<open>powr\<close> on positive numbers and the cube where the
  exponent is 3, \<open>cbrt\<close> the odd real root, \<open>atan2\<close> the argument of a complex number, and the casts to
  \<open>u8\<close> saturate. NaN and signed zeros do not occur.
\<close>

type_synonym lab = "real \<times> real \<times> real"
type_synonym lch = "real \<times> real \<times> real"

definition to_linear :: "real \<Rightarrow> real" where
  "to_linear c = (if c \<le> 0.04045 then c / 12.92 else ((c + 0.055) / 1.055) powr 2.4)"

definition to_gamma :: "real \<Rightarrow> real" where
  "to_gamma c = (if c \<le> 0.0031308 then 12.92 * c else 1.055 * (c powr (1 / 2.4)) - 0.055)"

definition srgb_to_oklab :: "real \<Rightarrow> real \<Rightarrow> real \<Rightarrow> lab" where
  "srgb_to_oklab r0 g0 b0 =
     (let r = to_linear r0; g = to_linear g0; b = to_linear b0;
          l = root 3 (0.4122214708 * r + 0.5363325363 * g + 0.0514459929 * b);
          m = root 3 (0.2119034982 * r + 0.6806995451 * g + 0.1073969566 * b);
          s = root 3 (0.0883024619 * r + 0.2817188376 * g + 0.6299787005 * b)
      in (0.2104542553 * l + 0.7936177850 * m - 0.0040720468 * s,
          1.9779984951 * l - 2.4285922050 * m + 0.4505937099 * s,
          0.0259040371 * l + 0.7827717662 * m - 0.8086757660 * s))"

definition to_linear_rgb :: "real \<Rightarrow> real \<Rightarrow> real \<Rightarrow> real \<times> real \<times> real" where
  "to_linear_rgb l0 a b =
     (let l = (l0 + 0.3963377774 * a + 0.2158037573 * b) ^ 3;
          m = (l0 - 0.1055613458 * a - 0.0638541728 * b) ^ 3;
          s = (l0 - 0.0894841775 * a - 1.2914855480 * b) ^ 3
      in (4.0767416621 * l - 3.3077115913 * m + 0.2309699292 * s,
          - 1.2684380046 * l + 2.6097574011 * m - 0.3413193965 * s,
          - 0.0041960863 * l - 0.7034186147 * m + 1.7076147010 * s))"

definition in_gamut :: "real \<Rightarrow> real \<Rightarrow> real \<Rightarrow> bool" where
  "in_gamut l a b =
     (case to_linear_rgb l a b of (r, g, bb) \<Rightarrow>
        list_all (\<lambda>c. - (1 / 10 ^ 7) \<le> c \<and> c \<le> 1 + 1 / 10 ^ 7) [r, g, bb])"

definition clamp :: "real \<Rightarrow> real \<Rightarrow> real \<Rightarrow> real" where
  "clamp lo hi x = max lo (min hi x)"

definition oklab_to_srgb :: "real \<Rightarrow> real \<Rightarrow> real \<Rightarrow> real \<times> real \<times> real" where
  "oklab_to_srgb l a b =
     (case to_linear_rgb l a b of (r, g, bb) \<Rightarrow>
        let enc = (\<lambda>c. clamp 0 1 (to_gamma (clamp 0 1 c))) in (enc r, enc g, enc bb))"

definition atan2 :: "real \<Rightarrow> real \<Rightarrow> real" where
  "atan2 y x = Arg (Complex x y)"

definition to_lch :: "real \<Rightarrow> real \<Rightarrow> real \<Rightarrow> lch" where
  "to_lch l a b = (l, sqrt (a\<^sup>2 + b\<^sup>2), atan2 b a)"

definition from_lch :: "real \<Rightarrow> real \<Rightarrow> real \<Rightarrow> lab" where
  "from_lch l c h = (l, c * cos h, c * sin h)"

definition C_BRACKET :: real where "C_BRACKET = 0.5"
definition BISECTIONS :: nat where "BISECTIONS = 24"

primrec bisect :: "nat \<Rightarrow> real \<Rightarrow> real \<Rightarrow> real \<times> real \<Rightarrow> real \<times> real" where
  "bisect 0 l h lohi = lohi"
| "bisect (Suc n) l h lohi =
     (case lohi of (lo, hi) \<Rightarrow>
        let mid = (lo + hi) / 2
        in case from_lch l mid h of (l1, a, b) \<Rightarrow>
             bisect n l h (if in_gamut l1 a b then (mid, hi) else (lo, mid)))"

definition max_chroma :: "real \<Rightarrow> real \<Rightarrow> real" where
  "max_chroma l h = fst (bisect BISECTIONS l h (0, C_BRACKET))"

definition delta_e :: "lab \<Rightarrow> lab \<Rightarrow> real" where
  "delta_e p q =
     (case (p, q) of ((p0, p1, p2), (q0, q1, q2)) \<Rightarrow>
        sqrt ((p0 - q0) * (p0 - q0) + (p1 - q1) * (p1 - q1) + (p2 - q2) * (p2 - q2)))"

text \<open>
  \<open>u8::from_str_radix\<close> on two characters: both digits, or a plus sign and one digit.
\<close>

definition hex_value :: "char \<Rightarrow> nat option" where
  "hex_value c =
     (let n = of_char c :: nat in
      if 48 \<le> n \<and> n \<le> 57 then Some (n - 48)
      else if 65 \<le> n \<and> n \<le> 70 then Some (n - 55)
      else if 97 \<le> n \<and> n \<le> 102 then Some (n - 87)
      else None)"

definition parse_hex_pair :: "char \<Rightarrow> char \<Rightarrow> nat option" where
  "parse_hex_pair x y =
     (if x = CHR ''+'' then hex_value y
      else (case (hex_value x, hex_value y) of (Some a, Some b) \<Rightarrow> Some (16 * a + b) | _ \<Rightarrow> None))"

text \<open>A panic is \<open>None\<close>; slicing inside a multi-byte character fails on its bytes as well.\<close>

definition hex_channels :: "string \<Rightarrow> (nat \<times> nat \<times> nat) option" where
  "hex_channels v =
     (case v of
        [h, r1, r2, g1, g2, b1, b2] \<Rightarrow>
          (if h \<noteq> CHR ''#'' then None
           else (case (parse_hex_pair r1 r2, parse_hex_pair g1 g2, parse_hex_pair b1 b2) of
             (Some r, Some g, Some b) \<Rightarrow> Some (r, g, b) | _ \<Rightarrow> None))
      | _ \<Rightarrow> None)"

definition hex_to_lch :: "string \<Rightarrow> lch option" where
  "hex_to_lch v =
     map_option (\<lambda>(r, g, b).
        case srgb_to_oklab (real r / 255) (real g / 255) (real b / 255) of (l, a, bb) \<Rightarrow> to_lch l a bb)
       (hex_channels v)"

definition round_ties_even :: "real \<Rightarrow> int" where
  "round_ties_even x =
     (let f = \<lfloor>x\<rfloor>; d = x - real_of_int f in
      if d < 1 / 2 then f else if d > 1 / 2 then f + 1 else if even f then f else f + 1)"

definition channel_to_u8 :: "real \<Rightarrow> nat" where
  "channel_to_u8 v = nat (max 0 (min 255 (round_ties_even (v * 255))))"

definition hex_color :: "nat \<Rightarrow> nat \<Rightarrow> nat \<Rightarrow> string" where
  "hex_color r g b = CHR ''#'' # hex_byte r @ hex_byte g @ hex_byte b"

definition lch_to_hex :: "real \<Rightarrow> real \<Rightarrow> real \<Rightarrow> string" where
  "lch_to_hex l c h =
     (case from_lch l c h of (l1, a, b) \<Rightarrow>
        (case oklab_to_srgb l1 a b of (r, g, bb) \<Rightarrow>
           hex_color (channel_to_u8 r) (channel_to_u8 g) (channel_to_u8 bb)))"

subsection \<open>Hexadecimal colours\<close>

lemma hex_value_digit [simp]: "n < 16 \<Longrightarrow> hex_value (hex_digit n) = Some n"
  by (auto simp: hex_value_def hex_digit_def)

lemma hex_digit_valid: "n < 16 \<Longrightarrow> is_ascii_hexdigit (hex_digit n)"
  by (auto simp: is_ascii_hexdigit_def hex_digit_def)

lemma hex_digit_not_plus: "n < 16 \<Longrightarrow> hex_digit n \<noteq> CHR ''+''"
  by (auto simp: hex_digit_def char_of_eq_iff take_bit_eq_mod)

lemma valid_hex_color: "r < 256 \<Longrightarrow> g < 256 \<Longrightarrow> b < 256 \<Longrightarrow> valid_hex (hex_color r g b)"
  by (simp add: valid_hex_def hex_color_def hex_byte_def hex_digit_valid less_mult_imp_div_less)

lemma parse_hex_byte: "n < 256 \<Longrightarrow> parse_hex_pair (hex_digit (n div 16)) (hex_digit (n mod 16)) = Some n"
  by (simp add: parse_hex_pair_def hex_digit_not_plus less_mult_imp_div_less)

lemma hex_color_channels:
  assumes "r < 256" "g < 256" "b < 256"
  shows "hex_channels (hex_color r g b) = Some (r, g, b) \<and> valid_hex (hex_color r g b)"
  using assms by (simp add: hex_channels_def hex_color_def hex_byte_def parse_hex_byte valid_hex_color [unfolded hex_color_def hex_byte_def, simplified])

text \<open>Oklab, hex round trip: printing three bytes as \<open>#rrggbb\<close> gives a string the palette
  validator accepts and reading it back gives the same bytes.\<close>

theorem hex_round_trip:
  assumes "r < 256" "g < 256" "b < 256"
  shows "hex_channels (hex_color r g b) = Some (r, g, b) \<and> valid_hex (hex_color r g b)"
  using assms by (rule hex_color_channels)

theorem hex_round_trip_witness: "hex_channels (hex_color 164 142 199) = Some (164, 142, 199)"
  using hex_round_trip [of 164 142 199] by simp

lemma channel_to_u8_less: "channel_to_u8 v < 256"
  by (simp add: channel_to_u8_def nat_less_iff)

lemma lch_to_hex_valid: "valid_hex (lch_to_hex l c h)"
  by (simp add: lch_to_hex_def valid_hex_color channel_to_u8_less split: prod.split)

subsection \<open>Polar form\<close>

lemma lch_polar: "from_lch l (sqrt (a\<^sup>2 + b\<^sup>2)) (atan2 b a) = (l, a, b)"
proof -
  have "rcis (cmod (Complex a b)) (Arg (Complex a b)) = Complex a b" by (rule rcis_cmod_Arg)
  then have "Re (rcis (cmod (Complex a b)) (Arg (Complex a b))) = a"
    "Im (rcis (cmod (Complex a b)) (Arg (Complex a b))) = b" by simp_all
  then show ?thesis by (simp add: from_lch_def atan2_def cmod_def)
qed

text \<open>Oklab, polar round trip: going to OkLCh and back gives the colour, greys included, with a
  non-negative chroma.\<close>

theorem lch_round_trip:
  "(case to_lch l a b of (l1, c, h) \<Rightarrow> from_lch l1 c h = (l, a, b) \<and> 0 \<le> c)"
  by (simp add: to_lch_def lch_polar)

subsection \<open>The gamut ceiling\<close>

lemma in_gamut_grey: "0 \<le> l \<Longrightarrow> l \<le> 1 \<Longrightarrow> in_gamut l 0 0"
proof -
  assume l: "0 \<le> l" "l \<le> 1"
  then have "- (1 / 10000000) \<le> l ^ 3" "l ^ 3 \<le> 1 + 1 / 10000000"
    using zero_le_power [of l 3] power_le_one [of l 3] by linarith+
  then show ?thesis by (simp add: in_gamut_def to_linear_rgb_def Let_def)
qed

definition chroma_in_gamut :: "real \<Rightarrow> real \<Rightarrow> real \<Rightarrow> bool" where
  "chroma_in_gamut l h c = in_gamut l (c * cos h) (c * sin h)"

lemma bisect_bracket:
  "chroma_in_gamut l h lo \<Longrightarrow> \<not> chroma_in_gamut l h hi \<or> hi = C \<Longrightarrow> lo < hi \<Longrightarrow>
     (case bisect n l h (lo, hi) of (lo', hi') \<Rightarrow>
        chroma_in_gamut l h lo' \<and> (\<not> chroma_in_gamut l h hi' \<or> hi' = C) \<and>
        lo \<le> lo' \<and> hi' \<le> hi \<and> hi' - lo' = (hi - lo) / 2 ^ n)"
proof (induction n arbitrary: lo hi)
  case 0
  then show ?case by simp
next
  case (Suc n)
  let ?mid = "(lo + hi) / 2"
  show ?case
  proof (cases "chroma_in_gamut l h ?mid")
    case True
    with Suc.IH [of ?mid hi] Suc.prems show ?thesis
      by (auto simp: from_lch_def chroma_in_gamut_def field_simps split: prod.splits)
  next
    case False
    with Suc.IH [of lo ?mid] Suc.prems show ?thesis
      by (auto simp: from_lch_def chroma_in_gamut_def field_simps split: prod.splits)
  qed
qed

lemma max_chroma_spec:
  assumes "0 \<le> l" "l \<le> 1"
  shows "0 \<le> max_chroma l h \<and> max_chroma l h < C_BRACKET \<and>
    in_gamut l (max_chroma l h * cos h) (max_chroma l h * sin h) \<and>
    (let c = max_chroma l h + C_BRACKET / 2 ^ 24
     in \<not> in_gamut l (c * cos h) (c * sin h) \<or> c = C_BRACKET)"
proof -
  have "chroma_in_gamut l h 0" using in_gamut_grey [OF assms] by (simp add: chroma_in_gamut_def)
  from bisect_bracket [OF this, of C_BRACKET C_BRACKET BISECTIONS]
  obtain lo hi where b: "bisect BISECTIONS l h (0, C_BRACKET) = (lo, hi)" "chroma_in_gamut l h lo"
    "\<not> chroma_in_gamut l h hi \<or> hi = C_BRACKET" "0 \<le> lo" "hi \<le> C_BRACKET" "hi - lo = C_BRACKET / 2 ^ 24"
    by (auto simp: C_BRACKET_def BISECTIONS_def split: prod.splits)
  moreover have hi: "hi = lo + C_BRACKET / 2 ^ 24" using b(6) by simp
  moreover have "lo < C_BRACKET" using b(5) hi by (simp add: C_BRACKET_def)
  ultimately show ?thesis by (simp add: max_chroma_def chroma_in_gamut_def Let_def)
qed

text \<open>Oklab, gamut ceiling: for any lightness in [0, 1] and any hue, the bisection returns a chroma
  that is in gamut, while one final step (the bracket over 2 to the 24th) more is out of gamut or the end of
  the bracket.\<close>

theorem max_chroma_bracket:
  assumes "0 \<le> l" "l \<le> 1"
  shows "0 \<le> max_chroma l h \<and> max_chroma l h < C_BRACKET \<and>
    in_gamut l (max_chroma l h * cos h) (max_chroma l h * sin h) \<and>
    (let c = max_chroma l h + C_BRACKET / 2 ^ 24
     in \<not> in_gamut l (c * cos h) (c * sin h) \<or> c = C_BRACKET)"
  using assms by (rule max_chroma_spec)

theorem max_chroma_bracket_witness: "0 \<le> max_chroma 0.5 1 \<and> max_chroma 0.5 1 < 0.5"
  using max_chroma_bracket [of "0.5" 1] by (simp add: C_BRACKET_def)

end
