(* ===== verification/Pick.thy ===== *)
theory Pick
  imports Oklab
begin

text \<open>
  Ranking the quantized histogram and picking up to three distinct source colours
  (\<open>src/color/pick.rs\<close>), over exact reals as in \<open>Oklab\<close>.
\<close>

definition VIBRANCY_WEIGHT :: real where "VIBRANCY_WEIGHT = 0.5"
definition VIBRANCY_MIN_POP :: real where "VIBRANCY_MIN_POP = 0.01"
definition SELECT_MIN_DE :: real where "SELECT_MIN_DE = 0.08"

type_synonym hsv = "real \<times> real \<times> real"

type_synonym hist_entry = "nat \<times> hsv"

text \<open>\<open>trunc\<close>, and the remainder \<open>%\<close> of floats, which has the sign of the dividend.\<close>

definition trunc :: "real \<Rightarrow> int" where
  "trunc x = (if x < 0 then \<lceil>x\<rceil> else \<lfloor>x\<rfloor>)"

definition py_mod1 :: "real \<Rightarrow> real" where
  "py_mod1 x =
     (let m = x - real_of_int (trunc x) in
      if m = 0 then 0 else if m < 0 then m + 1 else m)"

definition rgb_to_hsv :: "real \<Rightarrow> real \<Rightarrow> real \<Rightarrow> hsv" where
  "rgb_to_hsv r g b =
     (let maxc = max (max r g) b;
          minc = min (min r g) b;
          rangec = maxc - minc;
          v = maxc
      in if minc = maxc then (0, 0, v)
         else
           let s = rangec / maxc;
               rc = (maxc - r) / rangec;
               gc = (maxc - g) / rangec;
               bc = (maxc - b) / rangec;
               h = (if r = maxc then bc - gc
                    else if g = maxc then 2 + rc - bc
                    else 4 + gc - rc)
           in (py_mod1 (h / 6), s, v))"

definition hsv_to_rgb :: "real \<Rightarrow> real \<Rightarrow> real \<Rightarrow> real \<times> real \<times> real" where
  "hsv_to_rgb h s v =
     (if s = 0 then (v, v, v)
      else
        let i = trunc (h * 6);
            f = h * 6 - real_of_int i;
            p = v * (1 - s);
            q = v * (1 - s * f);
            t = v * (1 - s * (1 - f));
            k = i mod 6
        in if k = 0 then (v, t, p)
           else if k = 1 then (q, v, p)
           else if k = 2 then (p, v, t)
           else if k = 3 then (p, q, v)
           else if k = 4 then (t, p, v)
           else (v, p, q))"

definition vibrancy_score :: "nat \<Rightarrow> nat \<Rightarrow> hsv \<Rightarrow> real" where
  "vibrancy_score cnt tot hsv =
     (let fr = real cnt / real tot in
      if fr < VIBRANCY_MIN_POP then fr
      else (case hsv of (_, s, v) \<Rightarrow> fr + VIBRANCY_WEIGHT * s * v))"

text \<open>The selection loop; \<open>labs\<close> are the picks in Lab, in step with \<open>picked\<close>.\<close>

fun pick_loop :: "hsv list \<Rightarrow> lch list \<Rightarrow> lab list \<Rightarrow> lch list" where
  "pick_loop [] picked labs = picked"
| "pick_loop ((h, s, v) # ranked) picked labs =
     (if length picked = 3 then picked
      else
        case hsv_to_rgb h s v of (r, g, b) \<Rightarrow>
        case srgb_to_oklab r g b of (l, a, bb) \<Rightarrow>
        (let lch = to_lch l a bb;
             lab = (case lch of (l1, c1, h1) \<Rightarrow> from_lch l1 c1 h1)
         in if list_all (\<lambda>p. delta_e lab p \<ge> SELECT_MIN_DE) labs
            then pick_loop ranked (picked @ [lch]) (labs @ [lab])
            else pick_loop ranked picked labs))"

definition rank_hist :: "hist_entry list \<Rightarrow> hsv list" where
  "rank_hist hist =
     (let tot = sum_list (map fst hist) in
      map snd (sort_key (\<lambda>e. - fst e) (map (\<lambda>(cnt, hsv). (vibrancy_score cnt tot hsv, hsv)) hist)))"

text \<open>\<open>picked[n_distinct - 1]\<close> of no pick would panic: \<open>None\<close>.\<close>

definition select :: "hist_entry list \<Rightarrow> (lch list \<times> nat) option" where
  "select hist =
     (if hist = [] then Some ([], 0)
      else
        let picked = pick_loop (rank_hist hist) [] [];
            n_distinct = length picked
        in if picked = [] then None
           else Some (picked @ replicate (3 - n_distinct) (last picked), n_distinct))"

subsection \<open>Hue and back\<close>

lemma py_mod1_frac: "py_mod1 x = frac x"
proof (cases "x \<in> \<int>")
  case True
  then obtain k where "x = of_int k" by (elim Ints_cases)
  then show ?thesis by (simp add: py_mod1_def trunc_def)
next
  case False
  then have "\<lceil>x\<rceil> = \<lfloor>x\<rfloor> + 1" by (simp add: ceiling_altdef) (metis Ints_of_int)
  moreover have "0 < x - of_int \<lfloor>x\<rfloor>" "x - of_int \<lfloor>x\<rfloor> < 1"
    using False frac_gt_0_iff[of x] frac_lt_1[of x] by (simp_all add: frac_def)
  ultimately show ?thesis by (simp add: py_mod1_def trunc_def frac_def)
qed

lemma hue_sextant:
  assumes "0 \<le> x" "x < 6"
  shows "trunc (frac (x / 6) * 6) = \<lfloor>x\<rfloor>" "frac (x / 6) * 6 = x"
proof -
  have "\<lfloor>x / 6\<rfloor> = 0" using assms by (simp add: floor_eq_iff)
  then show "frac (x / 6) * 6 = x" by (simp add: frac_def)
  then show "trunc (frac (x / 6) * 6) = \<lfloor>x\<rfloor>" using assms by (simp add: trunc_def)
qed

lemma hue_wrap: "frac ((x + 6) / 6) = frac (x / 6)"
  by (simp add: add_divide_distrib frac_def)

text \<open>One sextant of the hue circle: the largest, the smallest and the middle channel.\<close>

lemma hsv_of_hue:
  assumes "0 \<le> x" "x < 6" "s \<noteq> 0"
  shows "hsv_to_rgb (frac (x / 6)) s v =
    (let f = x - of_int \<lfloor>x\<rfloor>; p = v * (1 - s); q = v * (1 - s * f); t = v * (1 - s * (1 - f))
     in if \<lfloor>x\<rfloor> = 0 then (v, t, p) else if \<lfloor>x\<rfloor> = 1 then (q, v, p) else if \<lfloor>x\<rfloor> = 2 then (p, v, t)
        else if \<lfloor>x\<rfloor> = 3 then (p, q, v) else if \<lfloor>x\<rfloor> = 4 then (t, p, v) else (v, p, q))"
proof -
  have "0 \<le> \<lfloor>x\<rfloor>" "\<lfloor>x\<rfloor> < 6" using assms by (simp_all add: floor_less_iff)
  then have "\<lfloor>x\<rfloor> mod 6 = \<lfloor>x\<rfloor>" by simp
  then show ?thesis
    using hue_sextant[OF assms(1,2)] assms(3) by (simp add: hsv_to_rgb_def Let_def)
qed

lemma hsv_of_sextant:
  assumes "0 \<le> f" "f < 1" "0 \<le> k" "k < 6" "d \<noteq> 0" "v \<noteq> 0" "w = d * f"
  shows "hsv_to_rgb (frac ((of_int k + f) / 6)) (d / v) v =
    (if k = 0 then (v, v - d + w, v - d) else if k = 1 then (v - w, v, v - d)
     else if k = 2 then (v - d, v, v - d + w) else if k = 3 then (v - d, v - w, v)
     else if k = 4 then (v - d + w, v - d, v) else (v, v - d, v - w))"
proof -
  have k: "\<lfloor>of_int k + f\<rfloor> = k" using assms by (simp add: floor_unique)
  have x: "0 \<le> of_int k + f" "of_int k + f < 6" using assms by linarith+
  have v: "v * (1 - d / v) = v - d" "v * (1 - d / v * f) = v - w" "v * (1 - d / v * (1 - f)) = v - d + w"
    using assms by (simp_all add: field_simps)
  show ?thesis
    using hsv_of_hue[OF x, of "d / v" v] assms v k by (simp add: Let_def)
qed

text \<open>The colour whose largest channel is \<open>r\<close>: the hue is in the last or the first sextant.\<close>

lemma hue_red:
  fixes r g b :: real
  assumes "g \<le> r" "b \<le> r" "0 < d" "d = r - min g b" "0 < r"
  shows "hsv_to_rgb (frac ((g - b) / d / 6)) (d / r) r = (r, g, b)"
proof -
  consider "b \<le> g" "g < r" | "b \<le> g" "g = r" | "g < b" using assms by linarith
  then show ?thesis
  proof cases
    case 1
    then show ?thesis
      using hsv_of_sextant[of "(g - b) / d" 0 d r "g - b"] assms by (simp add: min_def)
  next
    case 2
    then have "g - b = d" using assms by simp
    then show ?thesis
      using hsv_of_sextant[of 0 1 d r 0] 2 assms by simp
  next
    case 3
    have "frac ((5 + (1 + (g - b) / d)) / 6) = frac ((g - b) / d / 6)"
      using hue_wrap[of "(g - b) / d"] by (simp add: add.commute)
    moreover have "0 \<le> 1 + (g - b) / d" "1 + (g - b) / d < 1" "d * (1 + (g - b) / d) = d + g - b"
      using 3 assms by (simp_all add: field_simps)
    ultimately show ?thesis
      using hsv_of_sextant[of "1 + (g - b) / d" 5 d r "d + g - b"] 3 assms by (simp add: min_def)
  qed
qed

lemma hue_green:
  fixes r g b :: real
  assumes "r < g" "b \<le> g" "0 < d" "d = g - min r b" "0 < g"
  shows "hsv_to_rgb (frac ((2 + (b - r) / d) / 6)) (d / g) g = (r, g, b)"
proof -
  consider "b < r" | "r \<le> b" "b < g" | "b = g" using assms by linarith
  then show ?thesis
  proof cases
    case 1
    have "0 \<le> 1 + (b - r) / d" "1 + (b - r) / d < 1" "d * (1 + (b - r) / d) = d + b - r"
      using 1 assms by (simp_all add: field_simps)
    then show ?thesis
      using hsv_of_sextant[of "1 + (b - r) / d" 1 d g "d + b - r"] 1 assms by (simp add: min_def)
  next
    case 2
    then show ?thesis
      using hsv_of_sextant[of "(b - r) / d" 2 d g "b - r"] assms by (simp add: min_def)
  next
    case 3
    then have "b - r = d" using assms by simp
    then show ?thesis
      using hsv_of_sextant[of 0 3 d g 0] 3 assms by simp
  qed
qed

lemma hue_blue:
  fixes r g b :: real
  assumes "r < b" "g < b" "0 < d" "d = b - min r g" "0 < b"
  shows "hsv_to_rgb (frac ((4 + (r - g) / d) / 6)) (d / b) b = (r, g, b)"
proof -
  consider "r < g" | "g \<le> r" using assms by linarith
  then show ?thesis
  proof cases
    case 1
    have "0 \<le> 1 + (r - g) / d" "1 + (r - g) / d < 1" "d * (1 + (r - g) / d) = d + r - g"
      using 1 assms by (simp_all add: field_simps)
    then show ?thesis
      using hsv_of_sextant[of "1 + (r - g) / d" 3 d b "d + r - g"] 1 assms by (simp add: min_def)
  next
    case 2
    then show ?thesis
      using hsv_of_sextant[of "(r - g) / d" 4 d b "r - g"] assms by (simp add: min_def)
  qed
qed

lemma largest_smallest:
  fixes r g b :: real
  defines "v \<equiv> max (max r g) b" and "n \<equiv> min (min r g) b"
  shows "r \<le> v" "g \<le> v" "b \<le> v" "n \<le> r" "n \<le> g" "n \<le> b"
    "r = v \<or> g = v \<or> b = v" "n = min g b \<or> n = r" "n = min r b \<or> n = g" "n = min r g \<or> n = b"
  by (auto simp: v_def n_def max_def min_def)

lemma rgb_to_hsv_hue:
  assumes "v = max (max r g) b" "d = v - min (min r g) b" "d \<noteq> 0"
  shows "rgb_to_hsv r g b =
    (frac ((if r = v then (g - b) / d else if g = v then 2 + (b - r) / d else 4 + (r - g) / d) / 6), d / v, v)"
proof -
  have n: "min (min r g) b \<noteq> v" using assms by simp
  have h: "(v - b) / d - (v - g) / d = (g - b) / d" "2 + (v - r) / d - (v - b) / d = 2 + (b - r) / d"
      "4 + (v - g) / d - (v - r) / d = 4 + (r - g) / d"
    by (simp_all add: diff_divide_distrib)
  show ?thesis
    unfolding rgb_to_hsv_def Let_def py_mod1_frac assms(1)[symmetric] assms(2)[symmetric] h using n by simp
qed

lemma rgb_to_hsv_back:
  fixes r g b :: real
  assumes "0 \<le> r" "0 \<le> g" "0 \<le> b"
  shows "(case rgb_to_hsv r g b of (h, s, v) \<Rightarrow> hsv_to_rgb h s v) = (r, g, b)"
proof -
  define v where "v = max (max r g) b"
  define n where "n = min (min r g) b"
  note b = largest_smallest[where r = r and g = g and b = b, folded v_def n_def]
  show ?thesis
  proof (cases "n = v")
    case True
    have "r = v" using True b(1,4) by linarith
    moreover have "g = v" using True b(2,5) by linarith
    moreover have "b = v" using True b(3,6) by linarith
    ultimately show ?thesis by (simp add: rgb_to_hsv_def hsv_to_rgb_def)
  next
    case False
    define d where "d = v - n"
    have "0 \<le> n" using assms by (simp add: n_def)
    then have d: "0 < d" "0 < v" using False b(1,4) unfolding d_def by auto
    note hue = rgb_to_hsv_hue[OF v_def d_def[unfolded n_def], simplified less_imp_neq[OF d(1), symmetric]]
    consider "r = v" | "r \<noteq> v" "g = v" | "r \<noteq> v" "g \<noteq> v" "b = v" using b(7) by blast
    then show ?thesis
    proof cases
      case 1
      then have "d = r - min g b" using b(8) d d_def by auto
      then show ?thesis using hue_red[of g r b d] d hue 1 b(2,3) by simp
    next
      case 2
      then have "d = g - min r b" using b(9) d d_def by auto
      then show ?thesis using hue_green[of r g b d] d hue 2 b(1,3) by simp
    next
      case 3
      then have "d = b - min r g" using b(10) d d_def by auto
      then show ?thesis using hue_blue[of r b g d] d hue 3 b(1,2) by simp
    qed
  qed
qed

text \<open>C39. HSV loses nothing: for non-negative channels, \<open>hsv_to_rgb\<close> returns the colour \<open>rgb_to_hsv\<close> was given.\<close>

theorem hsv_round_trip:
  assumes "0 \<le> r" "0 \<le> g" "0 \<le> b" "rgb_to_hsv r g b = (h, s, v)"
  shows "hsv_to_rgb h s v = (r, g, b)"
  using rgb_to_hsv_back[of r g b] assms by simp

theorem hsv_round_trip_witness:
  "rgb_to_hsv 1 (1/2) 0 = (1/12, 1, 1) \<and> hsv_to_rgb (1/12) 1 1 = (1, 1/2, 0)"
proof -
  have "rgb_to_hsv 1 (1/2) 0 = (1/12, 1, 1)"
    by (simp add: rgb_to_hsv_def py_mod1_frac frac_def floor_eq_iff)
  then show ?thesis using hsv_round_trip[of 1 "1/2" 0 "1/12" 1 1] by simp
qed

subsection \<open>The picks\<close>

text \<open>The Lab colour the loop compares a pick by.\<close>

definition pick_lab :: "lch \<Rightarrow> lab" where
  "pick_lab p = (case p of (l, c, h) \<Rightarrow> from_lch l c h)"

definition far_apart :: "lch list \<Rightarrow> bool" where
  "far_apart ps = sorted_wrt (\<lambda>p q. SELECT_MIN_DE \<le> delta_e (pick_lab q) (pick_lab p)) ps"

lemma pick_loop_step:
  "\<exists>p. pick_loop ((h, s, v) # ranked) picked labs =
     (if length picked = 3 then picked
      else if list_all (\<lambda>q. SELECT_MIN_DE \<le> delta_e (pick_lab p) q) labs
      then pick_loop ranked (picked @ [p]) (labs @ [pick_lab p]) else pick_loop ranked picked labs)"
proof -
  obtain r g b where c: "hsv_to_rgb h s v = (r, g, b)" by (cases "hsv_to_rgb h s v") auto
  obtain l a bb where o: "srgb_to_oklab r g b = (l, a, bb)" by (cases "srgb_to_oklab r g b") auto
  show ?thesis by (rule exI[of _ "to_lch l a bb"]) (simp add: c o Let_def pick_lab_def)
qed

lemma far_apart_snoc:
  "far_apart ps \<Longrightarrow> list_all (\<lambda>q. SELECT_MIN_DE \<le> delta_e (pick_lab p) q) (map pick_lab ps) \<Longrightarrow> far_apart (ps @ [p])"
  by (auto simp: far_apart_def sorted_wrt_append list_all_iff)

lemma pick_loop_inv:
  assumes "far_apart picked" "length picked \<le> 3"
  shows "far_apart (pick_loop ranked picked (map pick_lab picked))
    \<and> length (pick_loop ranked picked (map pick_lab picked)) \<le> 3
    \<and> length picked \<le> length (pick_loop ranked picked (map pick_lab picked))"
  using assms
proof (induction ranked arbitrary: picked)
  case (Cons e ranked)
  obtain h s v where e: "e = (h, s, v)" by (cases e) auto
  obtain p where p: "pick_loop (e # ranked) picked (map pick_lab picked) =
     (if length picked = 3 then picked
      else if list_all (\<lambda>q. SELECT_MIN_DE \<le> delta_e (pick_lab p) q) (map pick_lab picked)
      then pick_loop ranked (picked @ [p]) (map pick_lab (picked @ [p]))
      else pick_loop ranked picked (map pick_lab picked))"
    using pick_loop_step[of h s v ranked picked "map pick_lab picked"] unfolding e map_append list.map by blast
  show ?case
    using Cons.IH[of picked] Cons.IH[OF far_apart_snoc[of picked p]] Cons.prems
    unfolding p by (auto split: if_splits)
qed simp

lemma pick_loop_first:
  assumes "ranked \<noteq> []"
  shows "pick_loop ranked [] [] \<noteq> []"
proof -
  obtain h s v rest where r: "ranked = (h, s, v) # rest" using assms by (cases ranked) auto
  obtain p where "pick_loop ranked [] [] = pick_loop rest [p] (map pick_lab [p])"
    using pick_loop_step[of h s v rest "[]" "[]"] by (auto simp: r)
  then show ?thesis
    using pick_loop_inv[of "[p]" rest] by (auto simp: far_apart_def)
qed

lemma rank_hist_length: "length (rank_hist hist) = length hist"
  by (simp add: rank_hist_def)

lemma select_spec:
  assumes "hist \<noteq> []"
  shows "\<exists>picks n. select hist = Some (picks, n) \<and> length picks = 3 \<and> 1 \<le> n \<and> n \<le> 3
    \<and> far_apart (take n picks) \<and> drop n picks = replicate (3 - n) (picks ! (n - 1))"
proof -
  define ps where "ps = pick_loop (rank_hist hist) [] []"
  have "rank_hist hist \<noteq> []" using assms rank_hist_length[of hist] by fastforce
  then have ps: "ps \<noteq> []" unfolding ps_def by (rule pick_loop_first)
  have inv: "far_apart ps" "length ps \<le> 3"
    using pick_loop_inv[of "[]" "rank_hist hist"] by (simp_all add: ps_def far_apart_def)
  have "select hist = Some (ps @ replicate (3 - length ps) (last ps), length ps)"
    using assms ps by (simp add: select_def Let_def ps_def)
  moreover have "1 \<le> length ps" using ps by (cases ps) auto
  ultimately show ?thesis
    using inv ps by (simp add: last_conv_nth nth_append)
qed

text \<open>A histogram with an entry gives exactly three source colours, of which the first \<open>n_distinct\<close> (at
  least one) are real picks, pairwise at least \<open>SELECT_MIN_DE\<close> apart, and the others repeat the last real one.
\<close>

theorem select_picks:
  assumes "hist \<noteq> []"
  shows "\<exists>picks n. select hist = Some (picks, n) \<and> length picks = 3 \<and> 1 \<le> n \<and> n \<le> 3
    \<and> far_apart (take n picks) \<and> drop n picks = replicate (3 - n) (picks ! (n - 1))"
  using assms by (rule select_spec)

theorem select_picks_witness:
  "\<exists>picks n. select [(5, (0, 0, 1))] = Some (picks, n) \<and> length picks = 3 \<and> 1 \<le> n \<and> n \<le> 3
    \<and> far_apart (take n picks) \<and> drop n picks = replicate (3 - n) (picks ! (n - 1))"
  by (rule select_picks) simp

end
