(* ===== verification/Resize.thy ===== *)
theory Resize
  imports Pick
begin

text \<open>
  The bicubic resampler (\<open>src/color/resize.rs\<close>): two separable passes with fixed-point taps. An index out of
  range, a failed assertion and a \<open>usize\<close> subtraction below zero are \<open>None\<close>. Coefficients are computed over
  exact reals and truncated to \<open>i32\<close>; the accumulators are 32-bit words, which wrap as in a release build. Sides
  are converted to \<open>f32\<close> exactly, since a decoded cover has at most 16 million pixels.
\<close>

record rgb8 =
  rb_width :: nat
  rb_height :: nat
  rb_pixels :: "rgb list"

definition rgb8_new :: "nat \<Rightarrow> nat \<Rightarrow> rgb list \<Rightarrow> rgb8 option" where
  "rgb8_new w h pixels =
     (if length pixels = w * h then Some \<lparr>rb_width = w, rb_height = h, rb_pixels = pixels\<rparr> else None)"

definition pixel_at :: "rgb8 \<Rightarrow> nat \<Rightarrow> nat \<Rightarrow> rgb option" where
  "pixel_at img x y =
     (let i = y * rb_width img + x
      in if i < length (rb_pixels img) then Some (rb_pixels img ! i) else None)"

definition PRECISION_BITS :: nat where "PRECISION_BITS = 32 - 8 - 2"
definition BICUBIC_SUPPORT :: real where "BICUBIC_SUPPORT = 2"

definition bicubic_filter :: "real \<Rightarrow> real" where
  "bicubic_filter x0 =
     (let a = - 0.5; x = \<bar>x0\<bar> in
      if x < 1 then ((a + 2) * x - (a + 3)) * x * x + 1
      else if x < 2 then (((x - 5) * x + 8) * x - 4) * a
      else 0)"

record coeffs =
  co_ksize :: nat
  co_bounds :: "(nat \<times> nat) list"
  co_kk :: "int list"

definition real_as_i32 :: "real \<Rightarrow> int" where
  "real_as_i32 x = max (- (2 ^ 31)) (min (2 ^ 31 - 1) (trunc x))"

definition fixed_tap :: "real \<Rightarrow> int" where
  "fixed_tap k =
     (let one = real (2 ^ PRECISION_BITS)
      in if k < 0 then real_as_i32 (- 0.5 + k * one) else real_as_i32 (0.5 + k * one))"

text \<open>The first source index of an output pixel and its number of taps.\<close>

definition tap_bounds :: "nat \<Rightarrow> real \<Rightarrow> real \<Rightarrow> nat \<times> nat" where
  "tap_bounds in_size center support =
     (let xmin = max (trunc (center - support + 0.5)) 0;
          xmax = min (trunc (center + support + 0.5)) (int in_size) - xmin
      in (nat xmin, nat (max xmax 0)))"

text \<open>The taps of one output pixel, normalised; the row is \<open>ksize\<close> long, padded with zeros.\<close>

definition tap_row :: "nat \<Rightarrow> real \<Rightarrow> real \<Rightarrow> nat \<times> nat \<Rightarrow> real list option" where
  "tap_row ksize center inv_filterscale bound =
     (let (xmin, taps) = bound;
          ws = map (\<lambda>x. bicubic_filter ((real (x + xmin) - center + 0.5) * inv_filterscale)) [0..<taps];
          ww = sum_list ws;
          ws' = (if ww \<noteq> 0 then map (\<lambda>w. w / ww) ws else ws)
      in if taps \<le> ksize then Some (ws' @ replicate (ksize - taps) 0) else None)"

definition precompute_coeffs :: "nat \<Rightarrow> real \<Rightarrow> real \<Rightarrow> nat \<Rightarrow> coeffs option" where
  "precompute_coeffs in_size in0 in1 out_size =
     (let scale = (in1 - in0) / real out_size;
          filterscale = max scale 1;
          support = BICUBIC_SUPPORT * filterscale;
          ksize = nat \<lceil>support\<rceil> * 2 + 1;
          inv_filterscale = 1 / filterscale;
          center = (\<lambda>xx. in0 + (real xx + 0.5) * scale);
          bounds = map (\<lambda>xx. tap_bounds in_size (center xx) support) [0..<out_size]
      in case those (map (\<lambda>xx. tap_row ksize (center xx) inv_filterscale (bounds ! xx)) [0..<out_size]) of
           None \<Rightarrow> None
         | Some pre \<Rightarrow>
             Some \<lparr>co_ksize = ksize, co_bounds = bounds, co_kk = map fixed_tap (concat pre)\<rparr>)"

definition clip8 :: "32 word \<Rightarrow> 8 word" where
  "clip8 ss = word_of_int (max 0 (min 255 (sint ss div 2 ^ PRECISION_BITS)))"

definition ROUND :: "32 word" where "ROUND = 2 ^ (PRECISION_BITS - 1)"

type_synonym acc3 = "32 word \<times> 32 word \<times> 32 word"

definition add_tap :: "acc3 \<Rightarrow> int \<times> rgb \<Rightarrow> acc3" where
  "add_tap ss kp =
     (case (ss, kp) of ((s0, s1, s2), (k, (p0, p1, p2))) \<Rightarrow>
        (s0 + ucast p0 * word_of_int k, s1 + ucast p1 * word_of_int k, s2 + ucast p2 * word_of_int k))"

definition convolve :: "int list \<Rightarrow> rgb list \<Rightarrow> rgb" where
  "convolve k ps =
     (case foldl add_tap (ROUND, ROUND, ROUND) (zip k ps) of
        (s0, s1, s2) \<Rightarrow> (clip8 s0, clip8 s1, clip8 s2))"

text \<open>\<open>&kk[xx * ksize..xx * ksize + taps]\<close>.\<close>

definition tap_slice :: "coeffs \<Rightarrow> nat \<Rightarrow> nat \<Rightarrow> int list option" where
  "tap_slice c xx taps =
     (if xx * co_ksize c + taps \<le> length (co_kk c)
      then Some (take taps (drop (xx * co_ksize c) (co_kk c))) else None)"

text \<open>One output pixel: \<open>src\<close> reads the source pixel of a tap.\<close>

definition out_pixel :: "coeffs \<Rightarrow> nat \<Rightarrow> (nat \<Rightarrow> rgb option) \<Rightarrow> rgb option" where
  "out_pixel c i src =
     (if i < length (co_bounds c) then
        (case co_bounds c ! i of (first, taps) \<Rightarrow>
           Option.bind (tap_slice c i taps) (\<lambda>k.
           Option.bind (those (map (\<lambda>x. src (x + first)) [0..<taps])) (\<lambda>ps.
           Some (convolve k ps))))
      else None)"

definition horizontal :: "rgb8 \<Rightarrow> nat \<Rightarrow> nat \<Rightarrow> nat \<Rightarrow> coeffs \<Rightarrow> rgb8 option" where
  "horizontal src offset rows out_w c =
     Option.bind
       (those (concat (map (\<lambda>yy. map (\<lambda>xx. out_pixel c xx (\<lambda>x. pixel_at src x (yy + offset))) [0..<out_w])
         [0..<rows])))
       (rgb8_new out_w rows)"

definition vertical :: "rgb8 \<Rightarrow> nat \<Rightarrow> coeffs \<Rightarrow> rgb8 option" where
  "vertical src out_h c =
     Option.bind
       (those (concat (map (\<lambda>yy. map (\<lambda>xx. out_pixel c yy (\<lambda>y. pixel_at src xx y)) [0..<rb_width src])
         [0..<out_h])))
       (rgb8_new (rb_width src) out_h)"

type_synonym box4 = "real \<times> real \<times> real \<times> real"

definition shift_bounds :: "nat \<Rightarrow> coeffs \<Rightarrow> coeffs option" where
  "shift_bounds first c =
     (if list_all (\<lambda>b. first \<le> fst b) (co_bounds c)
      then Some (c\<lparr>co_bounds := map (\<lambda>(m, t). (m - first, t)) (co_bounds c)\<rparr>) else None)"

definition resample :: "rgb8 \<Rightarrow> nat \<Rightarrow> nat \<Rightarrow> box4 \<Rightarrow> rgb8 option" where
  "resample src out_w out_h bx =
     (case bx of (b0, b1, b2, b3) \<Rightarrow>
        let need_horizontal = (out_w \<noteq> rb_width src \<or> b0 \<noteq> 0 \<or> b2 \<noteq> real out_w);
            need_vertical = (out_h \<noteq> rb_height src \<or> b1 \<noteq> 0 \<or> b3 \<noteq> real out_h)
        in Option.bind (precompute_coeffs (rb_height src) b1 b3 out_h) (\<lambda>vert.
           if out_h = 0 \<or> length (co_bounds vert) < out_h then None
           else
             let ybox_first = fst (co_bounds vert ! 0);
                 (last_min, last_len) = co_bounds vert ! (out_h - 1);
                 ybox_last = last_min + last_len
             in if need_horizontal then
                  Option.bind (precompute_coeffs (rb_width src) b0 b2 out_w) (\<lambda>horiz.
                  Option.bind (shift_bounds ybox_first vert) (\<lambda>vert'.
                  if ybox_last < ybox_first then None
                  else
                    Option.bind (horizontal src ybox_first (ybox_last - ybox_first) out_w horiz) (\<lambda>current.
                    if need_vertical then vertical current out_h vert' else Some current)))
                else if need_vertical then vertical src out_h vert
                else Some src))"

definition integral :: "real \<Rightarrow> bool" where
  "integral v \<longleftrightarrow> v - real_of_int (real_as_i32 v) = 0"

definition crop :: "rgb8 \<Rightarrow> nat \<Rightarrow> nat \<Rightarrow> nat \<Rightarrow> nat \<Rightarrow> rgb8 option" where
  "crop src out_w out_h x0 y0 =
     Option.bind
       (those (concat (map (\<lambda>y. map (\<lambda>x. pixel_at src (x + x0) (y + y0)) [0..<out_w]) [0..<out_h])))
       (rgb8_new out_w out_h)"

definition im_resize :: "rgb8 \<Rightarrow> nat \<Rightarrow> nat \<Rightarrow> box4 \<Rightarrow> rgb8 option" where
  "im_resize src out_w out_h bx =
     (case bx of (b0, b1, b2, b3) \<Rightarrow>
        if integral b0 \<and> b2 - b0 = real out_w \<and> integral b1 \<and> b3 - b1 = real out_h
        then crop src out_w out_h (nat (max 0 (trunc b0))) (nat (max 0 (trunc b1)))
        else resample src out_w out_h bx)"

definition resize :: "rgb8 \<Rightarrow> nat \<Rightarrow> nat \<Rightarrow> rgb8 option" where
  "resize src out_w out_h =
     (if out_w = 0 \<or> out_h = 0 then None
      else
        let w = rb_width src; h = rb_height src in
        if w = out_w \<and> h = out_h then Some src
        else if h > w * 100 \<and> out_h < h then
          Option.bind (im_resize src w out_h (0, 0, real w, real h)) (\<lambda>tall.
          im_resize tall out_w out_h (0, 0, real w, real out_h))
        else im_resize src out_w out_h (0, 0, real w, real h))"

end
