(* ===== verification/Resize_Props.thy ===== *)
theory Resize_Props
  imports Resize
begin

text \<open>
  The resampler never reads out of range: the taps of every output pixel lie inside the source, in order, and fit
  their row, so that resizing a well-formed raster always gives a well-formed raster of the requested size.
\<close>

definition raster_ok :: "rgb8 \<Rightarrow> bool" where
  "raster_ok img \<longleftrightarrow> length (rb_pixels img) = rb_width img * rb_height img"

subsection \<open>Lists of options and rasters\<close>

lemma those_total: "list_all (\<lambda>x. x \<noteq> None) xs \<Longrightarrow> \<exists>ys. those xs = Some ys \<and> length ys = length xs"
  by (induction xs) auto

lemma length_grid: "length (concat (map (\<lambda>y. map (f y) [0..<w]) [0..<h])) = w * h"
  by (simp add: length_concat comp_def sum_list_triv)

lemma grid_total:
  assumes "\<And>x y. x < w \<Longrightarrow> y < h \<Longrightarrow> f y x \<noteq> None"
  shows "\<exists>img. Option.bind (those (concat (map (\<lambda>y. map (f y) [0..<w]) [0..<h]))) (rgb8_new w h) = Some img
    \<and> rb_width img = w \<and> rb_height img = h \<and> raster_ok img"
proof -
  have "list_all (\<lambda>x. x \<noteq> None) (concat (map (\<lambda>y. map (f y) [0..<w]) [0..<h]))"
    using assms by (auto simp: list_all_iff)
  from those_total[OF this] obtain ps where "those (concat (map (\<lambda>y. map (f y) [0..<w]) [0..<h])) = Some ps"
    "length ps = w * h"
    unfolding length_grid by blast
  then show ?thesis by (simp add: rgb8_new_def raster_ok_def)
qed

lemma pixel_at_in:
  assumes "raster_ok img" "x < rb_width img" "y < rb_height img"
  shows "pixel_at img x y \<noteq> None"
proof -
  have "y * rb_width img + x < Suc y * rb_width img" using assms(2) by simp
  also have "\<dots> \<le> rb_height img * rb_width img" using assms(3) by (intro mult_le_mono1) simp
  finally show ?thesis using assms(1) by (simp add: pixel_at_def raster_ok_def Let_def mult.commute)
qed

subsection \<open>Bounds of the taps\<close>

lemma trunc_nonneg: "0 \<le> x \<Longrightarrow> trunc x = \<lfloor>x\<rfloor>"
  by (simp add: trunc_def)

lemma trunc_mono: "x \<le> y \<Longrightarrow> trunc x \<le> trunc y"
proof -
  assume "x \<le> y"
  moreover have "\<lceil>x\<rceil> \<le> \<lfloor>y\<rfloor>" if "x < 0" "0 \<le> y"
  proof -
    have "\<lceil>x\<rceil> \<le> 0" "0 \<le> \<lfloor>y\<rfloor>" using that by simp_all
    then show ?thesis by linarith
  qed
  ultimately show ?thesis by (auto simp: trunc_def floor_mono ceiling_mono)
qed

lemma trunc_of_nat [simp]: "trunc (real n) = int n"
  by (simp add: trunc_def)

lemma trunc_le_nat: "x \<le> real n \<Longrightarrow> trunc x \<le> int n"
  using trunc_mono[of x "real n"] by simp

lemma trunc_ge_nat: "real n \<le> x \<Longrightarrow> int n \<le> trunc x"
  using trunc_mono[of "real n" x] by simp

definition tap_end :: "nat \<times> nat \<Rightarrow> nat" where
  "tap_end b = fst b + snd b"

lemma clamped_end:
  fixes a b :: int
  assumes "a \<le> int n"
  shows "nat (max a 0) + nat (max (min b (int n) - max a 0) 0) \<le> n"
    and "int n \<le> b \<Longrightarrow> nat (max a 0) + nat (max (min b (int n) - max a 0) 0) = n"
  using assms by linarith+

lemma tap_bounds_end:
  assumes "c - s + 0.5 \<le> real n"
  shows "tap_end (tap_bounds n c s) \<le> n"
  using clamped_end(1)[OF trunc_le_nat[OF assms]] unfolding tap_end_def tap_bounds_def Let_def fst_conv snd_conv .

lemma tap_bounds_end_eq:
  assumes "c - s + 0.5 \<le> real n" "real n \<le> c + s + 0.5"
  shows "tap_end (tap_bounds n c s) = n"
  using clamped_end(2)[OF trunc_le_nat[OF assms(1)] trunc_ge_nat[OF assms(2)]]
  unfolding tap_end_def tap_bounds_def Let_def fst_conv snd_conv .

lemma trunc_span:
  assumes "0 \<le> s"
  shows "trunc (a + 2 * s) - max (trunc a) 0 \<le> 2 * \<lceil>s\<rceil> + 1"
proof -
  have "trunc (a + 2 * s) \<le> trunc (max a 0 + 2 * s)" by (rule trunc_mono) simp
  also have "\<dots> = \<lfloor>max a 0 + 2 * s\<rfloor>" using assms trunc_nonneg by auto
  also have "\<dots> \<le> \<lfloor>max a 0\<rfloor> + 2 * \<lceil>s\<rceil> + 1" by linarith
  also have "\<lfloor>max a 0\<rfloor> \<le> max (trunc a) 0" by (simp add: trunc_def max_def)
  finally show ?thesis by linarith
qed

lemma tap_bounds_size:
  assumes "0 \<le> s"
  shows "snd (tap_bounds n c s) \<le> nat \<lceil>s\<rceil> * 2 + 1"
proof -
  have e: "c - s + 0.5 + 2 * s = c + s + 0.5" by simp
  have "0 \<le> \<lceil>s\<rceil>" using assms by simp
  moreover have "trunc (c + s + 0.5) - max (trunc (c - s + 0.5)) 0 \<le> 2 * \<lceil>s\<rceil> + 1"
    using trunc_span[OF assms, of "c - s + 0.5"] unfolding e .
  ultimately show ?thesis by (simp add: tap_bounds_def Let_def nat_le_iff)
qed

subsection \<open>Coefficients\<close>

definition coeffs_ok :: "nat \<Rightarrow> nat \<Rightarrow> coeffs \<Rightarrow> bool" where
  "coeffs_ok n out c \<longleftrightarrow> length (co_bounds c) = out \<and> length (co_kk c) = out * co_ksize c \<and>
     (\<forall>i<out. snd (co_bounds c ! i) \<le> co_ksize c \<and> tap_end (co_bounds c ! i) \<le> n) \<and>
     fst (co_bounds c ! 0) = 0 \<and> tap_end (co_bounds c ! (out - 1)) = n"

lemma tap_row_length:
  "snd b \<le> ksize \<Longrightarrow> \<exists>row. tap_row ksize c f b = Some row \<and> length row = ksize"
  by (auto simp: tap_row_def Let_def split: prod.splits)

lemma those_rows:
  assumes "\<And>x. x < n \<Longrightarrow> \<exists>row. f x = Some row \<and> length row = k"
  shows "\<exists>rows. those (map f [0..<n]) = Some rows \<and> length (concat rows) = n * k"
proof -
  have "\<exists>rows. those (map f xs) = Some rows \<and> length (concat rows) = length xs * k" if "\<forall>x\<in>set xs. x < n" for xs
    using that
  proof (induction xs)
    case (Cons x xs)
    then obtain row rows where "f x = Some row" "length row = k" "those (map f xs) = Some rows"
      "length (concat rows) = length xs * k"
      using assms[of x] by auto
    then show ?case by simp
  qed simp
  from this[of "[0..<n]"] show ?thesis by simp
qed

lemma precompute_ok:
  assumes "0 < out"
  shows "\<exists>c. precompute_coeffs n 0 (real n) out = Some c \<and> coeffs_ok n out c"
proof -
  define scale where "scale = (real n - 0) / real out"
  define fs where "fs = max scale 1"
  define support where "support = BICUBIC_SUPPORT * fs"
  define ksize where "ksize = nat \<lceil>support\<rceil> * 2 + 1"
  define center where "center = (\<lambda>xx::nat. 0 + (real xx + 0.5) * scale)"
  define bounds where "bounds = map (\<lambda>xx. tap_bounds n (center xx) support) [0..<out]"
  have sc: "0 \<le> scale" "scale \<le> fs" "1 \<le> fs" "real n = real out * scale"
    using assms by (simp_all add: scale_def fs_def)
  have sup: "2 * fs = support" "0 \<le> support" using sc by (simp_all add: support_def BICUBIC_SUPPORT_def)
  have b: "bounds ! i = tap_bounds n (center i) support" if "i < out" for i using that by (simp add: bounds_def)
  have mono: "center i \<le> center j" if "i \<le> j" for i j
    using that sc(1) by (auto simp: center_def intro: mult_right_mono)
  have last: "center (out - 1) = real n - scale / 2"
    using assms sc(4) by (simp add: center_def of_nat_diff algebra_simps)
  have low: "center i - support + 0.5 \<le> real n" if "i < out" for i
  proof -
    have "center i \<le> real n - scale / 2" using mono[of i "out - 1"] that last by simp
    then show ?thesis using sup(1) sc(1,3) by linarith
  qed
  have sz: "snd (bounds ! i) \<le> ksize" if "i < out" for i
    using tap_bounds_size[OF sup(2)] that by (simp add: b ksize_def)
  have "tap_end (bounds ! i) \<le> n" if "i < out" for i
    using tap_bounds_end[OF low[OF that]] that by (simp add: b)
  moreover have "fst (bounds ! 0) = 0"
  proof -
    have "center 0 - support + 0.5 \<le> real 0" using sup(1) sc(2,3) by (simp add: center_def)
    from trunc_le_nat[OF this] show ?thesis using assms by (simp add: b tap_bounds_def Let_def)
  qed
  moreover have "tap_end (bounds ! (out - 1)) = n"
  proof -
    have "real n \<le> center (out - 1) + support + 0.5" using last sup(1) sc(1-3) by linarith
    then show ?thesis using tap_bounds_end_eq[OF low[of "out - 1"]] assms by (simp add: b)
  qed
  moreover obtain rows where rows: "those (map (\<lambda>xx. tap_row ksize (center xx) (1 / fs) (bounds ! xx)) [0..<out]) = Some rows"
    "length (concat rows) = out * ksize"
    using those_rows[of out "\<lambda>xx. tap_row ksize (center xx) (1 / fs) (bounds ! xx)" ksize] tap_row_length[OF sz] by blast
  moreover have "precompute_coeffs n 0 (real n) out =
      Some \<lparr>co_ksize = ksize, co_bounds = bounds, co_kk = map fixed_tap (concat rows)\<rparr>"
    unfolding precompute_coeffs_def Let_def
      scale_def[symmetric] fs_def[symmetric] support_def[symmetric] ksize_def[symmetric]
      fun_cong[OF center_def[symmetric]]
    using rows(1) by (simp add: bounds_def center_def)
  ultimately show ?thesis
    using sz by (auto simp: coeffs_ok_def bounds_def)
qed

subsection \<open>The passes\<close>

lemma tap_slice_ok:
  assumes "coeffs_ok n out c" "i < out" "t \<le> co_ksize c"
  shows "tap_slice c i t \<noteq> None"
proof -
  have "i * co_ksize c + t \<le> Suc i * co_ksize c" using assms(3) by simp
  also have "\<dots> \<le> out * co_ksize c" using assms(2) by (intro mult_le_mono1) simp
  finally have "i * co_ksize c + t \<le> length (co_kk c)" using assms(1) by (simp add: coeffs_ok_def)
  then show ?thesis by (simp add: tap_slice_def)
qed

lemma out_pixel_total:
  assumes c: "coeffs_ok n out c" "i < out"
    and src: "\<And>y. y < n \<Longrightarrow> src y \<noteq> None"
  shows "out_pixel c i src \<noteq> None"
proof -
  obtain m t where b: "co_bounds c ! i = (m, t)" by (cases "co_bounds c ! i")
  have ok: "t \<le> co_ksize c" "m + t \<le> n" "i < length (co_bounds c)"
    using c b by (auto simp: coeffs_ok_def tap_end_def)
  obtain k where "tap_slice c i t = Some k" using tap_slice_ok[OF c ok(1)] by blast
  moreover have "list_all (\<lambda>x. x \<noteq> None) (map (\<lambda>x. src (x + m)) [0..<t])"
    using src ok by (fastforce simp: list_all_iff)
  from those_total[OF this] obtain ps where "those (map (\<lambda>x. src (x + m)) [0..<t]) = Some ps" by blast
  ultimately show ?thesis using ok(3) b by (simp add: out_pixel_def)
qed

lemma shift_bounds_0: "shift_bounds 0 c = Some c"
  by (simp add: shift_bounds_def list_all_iff)

lemma horizontal_total:
  assumes "raster_ok src" "coeffs_ok (rb_width src) out_w c" "offset + rows \<le> rb_height src"
  shows "\<exists>img. horizontal src offset rows out_w c = Some img
    \<and> rb_width img = out_w \<and> rb_height img = rows \<and> raster_ok img"
  unfolding horizontal_def
proof (rule grid_total)
  fix x y assume "x < out_w" "y < rows"
  then show "out_pixel c x (\<lambda>x. pixel_at src x (y + offset)) \<noteq> None"
    using assms by (intro out_pixel_total[OF assms(2)] pixel_at_in) auto
qed

lemma vertical_total:
  assumes "\<And>x y. x < rb_width src \<Longrightarrow> y < out_h \<Longrightarrow> out_pixel c y (\<lambda>y. pixel_at src x y) \<noteq> None"
  shows "\<exists>img. vertical src out_h c = Some img
    \<and> rb_width img = rb_width src \<and> rb_height img = out_h \<and> raster_ok img"
  unfolding vertical_def by (rule grid_total) (rule assms)

lemma resample_total:
  assumes src: "raster_ok src" and out: "0 < out_w \<or> out_w = rb_width src" "0 < out_h" and w: "w = real (rb_width src)" "h = real (rb_height src)"
  shows "\<exists>img. resample src out_w out_h (0, 0, w, h) = Some img
    \<and> rb_width img = out_w \<and> rb_height img = out_h \<and> raster_ok img"
proof -
  let ?n = "rb_height src"
  obtain vert where v: "precompute_coeffs ?n 0 h out_h = Some vert" "coeffs_ok ?n out_h vert"
    using precompute_ok[OF out(2)] unfolding w by blast
  obtain m t where lst: "co_bounds vert ! (out_h - 1) = (m, t)" by fastforce
  have lens: "\<not> (out_h = 0 \<or> length (co_bounds vert) < out_h)" using v(2) out by (simp add: coeffs_ok_def)
  have last_end: "m + t = ?n" and f: "fst (co_bounds vert ! 0) = 0"
    using v(2) lst by (simp_all add: coeffs_ok_def tap_end_def)
  have col: "out_pixel vert y (\<lambda>y. pixel_at img x y) \<noteq> None"
    if "raster_ok img" "rb_height img = ?n" "x < rb_width img" "y < out_h" for img x y
    using that by (intro out_pixel_total[OF v(2)] pixel_at_in) simp_all
  obtain vs where vs: "vertical src out_h vert = Some vs" "rb_width vs = rb_width src" "rb_height vs = out_h" "raster_ok vs"
    using vertical_total[of src out_h vert] col[OF src] by auto
  show ?thesis
  proof (cases "out_w = rb_width src")
    case True
    then have "resample src out_w out_h (0, 0, w, h) = (if out_h \<noteq> ?n then Some vs else Some src)"
      using lens f last_end v(1) lst vs(1) w by (simp add: resample_def Let_def)
    then show ?thesis using vs src w True by auto
  next
    case False
    then have "0 < out_w" using out(1) by simp
    obtain horiz where hz: "precompute_coeffs (rb_width src) 0 w out_w = Some horiz" "coeffs_ok (rb_width src) out_w horiz"
      using precompute_ok[OF \<open>0 < out_w\<close>] unfolding w by blast
    obtain cur where cur: "horizontal src 0 ?n out_w horiz = Some cur" "rb_width cur = out_w"
        "rb_height cur = ?n" "raster_ok cur"
      using horizontal_total[OF src hz(2), of 0 ?n] by auto
    obtain vc where vc: "vertical cur out_h vert = Some vc" "rb_width vc = out_w" "rb_height vc = out_h" "raster_ok vc"
      using vertical_total[of cur out_h vert] col[OF cur(4,3)] cur(2) by auto
    have "resample src out_w out_h (0, 0, w, h) =
        (if out_h \<noteq> ?n then Some vc else Some cur)"
      using False lens f last_end v(1) hz(1) shift_bounds_0[of vert] lst cur(1) vc(1) w
      by (simp add: resample_def Let_def)
    then show ?thesis using vc cur by auto
  qed
qed

lemma crop_total:
  assumes "raster_ok src" "rb_width src = out_w" "rb_height src = out_h"
  shows "\<exists>img. crop src out_w out_h 0 0 = Some img \<and> rb_width img = out_w \<and> rb_height img = out_h \<and> raster_ok img"
  unfolding crop_def by (rule grid_total) (use pixel_at_in[OF assms(1)] assms in simp)

lemma im_resize_total:
  assumes "raster_ok src" "0 < out_w \<or> out_w = rb_width src" "0 < out_h"
  shows "\<exists>img. im_resize src out_w out_h (0, 0, real (rb_width src), real (rb_height src)) = Some img
    \<and> rb_width img = out_w \<and> rb_height img = out_h \<and> raster_ok img"
proof (cases "rb_width src = out_w \<and> rb_height src = out_h")
  case True
  have "integral 0" by (simp add: integral_def real_as_i32_def trunc_def)
  then show ?thesis using crop_total[of src out_w out_h] True assms(1) by (simp add: im_resize_def trunc_def)
next
  case False
  then have "im_resize src out_w out_h (0, 0, real (rb_width src), real (rb_height src)) =
      resample src out_w out_h (0, 0, real (rb_width src), real (rb_height src))"
    by (auto simp: im_resize_def)
  then show ?thesis using resample_total[OF assms refl refl] by simp
qed

lemma resize_raster:
  assumes "raster_ok src" "0 < out_w" "0 < out_h"
  shows "\<exists>img. resize src out_w out_h = Some img \<and> rb_width img = out_w \<and> rb_height img = out_h \<and> raster_ok img"
proof -
  let ?w = "rb_width src" and ?h = "rb_height src"
  consider "?w = out_w" "?h = out_h" | "\<not> (?w = out_w \<and> ?h = out_h)" "?h > ?w * 100 \<and> out_h < ?h"
    | "\<not> (?w = out_w \<and> ?h = out_h)" "\<not> (?h > ?w * 100 \<and> out_h < ?h)" by blast
  then show ?thesis
  proof cases
    case 1
    then show ?thesis using assms by (simp add: resize_def)
  next
    case 2
    obtain tall where t: "im_resize src ?w out_h (0, 0, real ?w, real ?h) = Some tall"
      "rb_width tall = ?w" "rb_height tall = out_h" "raster_ok tall"
      using im_resize_total[OF assms(1) disjI2[OF refl] assms(3)] by blast
    then show ?thesis using im_resize_total[OF t(4) disjI1[OF assms(2)] assms(3)] 2 t assms(2,3) by (simp add: resize_def Let_def)
  next
    case 3
    then show ?thesis using im_resize_total[OF assms(1) disjI1[OF assms(2)] assms(3)] assms(2,3) by (auto simp: resize_def Let_def)
  qed
qed



end
