(* ===== verification/Decode.thy ===== *)
theory Decode
  imports Resize_Props
begin

unbundle bit_operations_syntax

text \<open>
  Decoding a cover to the 100x100 sample (\<open>src/color/decode.rs\<close>). The \<open>image\<close> crate is a parameter: the
  signature sniffer, the header reader and the decoder, which is given the limits. A file is what opening, \<open>stat\<close>
  and reading it say. A failed assertion or an index out of range is \<open>None\<close>; \<open>Some\<close> holds a \<open>Result\<close>.
\<close>

definition SAMPLE :: "nat \<times> nat" where "SAMPLE = (100, 100)"
definition MAX_DECODE_BYTES :: nat where "MAX_DECODE_BYTES = 16 * 1024 * 1024"
definition MAX_PIXELS :: nat where "MAX_PIXELS = 16000000"

datatype image_format = Jpeg | Png | WebP | OtherFormat string

definition ACCEPTED :: "image_format list" where "ACCEPTED = [Jpeg, Png, WebP]"

datatype decode_error = Io string | TooLarge | Unaccepted | TooManyPixels | Corrupt string

text \<open>The buffers of the crate: width, height, pixels. The last stands for the formats converted by \<open>to_rgb8\<close>.\<close>

datatype dynamic_image =
    ImageLuma8 nat nat "8 word list"
  | ImageLumaA8 nat nat "(8 word \<times> 8 word) list"
  | ImageRgb8 nat nat "rgb list"
  | ImageRgba8 nat nat "(8 word \<times> 8 word \<times> 8 word \<times> 8 word) list"
  | ImageLuma16 nat nat "16 word list"
  | ImageLumaA16 nat nat "(16 word \<times> 16 word) list"
  | ImageRgb16 nat nat "(16 word \<times> 16 word \<times> 16 word) list"
  | ImageRgba16 nat nat "(16 word \<times> 16 word \<times> 16 word \<times> 16 word) list"
  | ImageOther nat nat "rgb list"

definition high_byte :: "16 word \<Rightarrow> 8 word" where
  "high_byte c = ucast (drop_bit 8 c)"

fun to_rgb_like_pillow :: "dynamic_image \<Rightarrow> rgb8 option" where
  "to_rgb_like_pillow (ImageLuma8 w h b) = rgb8_new w h (map (\<lambda>p. (p, p, p)) b)"
| "to_rgb_like_pillow (ImageLumaA8 w h b) = rgb8_new w h (map (\<lambda>(p, _). (p, p, p)) b)"
| "to_rgb_like_pillow (ImageRgb8 w h b) = rgb8_new w h b"
| "to_rgb_like_pillow (ImageRgba8 w h b) = rgb8_new w h (map (\<lambda>(r, g, bl, _). (r, g, bl)) b)"
| "to_rgb_like_pillow (ImageLuma16 w h b) =
     rgb8_new w h (map (\<lambda>p. let v = ucast (min p 255) in (v, v, v)) b)"
| "to_rgb_like_pillow (ImageLumaA16 w h b) =
     rgb8_new w h (map (\<lambda>(p, _). (high_byte p, high_byte p, high_byte p)) b)"
| "to_rgb_like_pillow (ImageRgb16 w h b) =
     rgb8_new w h (map (\<lambda>(r, g, bl). (high_byte r, high_byte g, high_byte bl)) b)"
| "to_rgb_like_pillow (ImageRgba16 w h b) =
     rgb8_new w h (map (\<lambda>(r, g, bl, _). (high_byte r, high_byte g, high_byte bl)) b)"
| "to_rgb_like_pillow (ImageOther w h b) = rgb8_new w h b"

definition draft_scale :: "nat \<Rightarrow> nat \<Rightarrow> nat" where
  "draft_scale w h =
     (let scale = min (w div fst SAMPLE) (h div snd SAMPLE)
      in case find (\<lambda>s. scale \<ge> s) [8, 4, 2] of Some s \<Rightarrow> s | None \<Rightarrow> 1)"

definition div_ceil :: "nat \<Rightarrow> nat \<Rightarrow> nat" where
  "div_ceil a b = (a + b - 1) div b"

text \<open>The pixels of one block, and their rounded mean per channel; dividing by no pixel panics.\<close>

definition block_pixels :: "rgb8 \<Rightarrow> nat \<Rightarrow> nat \<Rightarrow> nat \<Rightarrow> rgb list option" where
  "block_pixels src s bx by' =
     those (concat (map (\<lambda>y. map (\<lambda>x. pixel_at src x y) [bx * s..<min ((bx + 1) * s) (rb_width src)])
       [by' * s..<min ((by' + 1) * s) (rb_height src)]))"

definition block_mean :: "rgb list \<Rightarrow> rgb option" where
  "block_mean ps =
     (let n = length ps;
          mean = (\<lambda>ch. of_nat ((sum_list (map (\<lambda>p. unat (axis_of p ch)) ps) + n div 2) div n))
      in if n = 0 then None else Some (mean 0, mean 1, mean 2))"

definition box_reduce :: "rgb8 \<Rightarrow> nat \<Rightarrow> rgb8 option" where
  "box_reduce src s =
     (let ow = div_ceil (rb_width src) s; oh = div_ceil (rb_height src) s
      in Option.bind
           (those (concat (map (\<lambda>by'. map (\<lambda>bx. Option.bind (block_pixels src s bx by') block_mean) [0..<ow]) [0..<oh])))
           (rgb8_new ow oh))"

text \<open>The crate: \<open>guess_format\<close>, \<open>into_dimensions\<close> and \<open>decode\<close> under the limits of the width and the height.\<close>

record image_crate =
  guess_format :: "string \<Rightarrow> image_format option"
  into_dimensions :: "image_format \<Rightarrow> string \<Rightarrow> string + (nat \<times> nat)"
  decode_body :: "image_format \<Rightarrow> string \<Rightarrow> nat \<times> nat \<Rightarrow> string + dynamic_image"

definition decode :: "image_crate \<Rightarrow> string \<Rightarrow> (decode_error + rgb8) option" where
  "decode crate bytes =
     (case guess_format crate bytes of
        None \<Rightarrow> Some (Inl Unaccepted)
      | Some fmt \<Rightarrow>
          if fmt \<notin> set ACCEPTED then Some (Inl Unaccepted)
          else
            (case into_dimensions crate fmt bytes of
               Inl e \<Rightarrow> Some (Inl (Corrupt e))
             | Inr (w, h) \<Rightarrow>
                 if w * h > MAX_PIXELS then Some (Inl TooManyPixels)
                 else
                   (case decode_body crate fmt bytes (w, h) of
                      Inl e \<Rightarrow> Some (Inl (Corrupt e))
                    | Inr img \<Rightarrow>
                        Option.bind (to_rgb_like_pillow img) (\<lambda>rgb.
                        if fmt = Jpeg \<and> draft_scale w h > 1
                        then map_option Inr (box_reduce rgb (draft_scale w h))
                        else Some (Inr rgb)))))"

definition sample_bytes :: "image_crate \<Rightarrow> string \<Rightarrow> (decode_error + rgb8) option" where
  "sample_bytes crate bytes =
     (case decode crate bytes of
        None \<Rightarrow> None
      | Some (Inl e) \<Rightarrow> Some (Inl e)
      | Some (Inr decoded) \<Rightarrow> map_option Inr (resize decoded (fst SAMPLE) (snd SAMPLE)))"

text \<open>What opening the file, its length by \<open>stat\<close> and reading it to the end give; it may have grown in between.\<close>

record cover_file =
  cf_open :: "string + unit"
  cf_len :: "string + nat"
  cf_data :: "string + string"

definition sample_file :: "image_crate \<Rightarrow> cover_file \<Rightarrow> nat \<Rightarrow> (decode_error + rgb8) option" where
  "sample_file crate f max_bytes =
     (case cf_open f of
        Inl e \<Rightarrow> Some (Inl (Io e))
      | Inr _ \<Rightarrow>
          (case cf_len f of
             Inl e \<Rightarrow> Some (Inl (Io e))
           | Inr len \<Rightarrow>
               if len > max_bytes then Some (Inl TooLarge)
               else
                 (case cf_data f of
                    Inl e \<Rightarrow> Some (Inl (Io e))
                  | Inr content \<Rightarrow>
                      let bytes = take (max_bytes + 1) content
                      in if length bytes > max_bytes then Some (Inl TooLarge) else sample_bytes crate bytes)))"

end
