(* ===== verification/Decode_Props.thy ===== *)
theory Decode_Props
  imports Decode
begin

text \<open>
  What decoding promises: only accepted content within the byte and pixel budgets becomes a sample, the JPEG
  draft keeps both sides at or above the sample size, and decoding never panics on what the decoder returns.
\<close>

lemma draft_scale_pos: "0 < draft_scale w h"
  by (simp add: draft_scale_def Let_def)

text \<open>The JPEG draft scale is the largest of 8, 4, 2 and 1 that keeps both sides of the image at or above the
  sample size; an image smaller than twice the sample is left alone.
\<close>

theorem draft_scale_largest:
  "draft_scale w h \<in> {1, 2, 4, 8}
    \<and> (\<forall>s \<in> {2, 4, 8}. s \<le> draft_scale w h \<longleftrightarrow> s * fst SAMPLE \<le> w \<and> s * snd SAMPLE \<le> h)"
proof -
  have "s \<le> min (w div 100) (h div 100) \<longleftrightarrow> s * 100 \<le> w \<and> s * 100 \<le> h" for s :: nat
    by (simp add: less_eq_div_iff_mult_less_eq)
  then show ?thesis by (auto simp: draft_scale_def SAMPLE_def Let_def split: if_splits)
qed

theorem draft_scale_largest_witness: "draft_scale 850 640 = 4"
  using draft_scale_largest[of 850 640] by (auto simp: SAMPLE_def)

subsection \<open>The block average\<close>

lemma mult_div_ceil: "0 < s \<Longrightarrow> b < div_ceil n s \<Longrightarrow> b * s < n"
proof -
  assume "0 < s" "b < div_ceil n s"
  then have "Suc b * s \<le> n + s - 1" by (simp add: div_ceil_def less_eq_div_iff_mult_less_eq Suc_le_eq[symmetric] del: mult_Suc)
  then show ?thesis using \<open>0 < s\<close> by simp
qed

lemma box_reduce_total:
  assumes "raster_ok src" "0 < s"
  shows "\<exists>img. box_reduce src s = Some img \<and> rb_width img = div_ceil (rb_width src) s
    \<and> rb_height img = div_ceil (rb_height src) s \<and> raster_ok img"
  unfolding box_reduce_def Let_def
proof (rule grid_total)
  fix bx bay assume lt: "bx < div_ceil (rb_width src) s" "bay < div_ceil (rb_height src) s"
  let ?xs = "[bx * s..<min ((bx + 1) * s) (rb_width src)]" and ?ys = "[bay * s..<min ((bay + 1) * s) (rb_height src)]"
  let ?ps = "concat (map (\<lambda>y. map (\<lambda>x. pixel_at src x y) ?xs) ?ys)"
  have "bx * s < rb_width src" "bay * s < rb_height src"
    using lt assms(2) by (auto intro: mult_div_ceil)
  then have "bx * s \<in> set ?xs" "bay * s \<in> set ?ys" using assms(2) by simp_all
  then have ne: "?ps \<noteq> []" by (auto simp: concat_eq_Nil_conv)
  have "list_all (\<lambda>x. x \<noteq> None) ?ps"
    using pixel_at_in[OF assms(1)] by (fastforce simp: list_all_iff)
  from those_total[OF this] obtain ps where "those ?ps = Some ps" "length ps = length ?ps" by blast
  then show "Option.bind (block_pixels src s bx bay) block_mean \<noteq> None"
    using ne by (simp add: block_pixels_def block_mean_def Let_def)
qed

subsection \<open>The decoder\<close>

text \<open>A buffer of the crate has as many pixels as its sides say.\<close>

fun buffer_ok :: "dynamic_image \<Rightarrow> bool" where
  "buffer_ok (ImageLuma8 w h b) \<longleftrightarrow> length b = w * h"
| "buffer_ok (ImageLumaA8 w h b) \<longleftrightarrow> length b = w * h"
| "buffer_ok (ImageRgb8 w h b) \<longleftrightarrow> length b = w * h"
| "buffer_ok (ImageRgba8 w h b) \<longleftrightarrow> length b = w * h"
| "buffer_ok (ImageLuma16 w h b) \<longleftrightarrow> length b = w * h"
| "buffer_ok (ImageLumaA16 w h b) \<longleftrightarrow> length b = w * h"
| "buffer_ok (ImageRgb16 w h b) \<longleftrightarrow> length b = w * h"
| "buffer_ok (ImageRgba16 w h b) \<longleftrightarrow> length b = w * h"
| "buffer_ok (ImageOther w h b) \<longleftrightarrow> length b = w * h"

definition crate_ok :: "image_crate \<Rightarrow> bool" where
  "crate_ok crate \<longleftrightarrow> (\<forall>fmt bytes lim img. decode_body crate fmt bytes lim = Inr img \<longrightarrow> buffer_ok img)"

lemma to_rgb_total: "buffer_ok img \<Longrightarrow> \<exists>rgb. to_rgb_like_pillow img = Some rgb \<and> raster_ok rgb"
  by (cases img) (auto simp: rgb8_new_def raster_ok_def)

definition good_result :: "(decode_error + rgb8) option \<Rightarrow> bool" where
  "good_result r \<longleftrightarrow> (case r of None \<Rightarrow> False | Some (Inl e) \<Rightarrow> True | Some (Inr img) \<Rightarrow> raster_ok img)"

lemma good_result_Inl [simp]: "good_result (Some (Inl e))"
  by (simp add: good_result_def)

lemma decode_body_good:
  assumes "buffer_ok img"
  shows "good_result (Option.bind (to_rgb_like_pillow img) (\<lambda>rgb.
        if c \<and> draft_scale w h > 1 then map_option Inr (box_reduce rgb (draft_scale w h)) else Some (Inr rgb)))"
proof -
  obtain rgb where rgb: "to_rgb_like_pillow img = Some rgb" "raster_ok rgb"
    using to_rgb_total assms by blast
  have "0 < draft_scale w h" by (rule draft_scale_pos)
  from box_reduce_total[OF rgb(2) this] obtain out where "box_reduce rgb (draft_scale w h) = Some out" "raster_ok out"
    by blast
  then show ?thesis using rgb by (simp add: good_result_def)
qed

lemma decode_good:
  assumes "crate_ok crate"
  shows "good_result (decode crate bytes)"
proof (cases "guess_format crate bytes")
  case None
  then show ?thesis by (simp add: decode_def)
next
  case (Some fmt)
  show ?thesis
  proof (cases "into_dimensions crate fmt bytes")
    case (Inl e)
    then show ?thesis using Some by (simp add: decode_def)
  next
    case (Inr wh)
    obtain w h where wh: "wh = (w, h)" by (cases wh)
    show ?thesis
    proof (cases "decode_body crate fmt bytes (w, h)")
      case (Inl e)
      then show ?thesis using Some Inr wh by (simp add: decode_def)
    next
      case body: (Inr img)
      then have "buffer_ok img" using assms unfolding crate_ok_def by blast
      from decode_body_good[OF this, of "fmt = Jpeg" w h] show ?thesis
        using Some Inr wh body by (simp add: decode_def)
    qed
  qed
qed

lemma sample_spec:
  assumes "crate_ok crate"
  shows "\<exists>r. sample_bytes crate bytes = Some r
    \<and> (\<forall>img. r = Inr img \<longrightarrow> raster_ok img \<and> rb_width img = 100 \<and> rb_height img = 100)"
proof -
  obtain r where r: "decode crate bytes = Some r" "\<forall>img. r = Inr img \<longrightarrow> raster_ok img"
    using decode_good[OF assms, of bytes] by (auto simp: good_result_def split: option.splits sum.splits)
  show ?thesis
  proof (cases r)
    case (Inl e)
    then show ?thesis using r by (simp add: sample_bytes_def)
  next
    case (Inr img)
    then obtain out where "resize img 100 100 = Some out" "rb_width out = 100" "rb_height out = 100" "raster_ok out"
      using resize_raster[of img 100 100] r by auto
    then show ?thesis using r Inr by (simp add: sample_bytes_def SAMPLE_def)
  qed
qed

text \<open>With a decoder whose buffers are as long as their sides say, turning the bytes of a cover into a sample
  never panics, whatever the bytes: it is an error, or a raster of exactly 100 by 100 pixels.
\<close>

theorem sample_total:
  assumes "crate_ok crate"
  shows "\<exists>r. sample_bytes crate bytes = Some r
    \<and> (\<forall>img. r = Inr img \<longrightarrow> raster_ok img \<and> rb_width img = 100 \<and> rb_height img = 100)"
  using assms by (rule sample_spec)

definition one_pixel_crate :: image_crate where
  "one_pixel_crate = \<lparr>guess_format = (\<lambda>b. if b = ''x'' then Some Png else None),
     into_dimensions = (\<lambda>f b. Inr (1, 1)), decode_body = (\<lambda>f b l. Inr (ImageLuma8 1 1 [7]))\<rparr>"

theorem sample_total_witness:
  "\<exists>r. sample_bytes one_pixel_crate ''x'' = Some r
    \<and> (\<forall>img. r = Inr img \<longrightarrow> raster_ok img \<and> rb_width img = 100 \<and> rb_height img = 100)"
  by (rule sample_total) (simp add: crate_ok_def one_pixel_crate_def)

text \<open>C35. The decode guards hold: a file becomes a sample only if it opened, its length by \<open>stat\<close> and what was
  read are within the byte budget, its signature is JPEG, PNG or WebP, and its header declares no more pixels
  than the pixel budget.
\<close>

theorem decode_guards:
  assumes "sample_file crate f max_bytes = Some (Inr img)"
  shows "\<exists>len content fmt w h. cf_open f = Inr () \<and> cf_len f = Inr len \<and> len \<le> max_bytes
    \<and> cf_data f = Inr content \<and> length content \<le> max_bytes
    \<and> guess_format crate content = Some fmt \<and> fmt \<in> {Jpeg, Png, WebP}
    \<and> into_dimensions crate fmt content = Inr (w, h) \<and> w * h \<le> MAX_PIXELS"
  using assms
  by (auto simp: sample_file_def sample_bytes_def decode_def Let_def ACCEPTED_def min_def
      split: sum.splits option.splits if_splits)

theorem decode_guards_witness:
  "\<exists>img fmt w h. sample_file one_pixel_crate \<lparr>cf_open = Inr (), cf_len = Inr 1, cf_data = Inr ''x''\<rparr> 1 = Some (Inr img)
    \<and> guess_format one_pixel_crate ''x'' = Some fmt \<and> fmt \<in> {Jpeg, Png, WebP}
    \<and> into_dimensions one_pixel_crate fmt ''x'' = Inr (w, h) \<and> w * h \<le> MAX_PIXELS"
proof -
  let ?f = "\<lparr>cf_open = Inr (), cf_len = Inr 1, cf_data = Inr ''x''\<rparr>"
  let ?px = "\<lparr>rb_width = 1, rb_height = 1, rb_pixels = [(7, 7, 7)]\<rparr>"
  obtain img where "resize ?px 100 100 = Some img" using resize_raster[of ?px 100 100] by (auto simp: raster_ok_def)
  then have "sample_file one_pixel_crate ?f 1 = Some (Inr img)"
    by (simp add: sample_file_def sample_bytes_def decode_def one_pixel_crate_def ACCEPTED_def rgb8_new_def SAMPLE_def MAX_PIXELS_def)
  then show ?thesis using decode_guards[of one_pixel_crate ?f 1 img] by auto
qed

end
