(* ===== verification/Tone.thy ===== *)
theory Tone
  imports State Pick
begin

text \<open>
  Toning and separation (\<open>src/color/tone.rs\<close>): the envelope of a mode, chroma from the gamut ceiling, the
  mapping of the source slots into the envelope and the bounded separation of slots that read as duplicates.
  Floats are exact reals; an assertion that fails is \<open>None\<close>, the infinity of \<open>closest_pair\<close> is \<open>None\<close>.
\<close>

definition envelope :: "mode \<Rightarrow> real \<times> real" where
  "envelope m = (case m of Dark \<Rightarrow> (0.15, 0.55) | Light \<Rightarrow> (0.55, 0.92))"

definition gamma :: "mode \<Rightarrow> real" where
  "gamma m = (case m of Dark \<Rightarrow> 0.85 | Light \<Rightarrow> 1.18)"

definition SPREAD_GAIN :: real where "SPREAD_GAIN = 1"
definition CHROMA_FRAC :: real where "CHROMA_FRAC = 0.85"
definition NEUTRAL_C :: real where "NEUTRAL_C = 0.02"

definition chroma_for :: "real \<Rightarrow> real \<Rightarrow> real \<Rightarrow> real" where
  "chroma_for l h c_src =
     (let ceil = max_chroma l h in
      if c_src < NEUTRAL_C then min c_src ceil
      else min (max c_src (CHROMA_FRAC * ceil)) ceil)"

record toned =
  t_l :: real
  t_h :: real
  t_src :: real

definition toned_c :: "toned \<Rightarrow> real" where
  "toned_c t = chroma_for (t_l t) (t_h t) (t_src t)"

definition to_hex :: "toned \<Rightarrow> string" where
  "to_hex t = lch_to_hex (t_l t) (toned_c t) (t_h t)"

definition to_lab :: "toned \<Rightarrow> lab" where
  "to_lab t = from_lch (t_l t) (toned_c t) (t_h t)"

definition tone :: "lch list \<Rightarrow> mode \<Rightarrow> toned list option" where
  "tone source_lch m =
     (if source_lch = [] then None
      else
        let (lo, hi) = envelope m;
            anchor = sum_list (map fst source_lch) / real (length source_lch);
            toned_anchor = lo + (hi - lo) * (max anchor 0) powr (gamma m)
        in Some (map (\<lambda>(l, c, h).
             let moved = toned_anchor + SPREAD_GAIN * (l - anchor)
             in \<lparr>t_l = min (max moved lo) hi, t_h = h, t_src = c\<rparr>) source_lch))"

definition MIN_DE :: real where "MIN_DE = 0.10"
definition SEPARATION_STEP :: real where "SEPARATION_STEP = 0.01"
definition MAX_SEPARATION_SHIFT :: real where "MAX_SEPARATION_SHIFT = 0.04"
definition MAX_SEPARATION_PASSES :: nat where "MAX_SEPARATION_PASSES = 8"
definition BUDGET_EPS :: real where "BUDGET_EPS = 1 / 10 ^ 9"

datatype separation_reason = Clear | Duplicates | Budget | Blocked | Passes

definition reason_str :: "separation_reason \<Rightarrow> string" where
  "reason_str r = (case r of Clear \<Rightarrow> ''clear'' | Duplicates \<Rightarrow> ''duplicates'' | Budget \<Rightarrow> ''budget''
     | Blocked \<Rightarrow> ''blocked'' | Passes \<Rightarrow> ''passes'')"

record separation_result =
  resolved :: bool
  sep_reason :: separation_reason
  residual_de :: "real option"

type_synonym pair_dist = "nat \<times> nat \<times> real option"

definition closer :: "real \<Rightarrow> real option \<Rightarrow> bool" where
  "closer d best = (case best of None \<Rightarrow> True | Some b \<Rightarrow> d < b)"

text \<open>The two loops of \<open>closest_pair\<close> visit the pairs in this order.\<close>

definition index_pairs :: "nat \<Rightarrow> (nat \<times> nat) list" where
  "index_pairs n = concat (map (\<lambda>i. map (Pair i) [i + 1..<n]) [0..<n])"

definition closest_pair :: "toned list \<Rightarrow> pair_dist" where
  "closest_pair slots =
     (let labs = map to_lab slots in
      foldl (\<lambda>best (i, j).
          let d = delta_e (labs ! i) (labs ! j)
          in if closer d (snd (snd best)) then (i, j, Some d) else best)
        (0, 1, None) (index_pairs (length slots)))"

text \<open>The rank order of the slots: by lightness, then by index, and its inverse.\<close>

definition rank_order :: "toned list \<Rightarrow> nat list" where
  "rank_order work = sort_key (\<lambda>i. t_l (work ! i)) [0..<length work]"

definition ranks_of :: "nat \<Rightarrow> nat list \<Rightarrow> nat list" where
  "ranks_of n ord = foldl (\<lambda>rank (pos, slot). rank[slot := pos]) (replicate n 0) (enumerate 0 ord)"

record sep_state =
  work :: "toned list"
  budget :: "real list"
  moved :: bool

text \<open>
  One step of the inner loop for a slot with lightness \<open>current\<close>, in the direction 1 or -1: how far it moves, or
  \<open>None\<close> for a \<open>continue\<close>. \<open>upper\<close> and \<open>lower\<close> are the neighbours in rank order, where there are any.
\<close>

definition nudge_delta ::
  "real \<times> real \<Rightarrow> real option \<Rightarrow> real option \<Rightarrow> real \<Rightarrow> real \<Rightarrow> real \<Rightarrow> real option" where
  "nudge_delta env upper lower current bud dir =
     (let (lo, hi) = env;
          step = min SEPARATION_STEP bud
      in if step \<le> 0 then None
         else
           let target = min (max (current + dir * step) lo) hi
           in if (target - current) * dir \<le> 0 then None
              else
                let target = (case upper of Some n \<Rightarrow> if 0 < dir then min target n else target | None \<Rightarrow> target);
                    target = (case lower of Some n \<Rightarrow> if dir < 0 then max target n else target | None \<Rightarrow> target);
                    delta = target - current
                in if delta * dir \<le> 0 then None
                   else if \<bar>delta\<bar> > bud then Some (if 0 < delta then bud else - bud)
                   else Some delta)"

definition neighbour :: "nat list \<Rightarrow> toned list \<Rightarrow> nat \<Rightarrow> real option" where
  "neighbour ord w pos = (if pos < length ord then Some (t_l (w ! (ord ! pos))) else None)"

definition nudge ::
  "real \<times> real \<Rightarrow> nat list \<Rightarrow> nat list \<Rightarrow> nat \<Rightarrow> real \<Rightarrow> sep_state \<Rightarrow> sep_state" where
  "nudge env ord rank idx dir st =
     (let w = work st; pos = rank ! idx; current = t_l (w ! idx) in
      case nudge_delta env (neighbour ord w (pos + 1))
             (if 1 \<le> pos then neighbour ord w (pos - 1) else None) current (budget st ! idx) dir of
        None \<Rightarrow> st
      | Some delta \<Rightarrow>
          \<lparr>work = w[idx := (w ! idx)\<lparr>t_l := current + delta\<rparr>],
           budget = (budget st)[idx := budget st ! idx - \<bar>delta\<bar>],
           moved = True\<rparr>)"

definition far_enough :: "real option \<Rightarrow> bool" where
  "far_enough d = (case d of None \<Rightarrow> True | Some x \<Rightarrow> MIN_DE \<le> x)"

primrec passes ::
  "nat \<Rightarrow> real \<times> real \<Rightarrow> nat list \<Rightarrow> nat list \<Rightarrow> sep_state \<Rightarrow> sep_state \<times> separation_reason" where
  "passes 0 env ord rank st = (st, Passes)"
| "passes (Suc k) env ord rank st =
     (let (i, j, dist) = closest_pair (work st) in
      if far_enough dist then (st, Clear)
      else
        let (up, down) = (if rank ! i > rank ! j then (i, j) else (j, i));
            st = nudge env ord rank down (- 1) (nudge env ord rank up 1 (st\<lparr>moved := False\<rparr>))
        in if list_all (\<lambda>b. b \<le> BUDGET_EPS) (budget st) then (st, Budget)
           else if \<not> moved st then (st, Blocked)
           else passes k env ord rank st)"

definition separate :: "toned list \<Rightarrow> mode \<Rightarrow> nat \<Rightarrow> (toned list \<times> separation_result) option" where
  "separate slots m n_distinct =
     (if length slots < n_distinct then None
      else if n_distinct < 2
      then Some (slots, \<lparr>resolved = False, sep_reason = Duplicates, residual_de = Some 0\<rparr>)
      else
        let w = take n_distinct slots;
            ord = rank_order w;
            rank = ranks_of n_distinct ord;
            (st, reason) = passes MAX_SEPARATION_PASSES (envelope m) ord rank
              \<lparr>work = w, budget = replicate n_distinct MAX_SEPARATION_SHIFT, moved = False\<rparr>;
            residual = snd (snd (closest_pair (work st)));
            ok = far_enough residual;
            reason = (if ok then Clear else reason);
            final = work st
        in Some (final @ replicate (length slots - n_distinct) (final ! (n_distinct - 1)),
             \<lparr>resolved = ok, sep_reason = reason, residual_de = residual\<rparr>))"

end
