(* ===== verification/Tone_Props.thy ===== *)
theory Tone_Props
  imports Tone
begin

text \<open>
  What toning and separation promise: slots stay in the mode's envelope, separation moves lightness only, each slot
  at most by its budget and never past its neighbours, and its verdict is the distance of the closest pair.
\<close>

subsection \<open>Toning\<close>

lemma envelope_ordered: "fst (envelope m) \<le> snd (envelope m)"
  by (cases m) (simp_all add: envelope_def)

definition in_envelope :: "mode \<Rightarrow> toned \<Rightarrow> bool" where
  "in_envelope m t \<longleftrightarrow> fst (envelope m) \<le> t_l t \<and> t_l t \<le> snd (envelope m)"

lemma tone_spec:
  assumes "source \<noteq> []"
  shows "\<exists>ts. tone source m = Some ts \<and> length ts = length source \<and> list_all (in_envelope m) ts
    \<and> map (\<lambda>t. (t_src t, t_h t)) ts = map snd source
    \<and> (\<forall>i j. i < length ts \<longrightarrow> j < length ts \<longrightarrow> fst (source ! i) \<le> fst (source ! j) \<longrightarrow> t_l (ts ! i) \<le> t_l (ts ! j))"
proof -
  obtain lo hi where e: "envelope m = (lo, hi)" by (cases "envelope m") auto
  have lohi: "lo \<le> hi" using envelope_ordered[of m] e by simp
  define an where "an = sum_list (map fst source) / real (length source)"
  define ta where "ta = lo + (hi - lo) * (max an 0) powr (gamma m)"
  define f where "f = (\<lambda>(l, c, h). \<lparr>t_l = min (max (ta + SPREAD_GAIN * (l - an)) lo) hi, t_h = h, t_src = c\<rparr>)"
  have t: "tone source m = Some (map f source)"
    using assms by (simp add: tone_def e Let_def an_def ta_def f_def)
  moreover have "list_all (in_envelope m) (map f source)"
    using lohi by (auto simp: list_all_iff in_envelope_def e f_def)
  moreover have "map (\<lambda>t. (t_src t, t_h t)) (map f source) = map snd source"
    by (auto simp: f_def)
  moreover have "t_l (f x) \<le> t_l (f y)" if "fst x \<le> fst y" for x y
    using that lohi by (auto simp: f_def SPREAD_GAIN_def split: prod.split)
  ultimately show ?thesis by auto
qed

text \<open>Toning at least one slot never fails and keeps the number of slots; every slot lies in the envelope of
  the mode, keeps its hue and source chroma, and two slots never change their order of lightness.
\<close>

theorem tone_in_envelope:
  assumes "source \<noteq> []"
  shows "\<exists>ts. tone source m = Some ts \<and> length ts = length source \<and> list_all (in_envelope m) ts
    \<and> map (\<lambda>t. (t_src t, t_h t)) ts = map snd source
    \<and> (\<forall>i j. i < length ts \<longrightarrow> j < length ts \<longrightarrow> fst (source ! i) \<le> fst (source ! j) \<longrightarrow> t_l (ts ! i) \<le> t_l (ts ! j))"
  using assms by (rule tone_spec)

theorem tone_in_envelope_witness:
  "\<exists>ts. tone [(1, 0, 0), (0, 0, 0)] Dark = Some ts \<and> length ts = 2 \<and> list_all (in_envelope Dark) ts"
  using tone_in_envelope[of "[(1, 0, 0), (0, 0, 0)]" Dark] by auto

text \<open>The derived chroma never exceeds the ceiling of the gamut, and is never negative for a source chroma that is not.\<close>
lemma chroma_below_ceiling:
  assumes "0 \<le> c_src" "0 \<le> l" "l \<le> 1"
  shows "0 \<le> chroma_for l h c_src \<and> chroma_for l h c_src \<le> max_chroma l h"
  using max_chroma_spec[of l h] assms by (auto simp: chroma_for_def Let_def CHROMA_FRAC_def)

subsection \<open>The closest pair\<close>

lemma index_pairs_set: "(i, j) \<in> set (index_pairs n) \<longleftrightarrow> i < j \<and> j < n"
  by (cases "i < j \<and> j < n") (auto simp: index_pairs_def intro: bexI[of _ i])

definition slot_dist :: "toned list \<Rightarrow> nat \<Rightarrow> nat \<Rightarrow> real" where
  "slot_dist slots i j = delta_e (to_lab (slots ! i)) (to_lab (slots ! j))"

definition best_of :: "toned list \<Rightarrow> (nat \<times> nat) list \<Rightarrow> pair_dist \<Rightarrow> pair_dist" where
  "best_of slots ps best = foldl (\<lambda>best (i, j).
     if closer (slot_dist slots i j) (snd (snd best)) then (i, j, Some (slot_dist slots i j)) else best) best ps"

lemma best_of_min:
  assumes "best_of slots ps (i0, j0, d0) = (i, j, d)"
  shows "((i, j, d) = (i0, j0, d0) \<or> ((i, j) \<in> set ps \<and> d = Some (slot_dist slots i j)))
    \<and> (\<forall>(k, l) \<in> set ps. \<exists>x. d = Some x \<and> x \<le> slot_dist slots k l)
    \<and> (\<forall>x0. d0 = Some x0 \<longrightarrow> (\<exists>x. d = Some x \<and> x \<le> x0))"
  using assms
proof (induction ps arbitrary: i0 j0 d0)
  case Nil
  then show ?case by (auto simp: best_of_def)
next
  case (Cons p ps)
  obtain k l where p: "p = (k, l)" by (cases p)
  show ?case
  proof (cases "closer (slot_dist slots k l) d0")
    case True
    have "best_of slots ps (k, l, Some (slot_dist slots k l)) = (i, j, d)"
      using Cons.prems True by (simp add: best_of_def p)
    from Cons.IH[OF this] True show ?thesis
      by (fastforce simp: p closer_def split: option.splits)
  next
    case False
    then obtain x0 where x0: "d0 = Some x0" "x0 \<le> slot_dist slots k l"
      by (auto simp: closer_def split: option.splits)
    have "best_of slots ps (i0, j0, d0) = (i, j, d)"
      using Cons.prems False by (simp add: best_of_def p)
    from Cons.IH[OF this] x0 show ?thesis
      by (fastforce simp: p)
  qed
qed

lemma closest_pair_best: "closest_pair slots = best_of slots (index_pairs (length slots)) (0, 1, None)"
proof -
  have "foldl (\<lambda>best (i, j). let d = delta_e (map to_lab slots ! i) (map to_lab slots ! j)
      in if closer d (snd (snd best)) then (i, j, Some d) else best) b ps = best_of slots ps b"
    if "\<forall>(i, j) \<in> set ps. i < j \<and> j < length slots" for b ps
    using that by (induction ps arbitrary: b) (auto simp: best_of_def Let_def slot_dist_def)
  moreover have "\<forall>(i, j) \<in> set (index_pairs (length slots)). i < j \<and> j < length slots"
    by (auto simp: index_pairs_set)
  ultimately show ?thesis unfolding closest_pair_def Let_def[of "map to_lab slots"] by blast
qed

lemma closest_pair_min:
  assumes "2 \<le> length slots" "closest_pair slots = (i, j, d)"
  shows "i < j \<and> j < length slots \<and> d = Some (slot_dist slots i j)
    \<and> (\<forall>k l. k < l \<longrightarrow> l < length slots \<longrightarrow> slot_dist slots i j \<le> slot_dist slots k l)"
proof -
  note b = best_of_min[OF assms(2)[unfolded closest_pair_best]]
  have "(0, 1) \<in> set (index_pairs (length slots))" using assms(1) by (simp add: index_pairs_set)
  with b obtain x where x: "d = Some x" by blast
  with b have i: "(i, j) \<in> set (index_pairs (length slots))" "d = Some (slot_dist slots i j)" by auto
  then have "\<forall>k l. k < l \<longrightarrow> l < length slots \<longrightarrow> slot_dist slots i j \<le> slot_dist slots k l"
    using b by (fastforce simp: index_pairs_set)
  with i show ?thesis by (simp add: index_pairs_set)
qed

subsection \<open>The rank order\<close>

lemma rank_order_perm: "distinct (rank_order w)" "set (rank_order w) = {..<length w}" "length (rank_order w) = length w"
  by (auto simp: rank_order_def)

lemma rank_order_sorted: "sorted (map (\<lambda>i. t_l (w ! i)) (rank_order w))"
  by (simp add: rank_order_def)

lemma ranks_fold:
  fixes k :: nat
  assumes "distinct ord" "set ord \<subseteq> {..<length rank}"
  defines "rank' \<equiv> foldl (\<lambda>rank (pos, slot). rank[slot := pos]) rank (enumerate k ord)"
  shows "length rank' = length rank \<and> (\<forall>p<length ord. rank' ! (ord ! p) = k + p) \<and>
    (\<forall>i. i \<notin> set ord \<longrightarrow> rank' ! i = rank ! i)"
  using assms(1,2) unfolding rank'_def
proof (induction ord arbitrary: k rank)
  case (Cons x ord)
  let ?r = "foldl (\<lambda>rank (pos, slot). rank[slot := pos]) (rank[x := k]) (enumerate (Suc k) ord)"
  have ih: "length ?r = length rank" "\<forall>p<length ord. ?r ! (ord ! p) = Suc k + p"
      "\<forall>i. i \<notin> set ord \<longrightarrow> ?r ! i = rank[x := k] ! i"
    using Cons.IH[of "rank[x := k]" "Suc k"] Cons.prems by simp_all
  have x: "?r ! x = k" using ih(3) Cons.prems by simp
  have "?r ! ((x # ord) ! p) = k + p" if "p < length (x # ord)" for p
    using that x ih(2) by (cases p) simp_all
  moreover have "?r ! i = rank ! i" if "i \<notin> set (x # ord)" for i
    using that ih(3) by simp
  ultimately show ?case using ih(1) by simp
qed simp

lemma ranks_of_inverse:
  assumes "distinct ord" "set ord = {..<n}" "length ord = n" "i < n"
  shows "ranks_of n ord ! i < n" "ord ! (ranks_of n ord ! i) = i"
proof -
  have "i \<in> set ord" using assms(2,4) by simp
  then obtain p where p: "p < length ord" "ord ! p = i" unfolding in_set_conv_nth by blast
  have "\<forall>p<length ord. ranks_of n ord ! (ord ! p) = p"
    using ranks_fold[of ord "replicate n 0" 0] assms(1,2) unfolding ranks_of_def by simp
  then have "ranks_of n ord ! i = p" using p by blast
  then show "ranks_of n ord ! i < n" "ord ! (ranks_of n ord ! i) = i" using p assms(3) by simp_all
qed

lemma sorted_update:
  fixes xs :: "real list"
  assumes "sorted xs" "p < length xs" "p + 1 < length xs \<Longrightarrow> y \<le> xs ! (p + 1)" "1 \<le> p \<Longrightarrow> xs ! (p - 1) \<le> y"
  shows "sorted (xs[p := y])"
  using assms by (auto simp: sorted_iff_nth_Suc nth_list_update)

subsection \<open>One nudge\<close>

lemma nudge_delta_up:
  assumes "nudge_delta (lo, hi) upper lower cur bud 1 = Some d"
  shows "0 < d \<and> d \<le> bud \<and> cur + d \<le> hi \<and> (\<forall>n. upper = Some n \<longrightarrow> cur + d \<le> n)"
proof -
  define t0 where "t0 = min (max (cur + 1 * min SEPARATION_STEP bud) lo) hi"
  define t1 where "t1 = (case upper of Some n \<Rightarrow> min t0 n | None \<Rightarrow> t0)"
  have "nudge_delta (lo, hi) upper lower cur bud 1 =
      (if min SEPARATION_STEP bud \<le> 0 then None else if t0 - cur \<le> 0 then None else if t1 - cur \<le> 0 then None
       else if \<bar>t1 - cur\<bar> > bud then Some (if 0 < t1 - cur then bud else - bud) else Some (t1 - cur))"
    unfolding nudge_delta_def Let_def prod.case t0_def[symmetric] t1_def by (cases upper; cases lower) auto
  then have "\<not> min SEPARATION_STEP bud \<le> 0" "\<not> t1 - cur \<le> 0"
      "d = (if \<bar>t1 - cur\<bar> > bud then bud else t1 - cur)"
    using assms by (simp_all split: if_split_asm)
  moreover have "t0 \<le> hi" by (simp add: t0_def)
  moreover have "t1 \<le> t0" "\<forall>n. upper = Some n \<longrightarrow> t1 \<le> n" by (cases upper; simp add: t1_def)+
  moreover have "\<not> bud \<le> 0" using calculation(1) by (simp add: min_le_iff_disj)
  ultimately show ?thesis by (cases upper; simp split: if_splits)
qed

lemma nudge_delta_down:
  assumes "nudge_delta (lo, hi) upper lower cur bud (- 1) = Some d" "lo \<le> hi"
  shows "d < 0 \<and> - d \<le> bud \<and> lo \<le> cur + d \<and> (\<forall>n. lower = Some n \<longrightarrow> n \<le> cur + d)"
proof -
  define t0 where "t0 = min (max (cur + (- 1) * min SEPARATION_STEP bud) lo) hi"
  define t1 where "t1 = (case lower of Some n \<Rightarrow> max t0 n | None \<Rightarrow> t0)"
  have "nudge_delta (lo, hi) upper lower cur bud (- 1) =
      (if min SEPARATION_STEP bud \<le> 0 then None else if t0 - cur \<ge> 0 then None else if t1 - cur \<ge> 0 then None
       else if \<bar>t1 - cur\<bar> > bud then Some (if 0 < t1 - cur then bud else - bud) else Some (t1 - cur))"
    unfolding nudge_delta_def Let_def prod.case t0_def[symmetric] t1_def by (cases upper; cases lower) auto
  then have "\<not> min SEPARATION_STEP bud \<le> 0" "\<not> t1 - cur \<ge> 0"
      "d = (if \<bar>t1 - cur\<bar> > bud then - bud else t1 - cur)"
    using assms by (simp_all split: if_split_asm)
  moreover have "lo \<le> t0" using assms(2) by (simp add: t0_def)
  moreover have "t0 \<le> t1" "\<forall>n. lower = Some n \<longrightarrow> n \<le> t1" by (cases lower; simp add: t1_def)+
  moreover have "\<not> bud \<le> 0" using calculation(1) by (simp add: min_le_iff_disj)
  ultimately show ?thesis by (cases lower; simp split: if_splits)
qed

text \<open>
  The invariant of the passes: lightness only, within the budget, in rank order, and inside the envelope when the
  input is. A slot that has not moved keeps its lightness.
\<close>

definition slot_ok :: "toned \<Rightarrow> toned \<Rightarrow> real \<Rightarrow> bool" where
  "slot_ok s t b \<longleftrightarrow> t_h t = t_h s \<and> t_src t = t_src s \<and> 0 \<le> b \<and> \<bar>t_l t - t_l s\<bar> + b \<le> MAX_SEPARATION_SHIFT"

definition sep_inv :: "mode \<Rightarrow> toned list \<Rightarrow> nat list \<Rightarrow> sep_state \<Rightarrow> bool" where
  "sep_inv m slots ord st \<longleftrightarrow>
     length (work st) = length slots \<and> length (budget st) = length slots \<and>
     (\<forall>i<length slots. slot_ok (slots ! i) (work st ! i) (budget st ! i)) \<and>
     sorted (map (\<lambda>i. t_l (work st ! i)) ord) \<and>
     (list_all (in_envelope m) slots \<longrightarrow> list_all (in_envelope m) (work st))"

definition rank_pair :: "nat \<Rightarrow> nat list \<Rightarrow> nat list \<Rightarrow> bool" where
  "rank_pair n ord rank \<longleftrightarrow> distinct ord \<and> set ord = {..<n} \<and> length ord = n \<and>
     (\<forall>i<n. rank ! i < n \<and> ord ! (rank ! i) = i)"

lemma rank_pair_rank_order: "rank_pair (length w) (rank_order w) (ranks_of (length w) (rank_order w))"
  unfolding rank_pair_def using rank_order_perm[of w] ranks_of_inverse[OF rank_order_perm] by blast

lemma map_update_ord:
  assumes "rank_pair n ord rank" "idx < n" "length w = n"
  shows "map (\<lambda>i. t_l (w[idx := x] ! i)) ord = (map (\<lambda>i. t_l (w ! i)) ord)[rank ! idx := t_l x]"
proof (rule nth_equalityI)
  fix p assume "p < length (map (\<lambda>i. t_l (w[idx := x] ! i)) ord)"
  then have p: "p < length ord" by simp
  have r: "rank ! idx < length ord" "ord ! (rank ! idx) = idx" "distinct ord" "ord ! p < n"
    using assms p by (auto simp: rank_pair_def)
  then have "ord ! p = idx \<longleftrightarrow> p = rank ! idx" using p nth_eq_iff_index_eq[of ord p "rank ! idx"] by auto
  then show "map (\<lambda>i. t_l (w[idx := x] ! i)) ord ! p = (map (\<lambda>i. t_l (w ! i)) ord)[rank ! idx := t_l x] ! p"
    using p assms r(4) by (auto simp: nth_list_update)
qed simp

lemma nudge_inv:
  assumes inv: "sep_inv m slots ord st" and rp: "rank_pair (length slots) ord rank"
    and i: "idx < length slots" and dir: "dir = 1 \<or> dir = - 1"
  shows "sep_inv m slots ord (nudge (envelope m) ord rank idx dir st)"
proof -
  let ?w = "work st" and ?pos = "rank ! idx"
  let ?cur = "t_l (?w ! idx)"
  let ?upper = "neighbour ord ?w (?pos + 1)" and ?lower = "if 1 \<le> ?pos then neighbour ord ?w (?pos - 1) else None"
  obtain lo hi where e: "envelope m = (lo, hi)" by (cases "envelope m") auto
  show ?thesis
  proof (cases "nudge_delta (envelope m) ?upper ?lower ?cur (budget st ! idx) dir")
    case None
    then show ?thesis using inv by (simp add: nudge_def Let_def)
  next
    case (Some d)
    let ?x = "(?w ! idx)\<lparr>t_l := ?cur + d\<rparr>"
    have st': "nudge (envelope m) ord rank idx dir st =
        \<lparr>work = ?w[idx := ?x], budget = (budget st)[idx := budget st ! idx - \<bar>d\<bar>], moved = True\<rparr>"
      unfolding nudge_def Let_def Some by simp
    have pos: "?pos < length ord" "ord ! ?pos = idx" using rp i by (auto simp: rank_pair_def)
    have d: "\<bar>d\<bar> \<le> budget st ! idx" "lo \<le> ?cur \<longrightarrow> ?cur \<le> hi \<longrightarrow> lo \<le> ?cur + d \<and> ?cur + d \<le> hi"
        "0 \<le> d \<or> (\<forall>n. ?lower = Some n \<longrightarrow> n \<le> ?cur + d)" "d \<le> 0 \<or> (\<forall>n. ?upper = Some n \<longrightarrow> ?cur + d \<le> n)"
      using dir envelope_ordered[of m] nudge_delta_up[of lo hi ?upper ?lower ?cur "budget st ! idx" d]
        nudge_delta_down[of lo hi ?upper ?lower ?cur "budget st ! idx" d] Some e
      by auto
    have so: "slot_ok (slots ! idx) (?w ! idx) (budget st ! idx)" using inv i by (simp add: sep_inv_def)
    have len: "length ?w = length slots" "length (budget st) = length slots" using inv by (simp_all add: sep_inv_def)
    have srt: "sorted (map (\<lambda>i. t_l (?w ! i)) ord)" using inv by (simp add: sep_inv_def)
    have "slot_ok (slots ! idx) ?x (budget st ! idx - \<bar>d\<bar>)"
      using so d(1) by (auto simp: slot_ok_def)
    then have "slot_ok (slots ! j) (?w[idx := ?x] ! j) ((budget st)[idx := budget st ! idx - \<bar>d\<bar>] ! j)"
      if "j < length slots" for j
      using inv len that by (cases "j = idx") (simp_all add: sep_inv_def)
    moreover have "sorted (map (\<lambda>i. t_l (?w[idx := ?x] ! i)) ord)"
      unfolding map_update_ord[OF rp i len(1)]
    proof (rule sorted_update)
      show "sorted (map (\<lambda>i. t_l (?w ! i)) ord)" by (rule srt)
      show "?pos < length (map (\<lambda>i. t_l (?w ! i)) ord)" using pos by simp
      show "t_l ?x \<le> map (\<lambda>i. t_l (?w ! i)) ord ! (?pos + 1)"
        if "?pos + 1 < length (map (\<lambda>i. t_l (?w ! i)) ord)"
        using that d(4) pos sorted_nth_mono[OF srt, of ?pos "?pos + 1"] by (auto simp: neighbour_def)
      show "map (\<lambda>i. t_l (?w ! i)) ord ! (?pos - 1) \<le> t_l ?x" if "1 \<le> ?pos"
        using that d(3) pos sorted_nth_mono[OF srt, of "?pos - 1" ?pos] by (auto simp: neighbour_def)
    qed
    moreover have "list_all (in_envelope m) (?w[idx := ?x])" if "list_all (in_envelope m) slots"
    proof -
      have w: "list_all (in_envelope m) ?w" using inv that by (simp add: sep_inv_def)
      then have "in_envelope m (?w ! idx)" using i len by (simp add: list_all_length)
      then have "in_envelope m ?x" using d(2) by (simp add: in_envelope_def e)
      then have "in_envelope m (?w[idx := ?x] ! j)" if "j < length slots" for j
        using w len that by (cases "j = idx") (simp_all add: list_all_length)
      then show ?thesis using len by (simp add: list_all_length)
    qed
    ultimately show ?thesis
      unfolding st' sep_inv_def using len by simp
  qed
qed

subsection \<open>The passes\<close>

lemma passes_inv:
  assumes "sep_inv m slots ord st" "rank_pair (length slots) ord rank" "2 \<le> length slots"
    "passes k (envelope m) ord rank st = (st', r)"
  shows "sep_inv m slots ord st' \<and> r \<noteq> Duplicates \<and> (r = Clear \<longrightarrow> far_enough (snd (snd (closest_pair (work st')))))"
  using assms(1,4)
proof (induction k arbitrary: st)
  case (Suc k)
  obtain i j d where c: "closest_pair (work st) = (i, j, d)" by (cases "closest_pair (work st)") auto
  obtain up down where ud: "(if rank ! i > rank ! j then (i, j) else (j, i)) = (up, down)" by fastforce
  have len: "length (work st) = length slots" using Suc.prems(1) by (simp add: sep_inv_def)
  then have "i < length slots" "j < length slots"
    using closest_pair_min[OF _ c] assms(3) by auto
  then have lt: "up < length slots" "down < length slots" using ud by (auto split: if_splits)
  define st2 where "st2 = nudge (envelope m) ord rank down (- 1) (nudge (envelope m) ord rank up 1 (st\<lparr>moved := False\<rparr>))"
  have "sep_inv m slots ord (st\<lparr>moved := False\<rparr>)" using Suc.prems(1) by (simp add: sep_inv_def)
  then have inv2: "sep_inv m slots ord st2"
    unfolding st2_def by (intro nudge_inv assms(2) lt) simp_all
  have step: "passes (Suc k) (envelope m) ord rank st =
      (if far_enough d then (st, Clear) else if list_all (\<lambda>b. b \<le> BUDGET_EPS) (budget st2) then (st2, Budget)
       else if \<not> moved st2 then (st2, Blocked) else passes k (envelope m) ord rank st2)"
    by (simp add: c ud st2_def Let_def)
  show ?case
    using Suc.prems c inv2 Suc.IH[OF inv2] unfolding step by (auto split: if_splits)
qed auto

lemma separate_run:
  assumes "n \<le> length slots" "2 \<le> n"
  shows "\<exists>st r. sep_inv m (take n slots) (rank_order (take n slots)) st \<and>
    (let d = snd (snd (closest_pair (work st))) in
     (r = Clear \<longleftrightarrow> far_enough d) \<and> r \<noteq> Duplicates \<and>
     separate slots m n = Some (work st @ replicate (length slots - n) (work st ! (n - 1)),
       \<lparr>resolved = far_enough d, sep_reason = r, residual_de = d\<rparr>))"
proof -
  let ?w = "take n slots" and ?b = "replicate n MAX_SEPARATION_SHIFT"
  let ?ord = "rank_order ?w"
  let ?st = "\<lparr>work = ?w, budget = ?b, moved = False\<rparr>"
  have len: "length ?w = n" using assms by simp
  have rp: "rank_pair n ?ord (ranks_of n ?ord)" using rank_pair_rank_order[of ?w] len by simp
  have inv: "sep_inv m ?w ?ord ?st"
    using rank_order_sorted[of ?w] len by (auto simp: sep_inv_def slot_ok_def MAX_SEPARATION_SHIFT_def)
  obtain st r where p: "passes MAX_SEPARATION_PASSES (envelope m) ?ord (ranks_of n ?ord) ?st = (st, r)" by fastforce
  have st: "sep_inv m ?w ?ord st" "r \<noteq> Duplicates" "r = Clear \<longrightarrow> far_enough (snd (snd (closest_pair (work st))))"
    using passes_inv[OF inv _ _ p] rp len assms by auto
  let ?d = "snd (snd (closest_pair (work st)))"
  have "separate slots m n = Some (work st @ replicate (length slots - n) (work st ! (n - 1)),
       \<lparr>resolved = far_enough ?d, sep_reason = (if far_enough ?d then Clear else r), residual_de = ?d\<rparr>)"
    using assms p by (simp add: separate_def Let_def)
  then show ?thesis
    using st by (intro exI[of _ st] exI[of _ "if far_enough ?d then Clear else r"]) (auto simp: Let_def)
qed

text \<open>C13. Separation moves lightness only and within bounds: with at most as many real picks as slots it returns
  as many slots; each real one keeps its hue and source chroma, moves by at most \<open>MAX_SEPARATION_SHIFT\<close> and is
  never overtaken by another; slots that were in the envelope of the mode stay there; and the repeats follow the
  last real slot.
\<close>

theorem separate_bounded:
  assumes "n \<le> length slots" "2 \<le> n"
  shows "\<exists>out r. separate slots m n = Some (out, r) \<and> length out = length slots
    \<and> (\<forall>i<n. t_h (out ! i) = t_h (slots ! i) \<and> t_src (out ! i) = t_src (slots ! i)
          \<and> \<bar>t_l (out ! i) - t_l (slots ! i)\<bar> \<le> MAX_SEPARATION_SHIFT)
    \<and> (\<forall>i<n. \<forall>j<n. t_l (slots ! i) < t_l (slots ! j) \<longrightarrow> t_l (out ! i) \<le> t_l (out ! j))
    \<and> (list_all (in_envelope m) slots \<longrightarrow> list_all (in_envelope m) out)
    \<and> drop n out = replicate (length slots - n) (out ! (n - 1))"
proof -
  let ?w = "take n slots"
  let ?ord = "rank_order ?w"
  obtain st r where inv: "sep_inv m ?w ?ord st"
    and run: "separate slots m n = Some (work st @ replicate (length slots - n) (work st ! (n - 1)), r)"
    using separate_run[OF assms, of m] by (auto simp: Let_def)
  let ?out = "work st @ replicate (length slots - n) (work st ! (n - 1))"
  have len: "length (work st) = n" using inv assms by (simp add: sep_inv_def)
  have "slot_ok (slots ! i) (?out ! i) (budget st ! i)" if "i < n" for i
    using inv that len assms by (simp add: sep_inv_def nth_append)
  then have keep: "t_h (?out ! i) = t_h (slots ! i) \<and> t_src (?out ! i) = t_src (slots ! i)
      \<and> \<bar>t_l (?out ! i) - t_l (slots ! i)\<bar> \<le> MAX_SEPARATION_SHIFT" if "i < n" for i
    using that unfolding slot_ok_def by force
  have ord: "t_l (?out ! i) \<le> t_l (?out ! j)" if ij: "i < n" "j < n" "t_l (slots ! i) < t_l (slots ! j)" for i j
  proof -
    have rp: "rank_pair n ?ord (ranks_of n ?ord)" using rank_pair_rank_order[of ?w] assms by (simp add: min_absorb2)
    let ?p = "ranks_of n ?ord ! i" and ?q = "ranks_of n ?ord ! j"
    have pq: "?p < length ?ord" "?q < length ?ord" "?ord ! ?p = i" "?ord ! ?q = j"
      using rp ij unfolding rank_pair_def by auto
    have "\<not> ?q \<le> ?p"
      using sorted_nth_mono[OF rank_order_sorted[of ?w], of ?q ?p] pq ij by auto
    moreover have "sorted (map (\<lambda>i. t_l (work st ! i)) ?ord)" using inv by (simp add: sep_inv_def)
    from sorted_nth_mono[OF this, of ?p ?q] calculation pq have "t_l (work st ! i) \<le> t_l (work st ! j)" by simp
    then show ?thesis using ij len by (simp add: nth_append)
  qed
  have env: "list_all (in_envelope m) ?out" if "list_all (in_envelope m) slots"
  proof -
    have "list_all (in_envelope m) ?w" using that by (auto simp: list_all_iff dest: in_set_takeD)
    then have "list_all (in_envelope m) (work st)" using inv by (simp add: sep_inv_def)
    then show ?thesis using len assms by (auto simp: list_all_iff)
  qed
  have "length ?out = length slots" "drop n ?out = replicate (length slots - n) (?out ! (n - 1))"
    using len assms by (simp_all add: nth_append)
  then show ?thesis using run keep ord env by blast
qed

theorem separate_bounded_witness:
  "\<exists>out r. separate [\<lparr>t_l = 0.3, t_h = 0, t_src = 0\<rparr>, \<lparr>t_l = 0.31, t_h = 0, t_src = 0\<rparr>] Dark 2 = Some (out, r)
     \<and> length out = 2 \<and> t_l (out ! 0) \<le> t_l (out ! 1)"
  using separate_bounded[of 2 "[\<lparr>t_l = 0.3, t_h = 0, t_src = 0\<rparr>, \<lparr>t_l = 0.31, t_h = 0, t_src = 0\<rparr>]" Dark]
  by (auto simp: numeral_2_eq_2)

text \<open>The verdict of separation is about what it returns: \<open>resolved\<close> holds exactly when every two real slots of
  the result are at least \<open>MIN_DE\<close> apart, exactly then the reason is \<open>Clear\<close>, and the residual is the smallest
  distance of two of them.
\<close>

theorem separate_verdict:
  assumes "n \<le> length slots" "2 \<le> n" "separate slots m n = Some (out, r)"
  shows "(resolved r \<longleftrightarrow> (\<forall>i j. i < j \<longrightarrow> j < n \<longrightarrow> MIN_DE \<le> slot_dist out i j))
    \<and> (resolved r \<longleftrightarrow> sep_reason r = Clear) \<and> sep_reason r \<noteq> Duplicates
    \<and> (\<exists>i j. i < j \<and> j < n \<and> residual_de r = Some (slot_dist out i j)
         \<and> (\<forall>k l. k < l \<longrightarrow> l < n \<longrightarrow> slot_dist out i j \<le> slot_dist out k l))"
proof -
  obtain st q where inv: "sep_inv m (take n slots) (rank_order (take n slots)) st"
    and q: "q = Clear \<longleftrightarrow> far_enough (snd (snd (closest_pair (work st))))" "q \<noteq> Duplicates"
    and run: "separate slots m n = Some (work st @ replicate (length slots - n) (work st ! (n - 1)),
       \<lparr>resolved = far_enough (snd (snd (closest_pair (work st)))), sep_reason = q,
         residual_de = snd (snd (closest_pair (work st)))\<rparr>)"
    using separate_run[OF assms(1,2), of m] by (auto simp: Let_def)
  obtain i j d where c: "closest_pair (work st) = (i, j, d)" by (cases "closest_pair (work st)") auto
  have len: "length (work st) = n" using inv assms by (simp add: sep_inv_def)
  have out: "out = work st @ replicate (length slots - n) (work st ! (n - 1))"
    and r: "r = \<lparr>resolved = far_enough d, sep_reason = q, residual_de = d\<rparr>"
    using assms(3) run c by simp_all
  have same: "slot_dist out k l = slot_dist (work st) k l" if "k < l" "l < n" for k l
    using that len by (simp add: out slot_dist_def nth_append)
  have min: "i < j" "j < n" "d = Some (slot_dist out i j)" "\<forall>k l. k < l \<longrightarrow> l < n \<longrightarrow> slot_dist out i j \<le> slot_dist out k l"
    using closest_pair_min[OF _ c] len assms(2) same by auto
  then have "far_enough d \<longleftrightarrow> (\<forall>i j. i < j \<longrightarrow> j < n \<longrightarrow> MIN_DE \<le> slot_dist out i j)"
    unfolding far_enough_def by force
  then show ?thesis using min q c by (auto simp: r)
qed

theorem separate_verdict_witness:
  "\<exists>out r. separate [\<lparr>t_l = 0.3, t_h = 0, t_src = 0\<rparr>, \<lparr>t_l = 0.31, t_h = 0, t_src = 0\<rparr>] Dark 2 = Some (out, r)
     \<and> (resolved r \<longleftrightarrow> sep_reason r = Clear)"
proof -
  let ?s = "[\<lparr>t_l = 0.3, t_h = 0, t_src = 0\<rparr>, \<lparr>t_l = 0.31, t_h = 0, t_src = 0\<rparr>]"
  obtain out r where "separate ?s Dark 2 = Some (out, r)"
    using separate_run[of 2 ?s Dark] by (auto simp: Let_def)
  then show ?thesis using separate_verdict[of 2 ?s Dark out r] by auto
qed

end
