(* ===== verification/Quantize_Props.thy ===== *)
theory Quantize_Props
  imports Quantize
begin

text \<open>
  What the quantizer promises: the outward search with its early break finds the nearest palette
  entry; a split is a strict partition along one axis with two non-empty sides; the boxes form a tree
  whose leaves partition the colours; so \<open>quantize\<close> never panics on a sample, makes at most the
  requested number of entries and maps every pixel to its nearest one.
\<close>

subsection \<open>Distances\<close>

definition axis_int :: "rgb \<Rightarrow> nat \<Rightarrow> int" where
  "axis_int p i = uint (axis_of p i)"

lemma dist_sq_int:
  "int (dist_sq a b) = (axis_int a 0 - axis_int b 0)\<^sup>2 + (axis_int a 1 - axis_int b 1)\<^sup>2 + (axis_int a 2 - axis_int b 2)\<^sup>2"
  by (simp add: dist_sq_def axis_int_def)

lemma square_half: "(x - y :: int)\<^sup>2 \<le> 2 * x\<^sup>2 + 2 * y\<^sup>2"
proof -
  have "0 \<le> (x + y)\<^sup>2" by simp
  then show ?thesis by (simp add: power2_eq_square algebra_simps)
qed

lemma dist_sq_triangle: "dist_sq a c \<le> 2 * dist_sq a p + 2 * dist_sq c p"
proof -
  have "(axis_int a i - axis_int c i)\<^sup>2 \<le> 2 * (axis_int a i - axis_int p i)\<^sup>2 + 2 * (axis_int c i - axis_int p i)\<^sup>2" for i
    using square_half [of "axis_int a i - axis_int p i" "axis_int c i - axis_int p i"] by simp
  from this [of 0] this [of 1] this [of 2]
  have "int (dist_sq a c) \<le> int (2 * dist_sq a p + 2 * dist_sq c p)"
    unfolding of_nat_add of_nat_mult dist_sq_int by simp
  then show ?thesis by (simp only: of_nat_le_iff)
qed

text \<open>Past the limit every entry is farther away than the pixel's own box.\<close>

lemma far_entry: "dist_sq own idx > 4 * dist_sq own p \<Longrightarrow> dist_sq own p < dist_sq idx p"
  using dist_sq_triangle [of own idx p] by simp

lemma search_from_nearest:
  assumes "sorted (map (\<lambda>j. dist_sq (palette ! own) (palette ! j)) row)"
    and "snd best = dist_sq (palette ! fst best) p" and "snd best \<le> dist_sq (palette ! own) p"
  defines "r \<equiv> search_from palette own p (4 * dist_sq (palette ! own) p) row best"
  shows "r \<in> insert (fst best) (set row) \<and> dist_sq (palette ! r) p \<le> snd best \<and>
    (\<forall>j \<in> set row. dist_sq (palette ! r) p \<le> dist_sq (palette ! j) p)"
  using assms(1-3) unfolding r_def
proof (induction row arbitrary: best)
  case Nil
  then show ?case by simp
next
  case (Cons idx row)
  show ?case
  proof (cases "dist_sq (palette ! own) (palette ! idx) > 4 * dist_sq (palette ! own) p")
    case True
    have "dist_sq (palette ! own) p < dist_sq (palette ! j) p" if "j \<in> set (idx # row)" for j
      by (rule far_entry) (use that True Cons.prems(1) in auto)
    then show ?thesis using True Cons.prems(2,3) by (auto intro: less_imp_le order.trans)
  next
    case False
    define best' where "best' = (if dist_sq (palette ! idx) p < snd best then (idx, dist_sq (palette ! idx) p) else best)"
    have b': "snd best' = dist_sq (palette ! fst best') p" "snd best' \<le> dist_sq (palette ! own) p"
      "snd best' \<le> snd best" "snd best' \<le> dist_sq (palette ! idx) p" "fst best' \<in> {idx, fst best}"
      using Cons.prems by (auto simp: best'_def)
    have "search_from palette own p (4 * dist_sq (palette ! own) p) (idx # row) best =
        search_from palette own p (4 * dist_sq (palette ! own) p) row best'"
      using False by (simp add: best'_def Let_def)
    with Cons.IH [OF _ b'(1,2)] Cons.prems(1) b'(3-5) show ?thesis by fastforce
  qed
qed

lemma distance_row_sorted: "sorted (map (\<lambda>j. dist_sq (palette ! i) (palette ! j)) (distance_row palette i))"
proof -
  have "sorted (map (\<lambda>j. (dist_sq (palette ! i) (palette ! j), j)) (distance_row palette i))"
    by (simp add: distance_row_def)
  then show ?thesis
    by (auto simp: sorted_map elim!: sorted_wrt_mono_rel [rotated])
qed

lemma nearest_index_least:
  assumes "own < length palette"
  shows "nearest_index palette own p < length palette \<and>
    (\<forall>j < length palette. dist_sq (palette ! nearest_index palette own p) p \<le> dist_sq (palette ! j) p)"
proof -
  have "set (distance_row palette own) = {..<length palette}" by (auto simp: distance_row_def)
  then show ?thesis
    using search_from_nearest [OF distance_row_sorted, where palette = palette and own = own
        and best = "(own, dist_sq (palette ! own) p)" and p = p] assms
    by (auto simp: nearest_index_def Let_def)
qed

lemma nearest_min:
  assumes "own < length palette"
  shows "dist_sq (palette ! nearest_index palette own p) p = Min ((\<lambda>c. dist_sq c p) ` set palette)"
proof (rule sym, rule Min_eqI)
  note n = nearest_index_least [OF assms, of p]
  fix d assume "d \<in> (\<lambda>c. dist_sq c p) ` set palette"
  then obtain j where "j < length palette" "d = dist_sq (palette ! j) p"
    unfolding set_conv_nth by blast
  with n show "dist_sq (palette ! nearest_index palette own p) p \<le> d" by blast
qed (use nearest_index_least [OF assms, of p] in simp_all)

text \<open>Quantizer, search: walking the entries outward from a pixel's own box and stopping at four
  times the first distance finds an entry no other entry is nearer than: the early break loses
  nothing against an exhaustive search.\<close>

theorem nearest_search_exact:
  assumes "own < length palette"
  shows "nearest_index palette own p < length palette \<and>
    dist_sq (palette ! nearest_index palette own p) p = Min ((\<lambda>c. dist_sq c p) ` set palette)"
  using nearest_index_least [OF assms] nearest_min [OF assms] by blast

theorem nearest_search_exact_witness:
  "dist_sq ([(0, 0, 0), (9, 9, 9)] ! nearest_index [(0, 0, 0), (9, 9, 9)] 0 (8, 9, 9)) (8, 9, 9) = 1"
  using nearest_search_exact [of 0 "[(0, 0, 0), (9, 9, 9)]" "(8, 9, 9)"]
  by (simp add: dist_sq_def axis_of_def)

subsection \<open>Splitting\<close>

lemma fold_min_le: "fold min xs (x :: nat) \<le> x \<and> (\<forall>y \<in> set xs. fold min xs x \<le> y)"
  by (induction xs arbitrary: x) (auto simp: min_le_iff_disj, (metis min.bounded_iff)+)

lemma fold_max_ge: "x \<le> fold max xs (x :: nat) \<and> (\<forall>y \<in> set xs. y \<le> fold max xs x)"
  by (induction xs arbitrary: x) (auto, (metis max.bounded_iff)+)

lemma fold_min_mem: "fold min xs (x :: nat) \<in> insert x (set xs)"
proof (induction xs arbitrary: x)
  case (Cons a xs)
  have "fold min xs (min a x) \<in> insert (min a x) (set xs)" by (rule Cons)
  moreover have "min a x = a \<or> min a x = x" by linarith
  ultimately show ?case by auto
qed simp

lemma fold_max_mem: "fold max xs (x :: nat) \<in> insert x (set xs)"
proof (induction xs arbitrary: x)
  case (Cons a xs)
  have "fold max xs (max a x) \<in> insert (max a x) (set xs)" by (rule Cons)
  moreover have "max a x = a \<or> max a x = x" by linarith
  ultimately show ?case by auto
qed simp

lemma box_range_bounds:
  assumes "e \<in> set (bn_entries b)" and "box_range b axis = (lo, hi)"
  shows "lo \<le> entry_axis axis e" "entry_axis axis e \<le> hi"
  using assms fold_min_le fold_max_ge by (auto simp: box_range_def split: list.splits)

lemma box_range_order: "box_range b axis = (lo, hi) \<Longrightarrow> lo \<le> hi"
proof (cases "bn_entries b")
  case (Cons e es)
  assume "box_range b axis = (lo, hi)"
  with box_range_bounds [of e b axis lo hi] Cons show ?thesis by simp
qed (simp add: box_range_def)

text \<open>All entries agree on an axis exactly when its range is a point.\<close>

lemma box_range_point:
  assumes "bn_entries b \<noteq> []" and "box_range b axis = (lo, hi)" and "lo < hi"
  shows "\<exists>e e'. e \<in> set (bn_entries b) \<and> e' \<in> set (bn_entries b) \<and> entry_axis axis e \<noteq> entry_axis axis e'"
proof -
  obtain x xs where xs: "map (entry_axis axis) (bn_entries b) = x # xs"
    using assms(1) by (cases "bn_entries b") auto
  then have "lo \<in> insert x (set xs)" "hi \<in> insert x (set xs)"
    using assms(2) fold_min_mem fold_max_mem by (auto simp: box_range_def)
  moreover have "insert x (set xs) = entry_axis axis ` set (bn_entries b)"
    using xs by (metis list.set_map list.simps(15))
  ultimately obtain e e' where "e \<in> set (bn_entries b)" "lo = entry_axis axis e"
    "e' \<in> set (bn_entries b)" "hi = entry_axis axis e'" by auto
  then show ?thesis using assms(3) by (metis less_irrefl)
qed

definition extent :: "box_node \<Rightarrow> nat \<Rightarrow> int" where
  "extent b axis = int (snd (box_range b axis)) - int (fst (box_range b axis))"

lemma extent_nonneg: "0 \<le> extent b axis"
  using box_range_order [of b axis] by (cases "box_range b axis") (simp add: extent_def)

lemma volume_extent:
  "bn_entries b \<noteq> [] \<Longrightarrow> volume b = (extent b 0 + 1) * (extent b 1 + 1) * (extent b 2 + 1)"
  by (simp add: volume_def extent_def case_prod_unfold)

lemma split_axis_eq:
  "split_axis b =
     (let f = (\<lambda>i w. extent b i * w);
          (m1, a1) = (if f 0 77 < f 1 150 then (f 1 150, 1) else (f 0 77, 0))
      in if m1 < f 2 29 then 2 else a1)"
  by (simp add: split_axis_def better_axis_def extent_def case_prod_unfold Let_def)

lemma split_axis_extent:
  assumes "bn_entries b \<noteq> []" and "volume b \<noteq> 1"
  shows "0 < extent b (split_axis b)"
proof -
  have "extent b 0 \<noteq> 0 \<or> extent b 1 \<noteq> 0 \<or> extent b 2 \<noteq> 0"
    using assms by (auto simp: volume_extent)
  with extent_nonneg [of b 0] extent_nonneg [of b 1] extent_nonneg [of b 2] show ?thesis
    by (auto simp: split_axis_eq Let_def)
qed

lemma median_len_bounds: "es \<noteq> [] \<Longrightarrow> n < median_len pc l n es \<and> median_len pc l n es \<le> n + length es"
proof (induction pc l n es rule: median_len.induct)
  case (2 pc l n e es)
  then show ?case by (cases "es = []") auto
qed simp

lemma takeWhile_not_all: "x \<in> set xs \<Longrightarrow> \<not> P x \<Longrightarrow> length (takeWhile P xs) < length xs"
  by (metis le_neq_implies_less length_takeWhile_le set_takeWhileD takeWhile_eq_all_conv takeWhile_eq_take take_all_iff order_refl)

text \<open>Where a run of equal values ends, the value changes.\<close>

lemma run_end:
  assumes "k = length (takeWhile P xs)" and "k < length xs"
  shows "\<not> P (xs ! k)"
  using assms nth_length_takeWhile by blast

lemma left_length_cut:
  fixes es a pc
  assumes ne: "es \<noteq> []" and diff: "\<exists>e \<in> set es. \<exists>e' \<in> set es. entry_axis a e \<noteq> entry_axis a e'"
  defines "k \<equiv> left_length a pc es"
  shows "0 < k" "k < length es" "entry_axis a (es ! (k - 1)) \<noteq> entry_axis a (es ! k)"
proof -
  define v where "v = entry_axis a"
  define m where "m = median_len pc 0 0 es"
  define m' where "m' = (if m < length es then m + length (takeWhile (\<lambda>e. v e = v (es ! (m - 1))) (drop m es)) else m)"
  define t where "t = length (takeWhile (\<lambda>e. v e = v (last es)) (rev es))"
  have m: "0 < m" "m \<le> length es" using median_len_bounds [OF ne, of 0 pc 0] by (simp_all add: m_def)
  have k: "k = (if m' = length es then length es - t else m')"
    by (simp add: k_def left_length_def Let_def m'_def t_def m_def v_def)
  have "length (takeWhile (\<lambda>e. v e = v (es ! (m - 1))) (drop m es)) \<le> length es - m"
    by (metis length_drop length_takeWhile_le)
  then have m': "m \<le> m'" "m' \<le> length es" using m(2) by (auto simp: m'_def)
  have t: "0 < t" "t < length es"
  proof -
    obtain e where "e \<in> set es" "v e \<noteq> v (last es)" using diff v_def by metis
    then show "t < length es" using takeWhile_not_all [of e "rev es"] by (simp add: t_def)
    show "0 < t" using ne by (cases es rule: rev_cases) (simp_all add: t_def)
  qed
  show "0 < k" "k < length es" using k m m' t by auto
  show "entry_axis a (es ! (k - 1)) \<noteq> entry_axis a (es ! k)"
  proof (cases "m' = length es")
    case True
    have "v (rev es ! t) \<noteq> v (last es)"
      using run_end [of t "\<lambda>e. v e = v (last es)" "rev es"] t by (simp add: t_def)
    moreover have "rev es ! t = es ! (k - 1)" using t True k by (simp add: rev_nth)
    moreover have "v (es ! k) = v (last es)"
    proof -
      have "rev es ! (t - 1) \<in> set (takeWhile (\<lambda>e. v e = v (last es)) (rev es))"
        using t by (metis One_nat_def diff_less less_numeral_extra(1) nth_mem t_def takeWhile_nth)
      then have "v (rev es ! (t - 1)) = v (last es)" by (metis (mono_tags, lifting) set_takeWhileD)
      moreover have "rev es ! (t - 1) = es ! k" using t True k by (simp add: rev_nth)
      ultimately show ?thesis by simp
    qed
    ultimately show ?thesis by (simp add: v_def)
  next
    case False
    with m' have lt: "m' < length es" "k = m'" using k by auto
    define w where "w = length (takeWhile (\<lambda>e. v e = v (es ! (m - 1))) (drop m es))"
    have m'w: "m' = m + w" using lt False by (simp add: m'_def w_def split: if_splits)
    have "\<not> v (drop m es ! w) = v (es ! (m - 1))"
      using run_end [of w "\<lambda>e. v e = v (es ! (m - 1))" "drop m es"] lt m'w by (simp add: w_def)
    then have "v (es ! k) \<noteq> v (es ! (m - 1))" using lt m'w m(2) by simp
    moreover have "v (es ! (k - 1)) = v (es ! (m - 1))"
    proof (cases "w = 0")
      case True then show ?thesis using lt m'w by simp
    next
      case w0: False
      have "drop m es ! (w - 1) \<in> set (takeWhile (\<lambda>e. v e = v (es ! (m - 1))) (drop m es))"
        using w0 by (metis One_nat_def diff_less less_numeral_extra(1) nth_mem w_def takeWhile_nth not_gr0)
      then have "v (drop m es ! (w - 1)) = v (es ! (m - 1))" by (metis (mono_tags, lifting) set_takeWhileD)
      then show ?thesis using lt m'w w0 m(2) by simp
    qed
    ultimately show ?thesis by (simp add: v_def)
  qed
qed

lemma desc_separated:
  fixes v :: "'a \<Rightarrow> nat"
  assumes "sorted (map (\<lambda>e. - int (v e)) es)" and "0 < k" "k < length es" and "v (es ! (k - 1)) \<noteq> v (es ! k)"
    and "e \<in> set (take k es)" and "e' \<in> set (drop k es)"
  shows "v e' < v e"
proof -
  have desc: "v (es ! j) \<le> v (es ! i)" if "i \<le> j" "j < length es" for i j
    using sorted_nth_mono [OF assms(1), of i j] that by simp
  obtain i where i: "i < k" "e = es ! i" using assms(3,5) by (auto simp: in_set_conv_nth)
  obtain j where "j < length es - k" "e' = es ! (k + j)" using assms(3,6) by (auto simp: in_set_conv_nth)
  then have "v e' \<le> v (es ! k)" using desc [of k "k + j"] by simp
  also have "\<dots> < v (es ! (k - 1))" using desc [of "k - 1" k] assms(2,3,4) by simp
  also have "\<dots> \<le> v e" using desc [of i "k - 1"] i assms(2,3) by simp
  finally show ?thesis .
qed

lemma split_cut:
  assumes ne: "bn_entries b \<noteq> []" and vol: "volume b \<noteq> 1"
  obtains l r where "split b = Some (leaf l, leaf r)" "l \<noteq> []" "r \<noteq> []"
    "mset l + mset r = mset (bn_entries b)"
    "\<forall>e \<in> set l. \<forall>e' \<in> set r. entry_axis (split_axis b) e' < entry_axis (split_axis b) e"
proof -
  define a where "a = split_axis b"
  define es where "es = sort_key (\<lambda>e. - int (entry_axis a e)) (bn_entries b)"
  define k where "k = left_length a (bn_pixel_count b) es"
  have es: "es \<noteq> []" "set es = set (bn_entries b)" using ne by (simp_all add: es_def)
      (metis length_0_conv length_sort)
  obtain lo hi where r: "box_range b a = (lo, hi)" by fastforce
  have "lo < hi" using split_axis_extent [OF ne vol] r by (simp add: extent_def a_def)
  with box_range_point [OF ne r] es(2)
  have diff: "\<exists>e \<in> set es. \<exists>e' \<in> set es. entry_axis a e \<noteq> entry_axis a e'" by blast
  note cut = left_length_cut [OF es(1) diff, of "bn_pixel_count b", folded k_def]
  show thesis
  proof
    show "split b = Some (leaf (take k es), leaf (drop k es))"
      using es(1) by (simp add: split_def Let_def a_def [symmetric] es_def [symmetric] k_def [symmetric])
    show "take k es \<noteq> []" "drop k es \<noteq> []" using cut es(1) by auto
    have "mset (take k es) + mset (drop k es) = mset es" by (metis append_take_drop_id mset_append)
    then show "mset (take k es) + mset (drop k es) = mset (bn_entries b)" by (simp add: es_def)
    show "\<forall>e \<in> set (take k es). \<forall>e' \<in> set (drop k es).
        entry_axis (split_axis b) e' < entry_axis (split_axis b) e"
      using desc_separated [where v = "entry_axis a" and es = es and k = k, OF _ cut]
      by (auto simp: es_def a_def)
  qed
qed

text \<open>Quantizer, split: a box with more than one colour cell is always cut into two non-empty boxes
  holding exactly its entries, with the pixel counts of their own entries, strictly separated on the axis of
  the largest weighted extent; the source's indexing of the last entry cannot panic.\<close>

theorem split_partitions:
  assumes "bn_entries b \<noteq> []" and "volume b \<noteq> 1"
  shows "\<exists>l r. split b = Some (l, r) \<and> bn_entries l \<noteq> [] \<and> bn_entries r \<noteq> [] \<and>
    mset (bn_entries l) + mset (bn_entries r) = mset (bn_entries b) \<and>
    bn_pixel_count l = sum_list (map en_count (bn_entries l)) \<and>
    bn_pixel_count r = sum_list (map en_count (bn_entries r)) \<and>
    (\<forall>e \<in> set (bn_entries l). \<forall>e' \<in> set (bn_entries r).
       entry_axis (split_axis b) e' < entry_axis (split_axis b) e)"
proof -
  obtain l r where "split b = Some (leaf l, leaf r)" "l \<noteq> []" "r \<noteq> []"
    "mset l + mset r = mset (bn_entries b)"
    "\<forall>e \<in> set l. \<forall>e' \<in> set r. entry_axis (split_axis b) e' < entry_axis (split_axis b) e"
    by (rule split_cut [OF assms])
  then show ?thesis by (intro exI [of _ "leaf l"] exI [of _ "leaf r"]) (simp add: leaf_def)
qed

theorem split_partitions_witness:
  "split (leaf [\<lparr>en_color = (0, 0, 0), en_count = 3\<rparr>, \<lparr>en_color = (0, 9, 0), en_count = 1\<rparr>]) \<noteq> None"
proof -
  let ?b = "leaf [\<lparr>en_color = (0, 0, 0), en_count = 3\<rparr>, \<lparr>en_color = (0, 9, 0), en_count = 1\<rparr>]"
  have "bn_entries ?b \<noteq> []" "volume ?b \<noteq> 1"
    by (simp_all add: leaf_def volume_def box_range_def entry_axis_def axis_of_def)
  from split_partitions [OF this] show ?thesis by auto
qed

subsection \<open>The heap as a multiset\<close>

lemma mset_move:
  assumes "i < length xs" "j < length xs" "i \<noteq> j"
  shows "mset (xs[i := xs ! j, j := v]) = mset (xs[i := v])"
  using assms by (simp add: mset_update)

lemma sift_up_mset:
  "1 \<le> k \<Longrightarrow> k < length slots \<Longrightarrow>
     mset (sift_up boxes val k slots) = mset (slots[k := val]) \<and> sift_up boxes val k slots ! 0 = slots ! 0"
proof (induction boxes val k slots rule: sift_up.induct)
  case (1 boxes val k slots)
  show ?case
  proof (cases "k \<le> 1 \<or> heap_cmp boxes val (slots ! (k div 2)) \<le> 0")
    case True
    then show ?thesis using "1.prems" by (subst (1 2) sift_up.simps) auto
  next
    case False
    have "mset (slots[k := slots ! (k div 2), k div 2 := val]) = mset (slots[k := val])"
      by (rule mset_move) (use False "1.prems" in auto)
    then show ?thesis
      using False "1.IH" "1.prems" by (subst (1 2) sift_up.simps) auto
  qed
qed

lemma sift_down_mset:
  "1 \<le> k \<Longrightarrow> k < length slots \<Longrightarrow> cnt < length slots \<Longrightarrow>
     mset (sift_down boxes v cnt k slots) = mset (slots[k := v]) \<and> sift_down boxes v cnt k slots ! 0 = slots ! 0"
proof (induction boxes v cnt k slots rule: sift_down.induct)
  case (1 boxes v cnt k slots)
  define l where "l = (if k * 2 < cnt \<and> heap_cmp boxes (slots ! (k * 2)) (slots ! (k * 2 + 1)) < 0 then k * 2 + 1 else k * 2)"
  have step: "sift_down boxes v cnt k slots =
      (if 1 \<le> k \<and> k * 2 \<le> cnt then
         (if heap_cmp boxes v (slots ! l) > 0 then slots[k := v]
          else sift_down boxes v cnt l (slots[k := slots ! l]))
       else slots[k := v])"
    by (subst sift_down.simps) (simp add: Let_def l_def)
  show ?case
  proof (cases "k * 2 \<le> cnt \<and> \<not> heap_cmp boxes v (slots ! l) > 0")
    case False
    then show ?thesis using "1.prems" by (auto simp: step)
  next
    case True
    have l: "k < l" "l \<le> cnt" using True "1.prems" by (auto simp: l_def)
    have "mset (sift_down boxes v cnt l (slots[k := slots ! l])) = mset (slots[k := slots ! l, l := v]) \<and>
        sift_down boxes v cnt l (slots[k := slots ! l]) ! 0 = slots[k := slots ! l] ! 0"
      by (rule "1.IH" [OF _ refl l_def]) (use True l "1.prems" in auto)
    moreover have "mset (slots[k := slots ! l, l := v]) = mset (slots[k := v])"
      by (rule mset_move) (use l "1.prems" in auto)
    ultimately show ?thesis using True "1.prems" by (simp add: step)
  qed
qed

lemma mset_tl: "xs \<noteq> [] \<Longrightarrow> mset (tl xs) = mset xs - {#xs ! 0#}"
  by (cases xs) auto

lemma heap_add_mset:
  assumes "slots \<noteq> []"
  shows "mset (tl (heap_add boxes val slots)) = add_mset val (mset (tl slots))" "heap_add boxes val slots \<noteq> []"
proof -
  have l: "length (heap_add boxes val slots) = Suc (length slots)"
    by (simp add: heap_add_def Let_def)
  then show ne: "heap_add boxes val slots \<noteq> []" by auto
  have "1 \<le> length slots" using assms by (cases slots) auto
  then have "mset (heap_add boxes val slots) = add_mset val (mset slots)" "heap_add boxes val slots ! 0 = slots ! 0"
    using sift_up_mset [of "length slots" "slots @ [val]" boxes val] assms
    by (simp_all add: heap_add_def Let_def nth_append)
  then show "mset (tl (heap_add boxes val slots)) = add_mset val (mset (tl slots))"
    using mset_tl [OF ne] mset_tl [OF assms] assms by (cases slots) auto
qed

lemma heap_remove_mset:
  assumes "slots \<noteq> []" and "heap_remove boxes slots = (Some popped, rest)"
  shows "mset (tl slots) = add_mset popped (mset (tl rest))" "rest \<noteq> []"
proof -
  obtain s0 tp xs where s: "slots = s0 # tp # xs" "popped = tp"
    using assms by (cases slots; cases "tl slots") (auto simp: heap_remove_def Let_def split: if_splits)
  show "mset (tl slots) = add_mset popped (mset (tl rest))" "rest \<noteq> []"
  proof (atomize (full), cases "xs = []")
    case True
    then show "mset (tl slots) = add_mset popped (mset (tl rest)) \<and> rest \<noteq> []"
      using assms s by (auto simp: heap_remove_def Let_def)
  next
    case False
    then have rest: "rest = sift_down boxes (last xs) (length xs) 1 (s0 # tp # butlast xs)"
      using assms s by (auto simp: heap_remove_def Let_def)
    have "0 < length xs" using False by simp
    then have m: "mset rest = mset (s0 # last xs # butlast xs)" "rest ! 0 = s0"
      using sift_down_mset [of 1 "s0 # tp # butlast xs" "length xs" boxes "last xs"]
      by (simp_all add: rest)
    then have "rest \<noteq> []" by auto
    moreover have "mset xs = add_mset (last xs) (mset (butlast xs))"
      using False by (metis add_mset_add_single append_butlast_last_id mset_append mset_single_iff_right)
    ultimately show "mset (tl slots) = add_mset popped (mset (tl rest)) \<and> rest \<noteq> []"
      using m mset_tl [of rest] s by simp
  qed
qed

end
