(* ===== verification/Quantize_Tree.thy ===== *)
theory Quantize_Tree
  imports Quantize_Props
begin

text \<open>
  The boxes of the median cut form a binary tree: the abstraction \<open>cut_tree\<close> and its representation
  relation. The depth-first numbering is the order of its tips.
\<close>

subsection \<open>The tree of boxes\<close>

datatype cut_tree = Tip nat | Cut nat cut_tree cut_tree

fun root_of :: "cut_tree \<Rightarrow> nat" where
  "root_of (Tip n) = n"
| "root_of (Cut n l r) = n"

fun tips :: "cut_tree \<Rightarrow> nat list" where
  "tips (Tip n) = [n]"
| "tips (Cut n l r) = tips l @ tips r"

fun rep :: "box_node list \<Rightarrow> cut_tree \<Rightarrow> bool" where
  "rep boxes (Tip n) \<longleftrightarrow> n < length boxes \<and> bn_children (boxes ! n) = None"
| "rep boxes (Cut n l r) \<longleftrightarrow>
     n < length boxes \<and> bn_children (boxes ! n) = Some (root_of l, root_of r) \<and> rep boxes l \<and> rep boxes r"

fun graft :: "nat \<Rightarrow> nat \<Rightarrow> nat \<Rightarrow> cut_tree \<Rightarrow> cut_tree" where
  "graft n li ri (Tip k) = (if k = n then Cut n (Tip li) (Tip ri) else Tip k)"
| "graft n li ri (Cut k l r) = Cut k (graft n li ri l) (graft n li ri r)"

lemma root_graft [simp]: "root_of (graft n li ri t) = root_of t"
  by (cases t) auto

lemma rep_tips: "rep boxes t \<Longrightarrow> k \<in> set (tips t) \<Longrightarrow> k < length boxes \<and> bn_children (boxes ! k) = None"
  by (induction t) auto

lemma graft_id: "n \<notin> set (tips t) \<Longrightarrow> graft n li ri t = t"
  by (induction t) auto

lemma set_tips_graft: "n \<in> set (tips t) \<Longrightarrow> li \<noteq> n \<Longrightarrow> ri \<noteq> n \<Longrightarrow>
    set (tips (graft n li ri t)) = set (tips t) - {n} \<union> {li, ri}"
proof (induction t)
  case (Cut k l r)
  then show ?case by (cases "n \<in> set (tips l)"; cases "n \<in> set (tips r)") (auto simp: graft_id)
qed auto

lemma distinct_graft:
  assumes "distinct (tips t)" "n \<in> set (tips t)" "li \<notin> set (tips t)" "ri \<notin> set (tips t)" "li \<noteq> ri" "li \<noteq> n" "ri \<noteq> n"
  shows "distinct (tips (graft n li ri t)) \<and> length (tips (graft n li ri t)) = Suc (length (tips t))"
  using assms
proof (induction t)
  case (Cut k l r)
  then show ?case
    by (cases "n \<in> set (tips l)"; cases "n \<in> set (tips r)") (auto simp: graft_id set_tips_graft)
qed auto

text \<open>Splitting box \<open>n\<close> grafts two new tips where \<open>n\<close> was one.\<close>

definition split_boxes :: "nat \<Rightarrow> box_node \<Rightarrow> box_node \<Rightarrow> box_node list \<Rightarrow> box_node list" where
  "split_boxes n l r boxes =
     (boxes @ [l, r])[n := (boxes ! n)\<lparr>bn_children := Some (length boxes, length boxes + 1)\<rparr>]"

lemma split_boxes_nth:
  "k < length boxes \<Longrightarrow> n < length boxes \<Longrightarrow>
     split_boxes n l r boxes ! k =
       (if k = n then (boxes ! n)\<lparr>bn_children := Some (length boxes, length boxes + 1)\<rparr> else boxes ! k)"
  "n < length boxes \<Longrightarrow> split_boxes n l r boxes ! length boxes = l"
  "n < length boxes \<Longrightarrow> split_boxes n l r boxes ! Suc (length boxes) = r"
  "length (split_boxes n l r boxes) = length boxes + 2"
  by (auto simp: split_boxes_def nth_append)

lemma rep_graft:
  assumes "n < length boxes" "bn_children (boxes ! n) = None" "bn_children l = None" "bn_children r = None"
  shows "rep boxes t \<Longrightarrow> rep (split_boxes n l r boxes) (graft n (length boxes) (length boxes + 1) t)"
  using assms by (induction t) (auto simp: split_boxes_nth)

definition tip_entries :: "box_node list \<Rightarrow> cut_tree \<Rightarrow> entry multiset" where
  "tip_entries boxes t = (\<Sum>n \<leftarrow> tips t. mset (bn_entries (boxes ! n)))"

lemma tip_entries_graft:
  assumes "n < length boxes" "mset (bn_entries l) + mset (bn_entries r) = mset (bn_entries (boxes ! n))"
  shows "rep boxes t \<Longrightarrow>
    tip_entries (split_boxes n l r boxes) (graft n (length boxes) (length boxes + 1) t) = tip_entries boxes t"
  using assms by (induction t) (auto simp: tip_entries_def split_boxes_nth)

subsection \<open>The invariant of the cut\<close>

definition cut_inv :: "box_node list \<Rightarrow> nat list \<Rightarrow> cut_tree \<Rightarrow> bool" where
  "cut_inv boxes slots t \<longleftrightarrow>
     rep boxes t \<and> distinct (tips t) \<and> slots \<noteq> [] \<and> distinct (tl slots) \<and>
     set (tl slots) \<subseteq> set (tips t) \<and> list_all (\<lambda>b. bn_entries b \<noteq> []) boxes"

lemma cut_inv_pop:
  assumes "cut_inv boxes slots t" and "heap_remove boxes slots = (Some n, rest)"
  shows "cut_inv boxes rest t" "n \<in> set (tips t)" "n \<notin> set (tl rest)"
proof -
  have ne: "slots \<noteq> []" using assms(1) by (simp add: cut_inv_def)
  note m = heap_remove_mset [OF ne assms(2)]
  have "mset (tl slots) = mset (n # tl rest)" using m(1) by simp
  then have "set (tl slots) = set (n # tl rest)" "distinct (tl slots) = distinct (n # tl rest)"
    by (metis set_mset_mset, metis mset_eq_imp_distinct_iff)
  with assms(1) m(2) show "cut_inv boxes rest t" "n \<in> set (tips t)" "n \<notin> set (tl rest)"
    by (auto simp: cut_inv_def)
qed

lemma next_box_inv:
  "cut_inv boxes slots t \<Longrightarrow> next_box boxes slots = (Some n, rest) \<Longrightarrow>
     cut_inv boxes rest t \<and> n \<in> set (tips t) \<and> n \<notin> set (tl rest) \<and> volume (boxes ! n) \<noteq> 1"
proof (induction boxes slots rule: next_box.induct)
  case (1 boxes slots)
  obtain o1 rest1 where h: "heap_remove boxes slots = (o1, rest1)" by fastforce
  show ?case
  proof (cases o1)
    case None
    with 1 h show ?thesis by (simp add: next_box.simps)
  next
    case (Some m)
    note pop = cut_inv_pop [OF "1.prems"(1) h [unfolded Some]]
    show ?thesis
    proof (cases "volume (boxes ! m) = 1")
      case True
      with "1.prems"(2) h Some have "next_box boxes rest1 = (Some n, rest)"
        by (simp add: next_box.simps [of boxes slots])
      with "1.IH" [OF h [symmetric, unfolded Some] refl True pop(1)] show ?thesis by (simp add: Some)
    next
      case False
      with "1.prems"(2) h Some have "n = m" "rest = rest1"
        by (simp_all add: next_box.simps [of boxes slots])
      with pop False show ?thesis by simp
    qed
  qed
qed

lemma median_cut_inv:
  "cut_inv boxes slots t \<Longrightarrow>
     \<exists>boxes' t'. median_cut k boxes slots = Some boxes' \<and> rep boxes' t' \<and> root_of t' = root_of t \<and>
       distinct (tips t') \<and> length (tips t') \<le> length (tips t) + k \<and>
       tip_entries boxes' t' = tip_entries boxes t \<and> list_all (\<lambda>b. bn_entries b \<noteq> []) boxes'"
proof (induction k arbitrary: boxes slots t)
  case 0
  then show ?case by (auto simp: cut_inv_def)
next
  case (Suc k)
  obtain o1 rest where nb: "next_box boxes slots = (o1, rest)" by fastforce
  show ?case
  proof (cases o1)
    case None
    with Suc.prems nb show ?thesis by (auto simp: cut_inv_def intro!: exI [of _ t])
  next
    case (Some n)
    from next_box_inv [OF Suc.prems nb [unfolded Some]]
    have inv: "cut_inv boxes rest t" and n: "n \<in> set (tips t)" "n \<notin> set (tl rest)" "volume (boxes ! n) \<noteq> 1"
      by auto
    have rep: "rep boxes t" using inv by (simp add: cut_inv_def)
    have nlt: "n < length boxes" "bn_children (boxes ! n) = None" using rep_tips [OF rep n(1)] by auto
    have "bn_entries (boxes ! n) \<noteq> []" using inv nlt by (auto simp: cut_inv_def list_all_length)
    then obtain l r where s: "split (boxes ! n) = Some (leaf l, leaf r)" "l \<noteq> []" "r \<noteq> []"
      "mset l + mset r = mset (bn_entries (boxes ! n))"
      using split_cut [OF _ n(3)] by metis
    define boxes' where "boxes' = split_boxes n (leaf l) (leaf r) boxes"
    define t' where "t' = graft n (length boxes) (length boxes + 1) t"
    define slots' where "slots' = heap_add boxes' (length boxes + 1) (heap_add boxes' (length boxes) rest)"
    have tips_lt: "set (tips t) \<subseteq> {..<length boxes}" using rep_tips [OF rep] by auto
    have fresh: "length boxes \<notin> set (tips t)" "length boxes + 1 \<notin> set (tips t)" using tips_lt by auto
    have rne: "rest \<noteq> []" using inv by (simp add: cut_inv_def)
    have ms: "mset (tl slots') = add_mset (length boxes + 1) (add_mset (length boxes) (mset (tl rest)))" "slots' \<noteq> []"
      unfolding slots'_def using heap_add_mset [OF rne] heap_add_mset [OF heap_add_mset(2) [OF rne]] by simp_all
    have st: "set (tl slots') = insert (length boxes + 1) (insert (length boxes) (set (tl rest)))"
      "distinct (tl slots') = distinct ((length boxes + 1) # length boxes # tl rest)"
      using ms(1) by (metis set_mset_mset set_mset_add_mset_insert, metis mset.simps(2) mset_eq_imp_distinct_iff)
    have rt: "set (tl rest) \<subseteq> {..<length boxes}" using inv tips_lt by (auto simp: cut_inv_def)
    have dg: "distinct (tips t')" "length (tips t') = Suc (length (tips t))"
      using distinct_graft [of t n "length boxes" "length boxes + 1"] inv n(1) fresh nlt(1)
      by (simp_all add: t'_def cut_inv_def)
    have set_t': "set (tips t') = set (tips t) - {n} \<union> {length boxes, length boxes + 1}"
      using set_tips_graft [OF n(1), of "length boxes" "length boxes + 1"] nlt(1) by (simp add: t'_def)
    have "cut_inv boxes' slots' t'"
      unfolding cut_inv_def
    proof (intro conjI)
      show "rep boxes' t'"
        unfolding boxes'_def t'_def by (rule rep_graft [OF nlt _ _ rep]) (simp_all add: leaf_def)
      show "distinct (tips t')" "slots' \<noteq> []" by (rule dg, rule ms)
      show "distinct (tl slots')" using inv rt unfolding st by (auto simp: cut_inv_def)
      show "set (tl slots') \<subseteq> set (tips t')"
        using inv n(2) rt unfolding st set_t' by (auto simp: cut_inv_def)
      show "list_all (\<lambda>b. bn_entries b \<noteq> []) boxes'"
        using inv s(2,3) nlt(1)
        by (auto simp: boxes'_def split_boxes_def cut_inv_def list_all_length nth_list_update nth_append leaf_def less_Suc_eq)
    qed
    from Suc.IH [OF this] obtain b2 t2 where
      "median_cut k boxes' slots' = Some b2" "rep b2 t2" "root_of t2 = root_of t'" "distinct (tips t2)"
      "length (tips t2) \<le> length (tips t') + k" "tip_entries b2 t2 = tip_entries boxes' t'"
      "list_all (\<lambda>b. bn_entries b \<noteq> []) b2" by blast
    moreover have "median_cut (Suc k) boxes slots = median_cut k boxes' slots'"
      by (simp add: nb Some s(1) Let_def boxes'_def slots'_def split_boxes_def)
    moreover have "tip_entries boxes' t' = tip_entries boxes t"
      unfolding boxes'_def t'_def by (rule tip_entries_graft [OF nlt(1) _ rep]) (simp add: leaf_def s(4))
    ultimately show ?thesis using dg(2) by (intro exI [of _ b2] exI [of _ t2]) (simp add: t'_def)
  qed
qed

subsection \<open>Depth-first numbering\<close>

definition number_tip ::
  "box_node list \<Rightarrow> nat \<Rightarrow> (32 word \<times> nat) list \<times> nat \<Rightarrow> (32 word \<times> nat) list \<times> nat" where
  "number_tip boxes n st =
     (case st of (box_of, k) \<Rightarrow>
        (fold (\<lambda>e. AList.update (pixel_hash (en_color e)) k) (bn_entries (boxes ! n)) box_of,
         if bn_entries (boxes ! n) = [] then k else k + 1))"

lemma number_leaves_tree:
  "rep boxes t \<Longrightarrow>
     number_leaves boxes (root_of t # rest) box_of k =
       (case fold (number_tip boxes) (tips t) (box_of, k) of (b, m) \<Rightarrow> number_leaves boxes rest b m)"
proof (induction t arbitrary: rest box_of k)
  case (Tip n)
  then show ?case by (subst number_leaves.simps) (simp add: number_tip_def)
next
  case (Cut n l r)
  then have "number_leaves boxes (root_of (Cut n l r) # rest) box_of k =
      number_leaves boxes (root_of l # root_of r # rest) box_of k"
    by (subst number_leaves.simps) simp
  also have "\<dots> = (case fold (number_tip boxes) (tips l) (box_of, k) of
      (b, m) \<Rightarrow> number_leaves boxes (root_of r # rest) b m)"
    by (rule Cut.IH(1)) (use Cut.prems in simp)
  also have "\<dots> = (case fold (number_tip boxes) (tips r) (fold (number_tip boxes) (tips l) (box_of, k)) of
      (b, m) \<Rightarrow> number_leaves boxes rest b m)"
  proof (cases "fold (number_tip boxes) (tips l) (box_of, k)")
    case (Pair b m)
    show ?thesis unfolding Pair using Cut by simp
  qed
  finally show ?case by simp
qed

lemma fold_update_hash:
  "map_of (fold (\<lambda>e. AList.update (f e) k) es box_of) h =
     (if h \<in> f ` set es then Some k else map_of box_of h)"
  by (induction es arbitrary: box_of) auto

text \<open>Every colour of the numbered tips gets a number below the final one.\<close>

lemma number_tips_spec:
  "list_all (\<lambda>n. bn_entries (boxes ! n) \<noteq> []) ts \<Longrightarrow> fold (number_tip boxes) ts (box_of, k) = (b, m) \<Longrightarrow>
     m = k + length ts \<and>
     (\<forall>n e. n \<in> set ts \<longrightarrow> e \<in> set (bn_entries (boxes ! n)) \<longrightarrow>
        (\<exists>i. map_of b (pixel_hash (en_color e)) = Some i \<and> i < m)) \<and>
     (\<forall>h i. map_of box_of h = Some i \<longrightarrow> i < k \<longrightarrow> (\<exists>i'. map_of b h = Some i' \<and> i' < m))"
proof (induction ts arbitrary: box_of k)
  case Nil
  then show ?case by auto
next
  case (Cons t ts)
  define b1 where "b1 = fold (\<lambda>e. AList.update (pixel_hash (en_color e)) k) (bn_entries (boxes ! t)) box_of"
  have step: "number_tip boxes t (box_of, k) = (b1, k + 1)"
    using Cons.prems(1) by (simp add: number_tip_def b1_def)
  have b1: "map_of b1 h = (if h \<in> (\<lambda>e. pixel_hash (en_color e)) ` set (bn_entries (boxes ! t))
      then Some k else map_of box_of h)" for h
    unfolding b1_def by (rule fold_update_hash)
  have rest: "fold (number_tip boxes) ts (b1, k + 1) = (b, m)" using Cons.prems(2) step by simp
  have "list_all (\<lambda>n. bn_entries (boxes ! n) \<noteq> []) ts" using Cons.prems(1) by simp
  note IH = Cons.IH [OF this rest]
  have kept: "\<exists>i'. map_of b h = Some i' \<and> i' < m" if "map_of b1 h = Some i" "i < k + 1" for h i
    using IH that by blast
  have new: "\<exists>i. map_of b (pixel_hash (en_color e)) = Some i \<and> i < m" if "e \<in> set (bn_entries (boxes ! t))" for e
    by (rule kept [of _ k]) (use that b1 in auto)
  have old: "\<exists>i'. map_of b h = Some i' \<and> i' < m" if "map_of box_of h = Some i" "i < k" for h i
  proof (cases "map_of b1 h = Some i")
    case False
    then have "map_of b1 h = Some k" using b1 [of h] that by (auto split: if_splits)
    then show ?thesis by (rule kept) simp
  qed (use kept that in simp)
  have "m = k + length (t # ts)" using IH by simp
  moreover have "\<exists>i. map_of b (pixel_hash (en_color e)) = Some i \<and> i < m"
    if "n \<in> set (t # ts)" "e \<in> set (bn_entries (boxes ! n))" for n e
    using IH that new by (cases "n = t") auto
  ultimately show ?case using old by blast
qed

subsection \<open>The colour table\<close>

definition table_inv :: "rgb list \<Rightarrow> 32 word list \<times> (32 word \<times> entry) list \<Rightarrow> bool" where
  "table_inv ps st \<longleftrightarrow>
     distinct (fst st) \<and> map fst (snd st) = fst st \<and> set (fst st) = pixel_hash ` set ps \<and>
     (\<forall>h e. map_of (snd st) h = Some e \<longrightarrow>
        pixel_hash (en_color e) = h \<and> en_count e = length (filter (\<lambda>p. pixel_hash p = h) ps))"

lemma count_pixel_inv: "table_inv ps st \<Longrightarrow> table_inv (ps @ [p]) (count_pixel p st)"
proof -
  assume inv: "table_inv ps st"
  obtain order table where st: "st = (order, table)" by (cases st)
  have dom: "map_of table h \<noteq> None \<longleftrightarrow> h \<in> pixel_hash ` set ps" for h
    using inv by (simp add: table_inv_def st map_of_eq_None_iff) (metis image_set)
  show "table_inv (ps @ [p]) (count_pixel p st)"
  proof (cases "map_of table (pixel_hash p)")
    case None
    then have new: "pixel_hash p \<notin> pixel_hash ` set ps" using dom [of "pixel_hash p"] by simp
    then have f: "filter (\<lambda>q. pixel_hash q = pixel_hash p) ps = []" "pixel_hash p \<notin> set order"
      using inv by (metis (mono_tags, lifting) filter_False imageI, simp add: table_inv_def st)
    have "AList.update (pixel_hash p) e table = table @ [(pixel_hash p, e)]" for e
      using None by (induction table) (auto split: if_splits)
    with None f inv show ?thesis
      by (auto simp: table_inv_def st count_pixel_def Let_def)
  next
    case (Some e)
    have "map fst (AList.update (pixel_hash p) e' table) = map fst table" for e'
      using Some by (induction table) auto
    with Some inv dom [of "pixel_hash p"] show ?thesis
      by (auto simp: table_inv_def st count_pixel_def Let_def)
  qed
qed

lemma table_inv_color_table: "table_inv pixels (color_table pixels)"
proof -
  have "table_inv ps st \<Longrightarrow> table_inv (ps @ qs) (fold count_pixel qs st)" for ps qs st
  proof (induction qs arbitrary: ps st)
    case (Cons q qs)
    from Cons.IH [OF count_pixel_inv [OF Cons.prems, of q]] show ?case by simp
  qed simp
  from this [of "[]" "([], [])" pixels] show ?thesis by (simp add: color_table_def table_inv_def)
qed

lemma root_box_colors:
  "pixel_hash ` en_color ` set (bn_entries (root_box pixels)) = pixel_hash ` set pixels"
  "pixels \<noteq> [] \<Longrightarrow> bn_entries (root_box pixels) \<noteq> []"
proof -
  obtain order table where ct: "color_table pixels = (order, table)" by fastforce
  have inv: "table_inv pixels (order, table)" using table_inv_color_table [of pixels] ct by simp
  have "pixel_hash (en_color (the (map_of table h))) = h" if h: "h \<in> set order" for h
  proof -
    from h inv obtain e where "map_of table h = Some e"
      by (metis (no_types, lifting) fst_conv image_set map_of_eq_None_iff not_None_eq snd_conv table_inv_def)
    with inv show ?thesis by (simp add: table_inv_def)
  qed
  then have "pixel_hash ` en_color ` set (bn_entries (root_box pixels)) = set order"
    by (force simp: root_box_def ct image_image)
  then show "pixel_hash ` en_color ` set (bn_entries (root_box pixels)) = pixel_hash ` set pixels"
    using inv by (simp add: table_inv_def)
  assume "pixels \<noteq> []"
  then have "set order \<noteq> {}" using inv by (simp add: table_inv_def)
  then show "bn_entries (root_box pixels) \<noteq> []" by (simp add: root_box_def ct)
qed

subsection \<open>The whole quantizer\<close>

lemma tip_entries_mem:
  "e \<in># tip_entries boxes t \<longleftrightarrow> (\<exists>n \<in> set (tips t). e \<in> set (bn_entries (boxes ! n)))"
proof -
  have "e \<in># (\<Sum>n \<leftarrow> ns. mset (bn_entries (boxes ! n))) \<longleftrightarrow> (\<exists>n \<in> set ns. e \<in> set (bn_entries (boxes ! n)))" for ns
    by (induction ns) auto
  then show ?thesis by (simp add: tip_entries_def)
qed

lemma box_numbering:
  assumes "pixels \<noteq> []" and "1 \<le> colors"
  shows "\<exists>boxes box_of n.
    median_cut (colors - 1) [root_box pixels] (heap_add [root_box pixels] 0 [0]) = Some boxes \<and>
    number_leaves boxes [0] [] 0 = Some (box_of, n) \<and> 0 < n \<and> n \<le> colors \<and>
    (\<forall>p \<in> set pixels. \<exists>b. map_of box_of (pixel_hash p) = Some b \<and> b < n)"
proof -
  let ?b0 = "[root_box pixels]"
  have "heap_add ?b0 0 [0] = [0, 0]" by (simp add: heap_add_def Let_def sift_up.simps)
  then have "cut_inv ?b0 (heap_add ?b0 0 [0]) (Tip 0)"
    using root_box_colors(2) [OF assms(1)] by (simp add: cut_inv_def root_box_def case_prod_unfold)
  from median_cut_inv [OF this, of "colors - 1"] obtain boxes t where
    cut: "median_cut (colors - 1) ?b0 (heap_add ?b0 0 [0]) = Some boxes"
    and rep: "rep boxes t" "root_of t = 0" and len: "length (tips t) \<le> colors"
    and ent: "tip_entries boxes t = tip_entries ?b0 (Tip 0)" and ne: "list_all (\<lambda>b. bn_entries b \<noteq> []) boxes"
    using assms(2) by auto
  obtain box_of n where f: "fold (number_tip boxes) (tips t) ([], 0) = (box_of, n)" by fastforce
  have num: "number_leaves boxes [0] [] 0 = Some (box_of, n)"
    using number_leaves_tree [OF rep(1), of "[]" "[]" 0] f rep(2) by (simp add: number_leaves.simps)
  have "list_all (\<lambda>n. bn_entries (boxes ! n) \<noteq> []) (tips t)"
    using ne rep_tips [OF rep(1)] by (auto simp: list_all_iff)
  note spec = number_tips_spec [OF this f]
  have "tips t \<noteq> []" by (induction t) auto
  then have n: "0 < n" "n \<le> colors" using spec len by auto
  have "\<exists>b. map_of box_of (pixel_hash p) = Some b \<and> b < n" if "p \<in> set pixels" for p
  proof -
    have "pixel_hash p \<in> pixel_hash ` en_color ` set (bn_entries (root_box pixels))"
      using that by (simp add: root_box_colors(1))
    then obtain e where e: "e \<in> set (bn_entries (root_box pixels))" "pixel_hash (en_color e) = pixel_hash p" by auto
    then have "e \<in># tip_entries boxes t" unfolding ent by (simp add: tip_entries_mem)
    then obtain m where "m \<in> set (tips t)" "e \<in> set (bn_entries (boxes ! m))" by (auto simp: tip_entries_mem)
    then show ?thesis using spec e(2) by metis
  qed
  then show ?thesis using cut num n by blast
qed

lemma map_pixels_Some:
  defines "own \<equiv> \<lambda>box_of p. map_of box_of (pixel_hash p)"
  assumes "list_all (\<lambda>p. case own box_of p of None \<Rightarrow> False | Some b \<Rightarrow> b < n) pixels"
  shows "map_pixels pixels box_of n =
    Some \<lparr>qz_palette = map (palette_entry (own box_of) pixels) [0..<n],
      qz_indices = map (\<lambda>p. nearest_index (map (palette_entry (own box_of) pixels) [0..<n]) (the (own box_of p)) p mod 2 ^ 8) pixels\<rparr>"
  using assms unfolding map_pixels_def Let_def by presburger

lemma quantize_steps:
  assumes "pixels \<noteq> []" "1 \<le> colors" "colors \<le> 256" "length (snd (color_table pixels)) \<le> MAX_HASH_ENTRIES"
    and "median_cut (colors - 1) [root_box pixels] (heap_add [root_box pixels] 0 [0]) = Some boxes"
    and "number_leaves boxes [0] [] 0 = Some (box_of, n)"
  shows "quantize pixels colors = map_pixels pixels box_of n"
proof -
  have "\<not> (colors < 1 \<or> 256 < colors)" "\<not> MAX_HASH_ENTRIES < length (snd (color_table pixels))"
    using assms by auto
  then show ?thesis
    unfolding quantize_def Let_def by (simp only: assms if_False if_True bind.simps prod.case)
qed

lemma quantize_spec:
  assumes "pixels \<noteq> []" and "1 \<le> colors" "colors \<le> 256"
    and "card (pixel_hash ` set pixels) \<le> MAX_HASH_ENTRIES"
  shows "\<exists>palette indices.
    quantize pixels colors = Some \<lparr>qz_palette = palette, qz_indices = indices\<rparr> \<and>
    0 < length palette \<and> length palette \<le> colors \<and> length indices = length pixels \<and>
    (\<forall>i < length pixels. indices ! i < length palette \<and>
       dist_sq (palette ! (indices ! i)) (pixels ! i) = Min ((\<lambda>c. dist_sq c (pixels ! i)) ` set palette))"
proof -
  obtain boxes box_of n where cut: "median_cut (colors - 1) [root_box pixels] (heap_add [root_box pixels] 0 [0]) = Some boxes"
    and num: "number_leaves boxes [0] [] 0 = Some (box_of, n)" and n: "0 < n" "n \<le> colors"
    and own: "\<forall>p \<in> set pixels. \<exists>b. map_of box_of (pixel_hash p) = Some b \<and> b < n"
    using box_numbering [OF assms(1,2)] by blast
  define own_of where "own_of = (\<lambda>p. map_of box_of (pixel_hash p))"
  define palette where "palette = map (palette_entry own_of pixels) [0..<n]"
  define indices where "indices = map (\<lambda>p. nearest_index palette (the (own_of p)) p mod 2 ^ 8) pixels"
  have "length (snd (color_table pixels)) = card (pixel_hash ` set pixels)"
  proof -
    have inv: "distinct (fst (color_table pixels))" "map fst (snd (color_table pixels)) = fst (color_table pixels)"
      "set (fst (color_table pixels)) = pixel_hash ` set pixels"
      using table_inv_color_table [of pixels] by (simp_all add: table_inv_def)
    have "length (snd (color_table pixels)) = length (fst (color_table pixels))"
      unfolding inv(2) [symmetric] by simp
    then show ?thesis using distinct_card [OF inv(1)] inv(3) by simp
  qed
  then have le: "length (snd (color_table pixels)) \<le> MAX_HASH_ENTRIES" using assms(4) by (rule ord_eq_le_trans)
  have all: "list_all (\<lambda>p. case own_of p of None \<Rightarrow> False | Some b \<Rightarrow> b < n) pixels"
    using own by (auto simp: list_all_iff own_of_def dest!: bspec)
  have q: "quantize pixels colors = Some \<lparr>qz_palette = palette, qz_indices = indices\<rparr>"
    unfolding quantize_steps [OF assms(1-3) le cut num] palette_def indices_def own_of_def
    by (rule map_pixels_Some [OF all [unfolded own_of_def]])
  have pix: "indices ! i < length palette \<and>
       dist_sq (palette ! (indices ! i)) (pixels ! i) = Min ((\<lambda>c. dist_sq c (pixels ! i)) ` set palette)"
    if i: "i < length pixels" for i
  proof -
    obtain b where b: "own_of (pixels ! i) = Some b" "b < length palette"
      using own [rule_format, OF nth_mem [OF i]] by (auto simp: own_of_def palette_def)
    note exact = nearest_index_least [OF b(2), of "pixels ! i"]
    have "nearest_index palette b (pixels ! i) < 2 ^ 8" using exact n(2) assms(3) by (simp add: palette_def)
    then have "indices ! i = nearest_index palette b (pixels ! i)" using i b(1) by (simp add: indices_def)
    then show ?thesis using exact nearest_min [OF b(2), of "pixels ! i"] by simp
  qed
  show ?thesis
  proof (intro exI [of _ palette] exI [of _ indices] conjI q allI impI)
    show "0 < length palette" "length palette \<le> colors" "length indices = length pixels"
      using n by (simp_all add: palette_def indices_def)
  qed (use pix in blast)+
qed

text \<open>C8. Quantizer, totality and function: for any sample with at most \<open>MAX_HASH_ENTRIES\<close> distinct
  colours and any allowed number of colours, \<open>quantize\<close> returns (no lookup, index or split can panic and the
  numbering terminates), with at least one and at most the requested number of palette entries, and every
  pixel mapped to an existing entry no other entry is nearer than.\<close>

theorem quantize_total:
  assumes "pixels \<noteq> []" and "1 \<le> colors" "colors \<le> 256"
    and "card (pixel_hash ` set pixels) \<le> MAX_HASH_ENTRIES"
  shows "\<exists>palette indices.
    quantize pixels colors = Some \<lparr>qz_palette = palette, qz_indices = indices\<rparr> \<and>
    0 < length palette \<and> length palette \<le> colors \<and> length indices = length pixels \<and>
    (\<forall>i < length pixels. indices ! i < length palette \<and>
       dist_sq (palette ! (indices ! i)) (pixels ! i) = Min ((\<lambda>c. dist_sq c (pixels ! i)) ` set palette))"
  using assms by (rule quantize_spec)

theorem quantize_total_witness:
  "\<exists>q. quantize [(0, 0, 0), (255, 255, 255), (0, 0, 1)] 2 = Some q \<and> length (qz_palette q) \<le> 2 \<and> length (qz_indices q) = 3"
proof -
  have "card (pixel_hash ` set ps) \<le> length ps" for ps
    by (rule order.trans [OF card_image_le card_length]) simp
  from this [of "[(0, 0, 0), (255, 255, 255), (0, 0, 1)]"]
  have "card (pixel_hash ` set [(0, 0, 0), (255, 255, 255), (0, 0, 1)]) \<le> MAX_HASH_ENTRIES"
    unfolding MAX_HASH_ENTRIES_def by (rule order.trans) simp
  from quantize_total [OF _ _ _ this, of 2] show ?thesis by auto
qed

lemma sum_counts: "set xs \<subseteq> {..<n} \<Longrightarrow> (\<Sum>i \<leftarrow> [0..<n]. count_list xs i) = length xs"
proof (induction xs)
  case (Cons x xs)
  have "(\<Sum>i \<leftarrow> [0..<n]. count_list (x # xs) i) = (\<Sum>i \<leftarrow> [0..<n]. if x = i then 1 else 0) + (\<Sum>i \<leftarrow> [0..<n]. count_list xs i)"
    by (simp add: sum_list_addf [symmetric], intro arg_cong [where f = sum_list] map_cong) simp_all
  moreover have "(\<Sum>i \<leftarrow> [0..<n]. if x = i then 1 else 0) = (1::nat)"
    using Cons.prems by (simp add: sum_list_distinct_conv_sum_set)
  ultimately show ?case using Cons by simp
qed simp

lemma quantized_colors_spec:
  assumes "set (qz_indices q) \<subseteq> {..<length (qz_palette q)}"
  shows "sum_list (map fst (quantized_colors q)) = length (qz_indices q)"
    "map snd (quantized_colors q) = filter (\<lambda>i. i \<in> set (qz_indices q)) [0..<length (qz_palette q)]"
proof -
  have "sum_list (map (count_list xs) (filter (\<lambda>i. count_list xs i > 0) is)) = sum_list (map (count_list xs) is)" for xs :: "nat list" and "is"
    by (induction "is") auto
  then show "sum_list (map fst (quantized_colors q)) = length (qz_indices q)"
    using sum_counts [OF assms] by (simp add: quantized_colors_def comp_def)
  show "map snd (quantized_colors q) = filter (\<lambda>i. i \<in> set (qz_indices q)) [0..<length (qz_palette q)]"
    by (simp add: quantized_colors_def comp_def count_list_0_iff cong: filter_cong) (metis (no_types) count_list_0_iff gr0I not_gr0)
qed

end
