(* ===== verification/Color.thy ===== *)
theory Color
  imports Decode_Props Tone_Props Quantize_Tree
begin

text \<open>
  The colour pipeline (\<open>src/color/mod.rs\<close>): the histogram of the sample, the mode-free selection of the picks,
  the mode-dependent rendering, and the one-slot memo between them. A panic anywhere below is \<open>None\<close>; the label
  of a cover only names it in the log and is left out.
\<close>

definition DEFAULT_ACCENT :: string where "DEFAULT_ACCENT = ''#a48ec7''"
definition QUANTIZE_COLORS :: nat where "QUANTIZE_COLORS = 16"

type_synonym picks = "lch list \<times> nat"

definition hist_entry_of :: "quantized \<Rightarrow> nat \<times> nat \<Rightarrow> hist_entry" where
  "hist_entry_of q ci =
     (case ci of (cnt, i) \<Rightarrow> case qz_palette q ! i of (r, g, b) \<Rightarrow>
        (cnt, rgb_to_hsv (real (unat r) / 255) (real (unat g) / 255) (real (unat b) / 255)))"

definition histogram_of_sample :: "rgb list \<Rightarrow> hist_entry list option" where
  "histogram_of_sample pixels =
     map_option (\<lambda>q. map (hist_entry_of q) (quantized_colors q)) (quantize pixels QUANTIZE_COLORS)"

definition histogram :: "image_crate \<Rightarrow> cover_file \<Rightarrow> hist_entry list option" where
  "histogram crate f =
     (case sample_file crate f MAX_DECODE_BYTES of
        None \<Rightarrow> None
      | Some (Inl e) \<Rightarrow> Some []
      | Some (Inr sample) \<Rightarrow> histogram_of_sample (rb_pixels sample))"

definition select_palette :: "image_crate \<Rightarrow> cover_file \<Rightarrow> picks option" where
  "select_palette crate f =
     Option.bind (histogram crate f) (\<lambda>hist. if hist = [] then Some ([], 0) else select hist)"

definition render_palette :: "lch list \<Rightarrow> nat \<Rightarrow> mode \<Rightarrow> string list option" where
  "render_palette picks n_distinct m =
     (if picks = [] then Some (replicate 3 DEFAULT_ACCENT)
      else
        Option.bind (tone picks m) (\<lambda>toned.
        Option.bind (separate toned m n_distinct) (\<lambda>(slots, result).
        if length slots < 3 then None else Some (map (\<lambda>i. to_hex (slots ! i)) [0..<3]))))"

definition extract_colors :: "image_crate \<Rightarrow> cover_file \<Rightarrow> mode \<Rightarrow> string list option" where
  "extract_colors crate f m =
     Option.bind (select_palette crate f) (\<lambda>(picks, n_distinct). render_palette picks n_distinct m)"

text \<open>
  The memo over a selection and a renderer, both injected: the key of the slot is a content id. A selection that
  panics leaves the slot as it was. The default wiring is \<open>select_palette\<close> and \<open>render_palette\<close>.
\<close>

type_synonym 'k memo_slot = "('k \<times> picks) option"

type_synonym 'r renderer = "lch list \<Rightarrow> nat \<Rightarrow> mode \<Rightarrow> 'r option"

definition memo_get ::
  "('f \<Rightarrow> picks option) \<Rightarrow> 'r renderer \<Rightarrow> 'f \<Rightarrow> mode \<Rightarrow> 'k \<Rightarrow> 'k memo_slot \<Rightarrow> 'r option \<times> 'k memo_slot" where
  "memo_get sel render f m content_id slot =
     (case (if map_option fst slot \<noteq> Some content_id
            then map_option (\<lambda>value. (content_id, value)) (sel f) else slot) of
        None \<Rightarrow> (None, slot)
      | Some (k, (picks, n)) \<Rightarrow> (render picks n m, Some (k, (picks, n))))"

text \<open>The requests of a run in order, with the selections the memo ran.\<close>

primrec memo_run ::
  "('f \<Rightarrow> picks option) \<Rightarrow> 'r renderer \<Rightarrow> ('f \<times> mode \<times> 'k) list \<Rightarrow> 'k memo_slot \<Rightarrow> 'r option list \<times> nat" where
  "memo_run sel render [] slot = ([], 0)"
| "memo_run sel render (r # rs) slot =
     (case r of (f, m, k) \<Rightarrow>
        case memo_get sel render f m k slot of (res, slot') \<Rightarrow>
        case memo_run sel render rs slot' of (out, n) \<Rightarrow>
          (res # out, (if map_option fst slot \<noteq> Some k then 1 else 0) + n))"

end
