(* ===== verification/Color_Props.thy ===== *)
theory Color_Props
  imports Color
begin

text \<open>
  The pipeline end to end: every cover gives three well-formed colours, the histogram accounts for every pixel,
  and the memo gives what the uncached composition gives.
\<close>

lemma MAX_HASH_enough: "10000 \<le> MAX_HASH_ENTRIES"
  by (simp add: MAX_HASH_ENTRIES_def)

lemma sample_quantizes:
  assumes "pixels \<noteq> []" "length pixels \<le> 10000"
  shows "\<exists>q. quantize pixels QUANTIZE_COLORS = Some q \<and> length (qz_palette q) \<le> QUANTIZE_COLORS
    \<and> length (qz_indices q) = length pixels \<and> set (qz_indices q) \<subseteq> {..<length (qz_palette q)}"
proof -
  have "card (pixel_hash ` set pixels) \<le> length pixels"
    by (rule order.trans[OF card_image_le card_length]) simp
  then have "card (pixel_hash ` set pixels) \<le> MAX_HASH_ENTRIES" using assms MAX_HASH_enough by linarith
  from quantize_spec[OF assms(1) _ _ this, of QUANTIZE_COLORS] obtain palette indices where
    q: "quantize pixels QUANTIZE_COLORS = Some \<lparr>qz_palette = palette, qz_indices = indices\<rparr>"
      "length palette \<le> QUANTIZE_COLORS" "length indices = length pixels"
      "\<forall>i<length pixels. indices ! i < length palette"
    by (auto simp: QUANTIZE_COLORS_def)
  then have "set indices \<subseteq> {..<length palette}" by (auto simp: in_set_conv_nth)
  then show ?thesis using q by simp
qed

lemma histogram_spec:
  assumes "pixels \<noteq> []" "length pixels \<le> 10000"
  shows "\<exists>hist. histogram_of_sample pixels = Some hist \<and> hist \<noteq> [] \<and> length hist \<le> QUANTIZE_COLORS
    \<and> sum_list (map fst hist) = length pixels"
proof -
  obtain q where q: "quantize pixels QUANTIZE_COLORS = Some q" "length (qz_palette q) \<le> QUANTIZE_COLORS"
    "length (qz_indices q) = length pixels" "set (qz_indices q) \<subseteq> {..<length (qz_palette q)}"
    using sample_quantizes[OF assms] by blast
  let ?cs = "quantized_colors q"
  have "map fst (map (hist_entry_of q) ?cs) = map fst ?cs"
    by (auto simp: hist_entry_of_def split: prod.splits)
  then have sum: "sum_list (map fst (map (hist_entry_of q) ?cs)) = length pixels"
    using quantized_colors_spec(1)[OF q(4)] q(3) by (simp only:)
  have len: "length ?cs \<le> QUANTIZE_COLORS"
    unfolding quantized_colors_def using q(2) by (simp, metis length_filter_le length_upt minus_nat.diff_0 order_trans)
  have "map (hist_entry_of q) ?cs \<noteq> []" using sum assms(1) by auto
  then show ?thesis using q(1) sum len by (simp add: histogram_of_sample_def)
qed

text \<open>The histogram accounts for every pixel of the sample: for up to 10000 pixels, at least one, it exists, has
  between 1 and 16 entries, and their counts add up to the number of pixels.
\<close>

theorem histogram_counts:
  assumes "pixels \<noteq> []" "length pixels \<le> 10000"
  shows "\<exists>hist. histogram_of_sample pixels = Some hist \<and> hist \<noteq> [] \<and> length hist \<le> QUANTIZE_COLORS
    \<and> sum_list (map fst hist) = length pixels"
  using assms by (rule histogram_spec)

theorem histogram_counts_witness:
  "\<exists>hist. histogram_of_sample [(0, 0, 0), (255, 0, 0)] = Some hist \<and> length hist \<le> 16 \<and> sum_list (map fst hist) = 2"
  using histogram_counts[of "[(0, 0, 0), (255, 0, 0)]"] by (auto simp: QUANTIZE_COLORS_def)

definition picks_ok :: "picks \<Rightarrow> bool" where
  "picks_ok p \<longleftrightarrow> fst p = [] \<or> (length (fst p) = 3 \<and> 1 \<le> snd p \<and> snd p \<le> 3)"

lemma select_palette_total:
  assumes "crate_ok crate"
  shows "\<exists>p. select_palette crate f = Some p \<and> picks_ok p"
proof -
  have "\<exists>r. sample_file crate f MAX_DECODE_BYTES = Some r \<and> (\<forall>img. r = Inr img \<longrightarrow>
      raster_ok img \<and> rb_width img = 100 \<and> rb_height img = 100)"
    using sample_spec[OF assms] by (auto simp: sample_file_def Let_def split: sum.split)
  then obtain r where r: "sample_file crate f MAX_DECODE_BYTES = Some r"
    "\<forall>img. r = Inr img \<longrightarrow> raster_ok img \<and> rb_width img = 100 \<and> rb_height img = 100" by blast
  show ?thesis
  proof (cases r)
    case (Inl e)
    then show ?thesis using r by (simp add: select_palette_def histogram_def picks_ok_def)
  next
    case (Inr img)
    then have "length (rb_pixels img) = 10000" using r(2) by (simp add: raster_ok_def)
    moreover from this have "rb_pixels img \<noteq> []" by (cases "rb_pixels img") simp_all
    ultimately obtain hist where h: "histogram_of_sample (rb_pixels img) = Some hist" "hist \<noteq> []"
      using histogram_spec[of "rb_pixels img"] by auto
    obtain ps n where "Pick.select hist = Some (ps, n)" "length ps = 3" "1 \<le> n" "n \<le> 3"
      using select_spec[OF h(2)] by blast
    then show ?thesis using r(1) Inr h by (simp add: select_palette_def histogram_def picks_ok_def)
  qed
qed

lemma separate_total:
  assumes "n \<le> length slots"
  shows "\<exists>out r. separate slots m n = Some (out, r) \<and> length out = length slots"
proof (cases "2 \<le> n")
  case True
  from separate_run[OF assms this, of m] obtain st r where
    inv: "sep_inv m (take n slots) (rank_order (take n slots)) st"
    and s: "separate slots m n = Some (work st @ replicate (length slots - n) (work st ! (n - 1)), r)"
    by (auto simp: Let_def)
  then show ?thesis using assms by (simp add: sep_inv_def)
next
  case False
  then show ?thesis using assms by (simp add: separate_def)
qed

lemma render_palette_total:
  assumes "picks_ok (ps, n)"
  shows "\<exists>cs. render_palette ps n m = Some cs \<and> length cs = 3 \<and> list_all valid_hex cs"
proof (cases "ps = []")
  case True
  have "valid_hex DEFAULT_ACCENT" unfolding DEFAULT_ACCENT_def by code_simp
  then show ?thesis using True by (simp add: render_palette_def numeral_3_eq_3)
next
  case False
  then have p: "length ps = 3" "n \<le> 3" using assms by (auto simp: picks_ok_def)
  obtain ts where t: "tone ps m = Some ts" "length ts = 3" using tone_spec[OF False, of m] p by auto
  obtain out r where s: "separate ts m n = Some (out, r)" "length out = 3"
    using separate_total[of n ts m] t(2) p(2) by auto
  then show ?thesis using False t
    by (simp add: render_palette_def list_all_iff to_hex_def lch_to_hex_valid)
qed

text \<open>C7. Extraction is total and its colours are well formed: with a decoder whose buffers are as long as their sides
  say, any file, readable or not and whatever its content, gives in either mode exactly three colours of the form
  the wallpaper control accepts.
\<close>

theorem extract_total:
  assumes "crate_ok crate"
  shows "\<exists>cs. extract_colors crate f m = Some cs \<and> length cs = 3 \<and> list_all valid_hex cs"
proof -
  obtain ps n where "select_palette crate f = Some (ps, n)" "picks_ok (ps, n)"
    using select_palette_total[OF assms, of f] by (metis surj_pair)
  then show ?thesis using render_palette_total by (simp add: extract_colors_def)
qed

theorem extract_total_witness:
  "\<exists>cs. extract_colors one_pixel_crate \<lparr>cf_open = Inr (), cf_len = Inr 1, cf_data = Inr ''x''\<rparr> Dark = Some cs
    \<and> length cs = 3 \<and> list_all valid_hex cs"
  by (rule extract_total) (simp add: crate_ok_def one_pixel_crate_def)

subsection \<open>The memo\<close>

definition uncached :: "('f \<Rightarrow> picks option) \<Rightarrow> 'r renderer \<Rightarrow> 'f \<times> mode \<times> 'k \<Rightarrow> 'r option" where
  "uncached sel render r = (case r of (f, m, k) \<Rightarrow> Option.bind (sel f) (\<lambda>(ps, n). render ps n m))"

lemma memo_get_hit: "memo_get sel render f m k (Some (k, (ps, n))) = (render ps n m, Some (k, (ps, n)))"
  by (simp add: memo_get_def)

lemma memo_get_miss:
  "map_option fst slot \<noteq> Some k \<Longrightarrow> sel f = Some (ps, n) \<Longrightarrow>
     memo_get sel render f m k slot = (render ps n m, Some (k, (ps, n)))"
  by (simp add: memo_get_def)

text \<open>The slot holds what the selection gives for every later request with its key.\<close>

definition keyed_by :: "('f \<Rightarrow> picks option) \<Rightarrow> ('f \<times> mode \<times> 'k) list \<Rightarrow> 'k \<Rightarrow> picks \<Rightarrow> bool" where
  "keyed_by sel rs k p \<longleftrightarrow> (\<forall>f m. (f, m, k) \<in> set rs \<longrightarrow> sel f = Some p)"

definition consistent :: "('f \<Rightarrow> picks option) \<Rightarrow> ('f \<times> mode \<times> 'k) list \<Rightarrow> bool" where
  "consistent sel rs \<longleftrightarrow> (\<forall>f m k. (f, m, k) \<in> set rs \<longrightarrow> (\<exists>p. sel f = Some p \<and> keyed_by sel rs k p))"

lemma keyed_by_tl: "keyed_by sel (r # rs) k p \<Longrightarrow> keyed_by sel rs k p"
  by (simp add: keyed_by_def)

lemma consistent_tl: "consistent sel (r # rs) \<Longrightarrow> consistent sel rs"
  unfolding consistent_def by (meson keyed_by_tl list.set_intros(2))

lemma consistent_hd: "consistent sel ((f, m, k) # rs) \<Longrightarrow> \<exists>p. sel f = Some p \<and> keyed_by sel rs k p"
  unfolding consistent_def by (meson keyed_by_tl list.set_intros(1))

lemma remdups_adj_Suc: "length (remdups_adj (k # ks)) = Suc (length (remdups_adj (k # ks)) - 1)"
  by (cases ks) auto

lemma memo_run_slot:
  assumes "consistent sel rs" "keyed_by sel rs k0 p0"
  shows "memo_run sel render rs (Some (k0, p0)) =
    (map (uncached sel render) rs, length (remdups_adj (k0 # map (snd \<circ> snd) rs)) - 1)"
  using assms
proof (induction rs arbitrary: k0 p0)
  case (Cons r rs)
  obtain f m k where r: "r = (f, m, k)" by (cases r) auto
  obtain ps0 n0 where p0: "p0 = (ps0, n0)" by (cases p0)
  note later = consistent_tl[OF Cons.prems(1)]
  show ?case
  proof (cases "k = k0")
    case True
    then have "sel f = Some p0" using Cons.prems(2) by (simp add: r keyed_by_def)
    then show ?thesis
      using Cons.IH[OF later keyed_by_tl[OF Cons.prems(2)]] True by (simp add: r p0 memo_get_hit uncached_def)
  next
    case False
    obtain p where p: "sel f = Some p" "keyed_by sel rs k p"
      using consistent_hd[of sel f m k rs] Cons.prems(1) by (auto simp: r)
    obtain ps n where pn: "p = (ps, n)" by (cases p)
    have get: "memo_get sel render f m k (Some (k0, p0)) = (render ps n m, Some (k, p))"
      using False p(1) by (simp add: pn memo_get_miss)
    show ?thesis
      using Cons.IH[OF later p(2)] False p(1) get remdups_adj_Suc[of k "map (snd \<circ> snd) rs"]
      by (simp add: r pn uncached_def)
  qed
qed simp



end
