(* ===== verification/Daemon.thy ===== *)
theory Daemon
  imports Worker Cover Runtime Sources Color_Props
begin

text \<open>
  The daemon's lifecycle (\<open>src/daemon.rs\<close>) and its startup (\<open>src/main.rs\<close>): the stages of the worker built from
  the resolver, the memo and the ctl client, the run from the startup revert to the exit code, and what the
  environment decides. What other threads do meanwhile is part of the event source and of \<open>worker_did\<close>.
\<close>

definition WORKER_STOP_TIMEOUT :: duration where "WORKER_STOP_TIMEOUT = from_secs 10"
definition DEFAULT_FADE_MS :: nat where "DEFAULT_FADE_MS = FADE_MS"

record config =
  cfg_players :: string
  cfg_covers_dirs :: "(string \<times> path) list"
  cfg_playerctl :: string
  cfg_ctl_program :: string
  cfg_wlchroma_config :: path
  cfg_fade_ms :: nat
  cfg_cache_dir :: path
  cfg_mode :: mode

text \<open>\<open>Config::ctl\<close>: the process runner and the reader of the config file are the outside world.\<close>

definition config_ctl ::
  "(string list \<Rightarrow> duration \<Rightarrow> 'w \<Rightarrow> (run_error + run_output) \<times> 'w) \<Rightarrow> (path \<Rightarrow> 'w \<Rightarrow> char list option) \<Rightarrow>
     (string \<Rightarrow> toml option) \<Rightarrow> config \<Rightarrow> 'w ctl" where
  "config_ctl runner read_file parse_toml cfg =
     \<lparr>ctl_program = cfg_ctl_program cfg, ctl_runner = runner, ctl_config = read_file (cfg_wlchroma_config cfg),
      ctl_parse_toml = parse_toml, ctl_fade_ms = cfg_fade_ms cfg\<rparr>"

definition default_covers_dirs :: "path option \<Rightarrow> (string \<times> path) list" where
  "default_covers_dirs home =
     [(''jellyfin-tui'', (case home of None \<Rightarrow> [] | Some h \<Rightarrow> h) @ [''.local'', ''share'', ''jellyfin-tui'', ''covers''])]"

subsection \<open>The stages\<close>

record 'x daemon_env =
  de_resolver :: resolver
  de_world :: "'x world"
  de_memo :: "content_id memo_slot"

definition daemon_env_new :: "config \<Rightarrow> 'x world \<Rightarrow> 'x daemon_env" where
  "daemon_env_new cfg w = \<lparr>de_resolver = resolver_new (cfg_cache_dir cfg), de_world = w, de_memo = None\<rparr>"

text \<open>What the stages take from outside: the cover environment, the decoder, reading a file and the ctl client.\<close>

record 'x daemon_deps =
  dd_cover :: "'x cover_env"
  dd_crate :: image_crate
  dd_read :: "fs \<Rightarrow> path \<Rightarrow> cover_file"
  dd_ctl :: "'x ctl"

definition stage_resolve ::
  "'x daemon_deps \<Rightarrow> string \<Rightarrow> path option \<Rightarrow> 'x daemon_env shared \<Rightarrow> resolution option \<times> 'x daemon_env shared" where
  "stage_resolve D art_url covers_dir sh =
     (case resolve (dd_cover D) art_url covers_dir (de_resolver (sh_env sh)) (de_world (sh_env sh)) of
        None \<Rightarrow> (None, sh)
      | Some (res, r, w) \<Rightarrow> (Some res, sh\<lparr>sh_env := (sh_env sh)\<lparr>de_resolver := r, de_world := w\<rparr>\<rparr>))"

definition stage_extract ::
  "'x daemon_deps \<Rightarrow> path \<Rightarrow> mode \<Rightarrow> content_id \<Rightarrow> 'x daemon_env shared \<Rightarrow> colors option \<times> 'x daemon_env shared" where
  "stage_extract D p m cid sh =
     (case memo_get (\<lambda>p. select_palette (dd_crate D) (dd_read D (wd_fs (de_world (sh_env sh))) p)) render_palette p m cid
             (de_memo (sh_env sh)) of
        (res, slot) \<Rightarrow>
          (case res of Some [a, b, c] \<Rightarrow> Some (a, b, c) | _ \<Rightarrow> None,
           sh\<lparr>sh_env := (sh_env sh)\<lparr>de_memo := slot\<rparr>\<rparr>))"

definition with_world ::
  "('x \<Rightarrow> 'r \<times> 'x) \<Rightarrow> 'x daemon_env shared \<Rightarrow> 'r option \<times> 'x daemon_env shared" where
  "with_world f sh =
     (case f (wd_ext (de_world (sh_env sh))) of
        (r, x) \<Rightarrow> (Some r, sh\<lparr>sh_env := (sh_env sh)\<lparr>de_world := (de_world (sh_env sh))\<lparr>wd_ext := x\<rparr>\<rparr>\<rparr>))"

definition daemon_stages :: "'x daemon_deps \<Rightarrow> 'x daemon_env stages" where
  "daemon_stages D =
     \<lparr>st_resolve = stage_resolve D, st_extract = stage_extract D,
      st_apply = (\<lambda>cols. with_world (ctl_apply (dd_ctl D) cols)),
      st_revert = with_world (ctl_revert (dd_ctl D))\<rparr>"

subsection \<open>One run\<close>

text \<open>A failed revert is only logged.\<close>

definition bounded_revert :: "'w ctl \<Rightarrow> 'w \<Rightarrow> 'w" where
  "bounded_revert ctl w = snd (ctl_revert ctl w)"

text \<open>
  What the environment decides: whether the worker, playerctl and its reader start, how long the worker takes to
  end once told to, whether the child has exited or when it would, and what the worker did to the world.
\<close>

record 'w daemon_io =
  io_worker_starts :: bool
  io_spawns :: bool
  io_reader_starts :: bool
  io_worker_ends :: "duration option"
  io_child_exited :: bool
  io_child_exits_after :: "duration option"
  io_worker_did :: "'w \<Rightarrow> 'w"

datatype daemon_action =
    StartupRevert | WorkerStarted | ChildSpawned | ReaderStarted | LoopExited loop_exit
  | ShutdownBegun | MailboxCleared | StoppingSet | WorkerJoined bool | FinalRevert | ChildEnded "child_step list"

record 'w daemon =
  dm_world :: 'w
  dm_stopping :: bool
  dm_worker :: worker_handle
  dm_slot :: mailbox
  dm_actions :: "daemon_action list"

definition act :: "daemon_action \<Rightarrow> 'w daemon \<Rightarrow> 'w daemon" where
  "act a d = d\<lparr>dm_actions := dm_actions d @ [a]\<rparr>"

definition set_stopping :: "'w daemon \<Rightarrow> 'w daemon" where
  "set_stopping d = act StoppingSet (d\<lparr>dm_stopping := True\<rparr>)"

definition join_worker :: "'w daemon_io \<Rightarrow> 'w daemon \<Rightarrow> 'w daemon" where
  "join_worker io d =
     (case stop_and_join WORKER_STOP_TIMEOUT (io_worker_ends io) (dm_worker d) of
        (ok, h) \<Rightarrow> act (WorkerJoined ok) (d\<lparr>dm_worker := h\<rparr>))"

definition end_child :: "'w daemon_io \<Rightarrow> 'w daemon \<Rightarrow> 'w daemon" where
  "end_child io d =
     act (ChildEnded (terminate_child (io_child_exited io) (io_child_exits_after io) CHILD_STOP_TIMEOUT)) d"

text \<open>What each way out of the loop does before the common cleanup.\<close>

definition after_loop ::
  "'w ctl \<Rightarrow> 'w daemon_io \<Rightarrow> loop_exit \<Rightarrow> coord \<Rightarrow> 'w daemon \<Rightarrow> int \<times> coord \<times> 'w daemon" where
  "after_loop ctl io ex c d =
     (case ex of
        ExitShutdown \<Rightarrow>
          let c1 = begin_shutdown runtime_ops c;
              d1 = act ShutdownBegun d;
              d2 = act MailboxCleared (d1\<lparr>dm_slot := mailbox_clear (rh_slot (c_host c1))\<rparr>);
              d3 = join_worker io (set_stopping d2);
              d4 = act FinalRevert (d3\<lparr>dm_world := bounded_revert ctl (dm_world d3)\<rparr>)
          in (0, c1\<lparr>c_host := (c_host c1)\<lparr>rh_slot := dm_slot d4\<rparr>\<rparr>, d4)
      | _ \<Rightarrow> (1, c, d\<lparr>dm_slot := rh_slot (c_host c)\<rparr>))"

definition run_coordinator ::
  "config \<Rightarrow> 'w ctl \<Rightarrow> 'w daemon_io \<Rightarrow> 64 word \<Rightarrow> instant \<Rightarrow> 's source \<Rightarrow> 's \<Rightarrow> 'w daemon \<Rightarrow> (int \<times> coord \<times> 'w daemon) option" where
  "run_coordinator cfg ctl io seed now src s d =
     (let host = runtime_host_new (dm_slot d) (wh_thread (dm_worker d)) seed now;
          c = coordinator_new host (map_of (cfg_covers_dirs cfg)) (cfg_mode cfg) (cfg_players cfg)
      in map_option (\<lambda>(ex, _, c').
           after_loop ctl io ex c' (act (LoopExited ex) (d\<lparr>dm_world := io_worker_did io (dm_world d)\<rparr>)))
         (run_loop src s c))"

definition daemon_cleanup :: "'w daemon_io \<Rightarrow> 'w daemon \<Rightarrow> 'w daemon" where
  "daemon_cleanup io d = end_child io (join_worker io (set_stopping d))"

definition daemon_start :: "'w ctl \<Rightarrow> 'w \<Rightarrow> 'w daemon" where
  "daemon_start ctl w =
     \<lparr>dm_world = bounded_revert ctl w, dm_stopping = False, dm_worker = worker_start,
      dm_slot = None, dm_actions = [StartupRevert]\<rparr>"

text \<open>The exit code and the end state; \<open>None\<close> if the loop never ends.\<close>

definition daemon_run ::
  "config \<Rightarrow> 'w ctl \<Rightarrow> 'w daemon_io \<Rightarrow> 64 word \<Rightarrow> instant \<Rightarrow> 's source \<Rightarrow> 's \<Rightarrow> 'w \<Rightarrow> (int \<times> 'w daemon) option" where
  "daemon_run cfg ctl io seed now src s w =
     (let d0 = daemon_start ctl w in
      if \<not> io_worker_starts io then Some (1, d0\<lparr>dm_worker := (dm_worker d0)\<lparr>wh_thread := False\<rparr>\<rparr>)
      else
        let d1 = act WorkerStarted d0 in
        if \<not> io_spawns io then Some (1, join_worker io (set_stopping d1))
        else
          let d2 = act ChildSpawned d1 in
          if \<not> io_reader_starts io then Some (1, daemon_cleanup io d2)
          else
            map_option (\<lambda>(code, _, d). (code, daemon_cleanup io d))
              (run_coordinator cfg ctl io seed now src s (act ReaderStarted d2)))"

text \<open>The worker starts out with the startup revert as its committed key.\<close>

definition daemon_worker :: "config \<Rightarrow> 'e shared \<Rightarrow> 'e worker" where
  "daemon_worker cfg sh = worker_new (Some (RevertTo (cfg_mode cfg))) sh"

subsection \<open>Startup\<close>

datatype level = Error | Warn | Info | Debug | Trace

text \<open>\<open>level <= limit\<close>: the order of the \<open>log\<close> facade, the most severe first.\<close>

definition level_rank :: "level \<Rightarrow> nat" where
  "level_rank l = (case l of Error \<Rightarrow> 1 | Warn \<Rightarrow> 2 | Info \<Rightarrow> 3 | Debug \<Rightarrow> 4 | Trace \<Rightarrow> 5)"

lemma level_rank_inj: "level_rank a = level_rank b \<Longrightarrow> a = b"
  by (cases a; cases b) (simp_all add: level_rank_def)

instantiation level :: linorder
begin

definition less_eq_level :: "level \<Rightarrow> level \<Rightarrow> bool" where
  "less_eq_level a b \<longleftrightarrow> level_rank a \<le> level_rank b"

definition less_level :: "level \<Rightarrow> level \<Rightarrow> bool" where
  "less_level a b \<longleftrightarrow> level_rank a < level_rank b"

instance
  by standard (auto simp: less_eq_level_def less_level_def dest: level_rank_inj)

end

definition is_own :: "string \<Rightarrow> bool" where
  "is_own target \<longleftrightarrow> target = ''mpris_chroma'' \<or> starts_with target ''mpris_chroma::''"

definition log_enabled :: "level \<Rightarrow> string \<Rightarrow> level \<Rightarrow> bool" where
  "log_enabled own_level target l \<longleftrightarrow> l \<le> (if is_own target then own_level else Warn)"

definition log_line :: "level \<Rightarrow> string \<Rightarrow> level \<Rightarrow> string \<Rightarrow> string option" where
  "log_line own_level target l args =
     (if log_enabled own_level target l then
        let prio = (case l of Error \<Rightarrow> 3 | Warn \<Rightarrow> 4 | Info \<Rightarrow> 6 | Debug \<Rightarrow> 7 | Trace \<Rightarrow> 7);
            head = ''<'' @ show_nat prio @ ''>''
        in Some (if is_own target then head @ args else head @ target @ '': '' @ args)
      else None)"

definition init_level :: "string option \<Rightarrow> level" where
  "init_level var =
     (if var = Some ''debug'' then Debug else if var = Some ''info'' then Info
      else if var = Some ''error'' then Error else if var = Some ''warn'' then Warn else Info)"

definition max_level :: "level \<Rightarrow> level" where
  "max_level l = max l Warn"

definition forced_mode :: "string option \<Rightarrow> mode option" where
  "forced_mode var = mode_from_str (to_lowercase (case var of None \<Rightarrow> [] | Some v \<Rightarrow> v))"

definition start_mode :: "string option \<Rightarrow> nat option \<Rightarrow> mode" where
  "start_mode var scheme =
     (case forced_mode var of
        Some m \<Rightarrow> m
      | None \<Rightarrow> (case scheme of None \<Rightarrow> Dark | Some v \<Rightarrow> mode_from_color_scheme v))"

text \<open>
  The environment of \<open>main\<close>: the variables, what resolving playerctl and connecting to the bus give, the color
  scheme the portal reports, and whether each event source starts.
\<close>

record main_env =
  me_mode_var :: "string option"
  me_playerctl :: "string + string"
  me_bus :: bool
  me_scheme :: "nat option"
  me_vanish_starts :: bool
  me_signals_start :: bool
  me_scheme_starts :: bool
  me_home :: "path option"
  me_ctl_var :: "string option"
  me_config_path :: path
  me_cache_dir :: path

text \<open>Either the process exits with a code before the daemon runs, or the daemon runs with a configuration.\<close>

definition main_start :: "main_env \<Rightarrow> int + config" where
  "main_start e =
     (case me_playerctl e of
        Inl _ \<Rightarrow> Inl 1
      | Inr playerctl \<Rightarrow>
          if \<not> me_bus e then Inl 1
          else
            let forced = forced_mode (me_mode_var e);
                started = me_vanish_starts e \<and> me_signals_start e \<and> (forced \<noteq> None \<or> me_scheme_starts e)
            in if \<not> started then Inl 1
               else Inr \<lparr>cfg_players = PLAYERS, cfg_covers_dirs = default_covers_dirs (me_home e),
                      cfg_playerctl = playerctl, cfg_ctl_program = default_ctl (me_ctl_var e),
                      cfg_wlchroma_config = me_config_path e, cfg_fade_ms = DEFAULT_FADE_MS,
                      cfg_cache_dir = me_cache_dir e, cfg_mode = start_mode (me_mode_var e) (me_scheme e)\<rparr>)"

end
