(* ===== verification/Daemon_Props.thy ===== *)
theory Daemon_Props
  imports Daemon
begin

text \<open>
  The lifecycle: what the stages of the running daemon guarantee to the worker, the exit code, the reaping of the
  child, the order of the shutdown, and the decisions of startup.
\<close>

subsection \<open>The stages\<close>

definition memo_ok :: "'x daemon_env shared \<Rightarrow> bool" where
  "memo_ok sh \<longleftrightarrow> (case de_memo (sh_env sh) of None \<Rightarrow> True | Some (k, p) \<Rightarrow> picks_ok p)"

definition valid_colors :: "colors \<Rightarrow> bool" where
  "valid_colors cols \<longleftrightarrow> (case cols of (a, b, c) \<Rightarrow> list_all valid_hex [a, b, c])"

lemma memo_ok_new: "sh_env sh = daemon_env_new cfg w \<Longrightarrow> memo_ok sh"
  by (simp add: memo_ok_def daemon_env_new_def)

lemma three_colors:
  assumes "length cs = 3"
  obtains a b c where "cs = [a, b, c]"
  using assms by (auto simp: numeral_3_eq_3 length_Suc_conv)

lemma memo_get_total:
  assumes "case slot of None \<Rightarrow> True | Some (k, p) \<Rightarrow> picks_ok p" "\<exists>p. sel f = Some p \<and> picks_ok p"
  shows "\<exists>a b c k p. memo_get sel render_palette f m cid slot = (Some [a, b, c], Some (k, p)) \<and> list_all valid_hex [a, b, c] \<and> picks_ok p"
proof -
  have "\<exists>k p. (if map_option fst slot \<noteq> Some cid then map_option (\<lambda>value. (cid, value)) (sel f) else slot) = Some (k, p)
      \<and> picks_ok p"
    using assms by (auto split: option.splits)
  then obtain k ps n where s: "(if map_option fst slot \<noteq> Some cid then map_option (\<lambda>value. (cid, value)) (sel f) else slot)
      = Some (k, (ps, n))" "picks_ok (ps, n)"
    by (metis surj_pair)
  obtain cs where r: "render_palette ps n m = Some cs" "length cs = 3" "list_all valid_hex cs"
    using render_palette_total[OF s(2), of m] by blast
  obtain a b c where "cs = [a, b, c]" using three_colors[OF r(2)] .
  then show ?thesis using s r by (simp add: memo_get_def)
qed

lemma stage_extract_total:
  assumes "crate_ok (dd_crate D)" "memo_ok sh"
  shows "\<exists>cols sh'. stage_extract D p m cid sh = (Some cols, sh') \<and> valid_colors cols \<and> memo_ok sh' \<and> sh_slot sh' = sh_slot sh"
proof -
  let ?sel = "\<lambda>p. select_palette (dd_crate D) (dd_read D (wd_fs (de_world (sh_env sh))) p)"
  obtain a b c k q where "memo_get ?sel render_palette p m cid (de_memo (sh_env sh)) = (Some [a, b, c], Some (k, q))"
    "list_all valid_hex [a, b, c]" "picks_ok q"
    using memo_get_total[of "de_memo (sh_env sh)" ?sel p m cid] select_palette_total[OF assms(1)] assms(2)
    by (auto simp: memo_ok_def)
  then show ?thesis by (simp add: stage_extract_def valid_colors_def memo_ok_def)
qed

lemma stage_resolve_memo: "stage_resolve D a dir sh = (r, sh') \<Longrightarrow> memo_ok sh' = memo_ok sh"
  by (auto simp: stage_resolve_def memo_ok_def split: option.splits)

lemma with_world_memo: "with_world f sh = (r, sh') \<Longrightarrow> memo_ok sh' = memo_ok sh \<and> r \<noteq> None"
  by (auto simp: with_world_def memo_ok_def split: prod.splits)

lemma run_revert_stages:
  assumes "memo_ok sh" "run_revert (daemon_stages D) j lc sh = (r, lc', sh')"
  shows "r \<noteq> None \<and> memo_ok sh'"
proof (cases "with_world (ctl_revert (dd_ctl D)) sh")
  case (Pair res sh1)
  then show ?thesis using assms with_world_memo[OF Pair]
    by (auto simp: run_revert_def daemon_stages_def job_done_def Let_def split: if_splits sum.splits)
qed

lemma run_cover_stages:
  assumes "crate_ok (dd_crate D)" "memo_ok sh" "run_cover (daemon_stages D) j p cid lc sh = (r, lc', sh')"
  shows "r \<noteq> None \<and> memo_ok sh'"
proof -
  obtain cols sh1 where x: "stage_extract D p (d_mode (j_desired j)) cid sh = (Some cols, sh1)" "memo_ok sh1"
    using stage_extract_total[OF assms(1,2)] by blast
  show ?thesis
  proof (cases "with_world (ctl_apply (dd_ctl D) cols) sh1")
    case (Pair res sh2)
    then show ?thesis using assms(2,3) x with_world_memo[OF Pair]
      by (auto simp: run_cover_def daemon_stages_def job_done_def Let_def split: if_splits sum.splits)
  qed
qed

text \<open>C32. The stages of the running daemon: with a decoder whose buffers are as long as their sides say, a job whose
  cover's resolution returns never panics, whatever the cover's content and in either mode, so the worker's panic
  backstop is not what keeps it alive; and the memo keeps holding picks that render.\<close>

theorem daemon_job_no_panic:
  assumes "crate_ok (dd_crate D)" "memo_ok sh"
    and "\<forall>target. d_target (j_desired j) = Some target \<longrightarrow>
      resolve (dd_cover D) (ct_art_url target) (ct_covers_dir target) (de_resolver (sh_env sh)) (de_world (sh_env sh)) \<noteq> None"
    and "run_once (daemon_stages D) j lc sh = (r, lc', sh')"
  shows "r \<noteq> None \<and> memo_ok sh'"
proof (cases "d_target (j_desired j)")
  case None
  then show ?thesis using run_revert_stages[OF assms(2)] assms(4) by (simp add: run_once_def)
next
  case (Some target)
  obtain res sh1 where s: "stage_resolve D (ct_art_url target) (ct_covers_dir target) sh = (Some res, sh1)"
    using assms(3) Some by (auto simp: stage_resolve_def)
  then have m: "memo_ok sh1" using stage_resolve_memo[OF s] assms(2) by simp
  show ?thesis
  proof (cases res)
    case (Ready p cid)
    then show ?thesis
      using run_cover_stages[OF assms(1) m] assms(4) s Some by (simp add: run_once_def daemon_stages_def)
  qed (use assms(4) s Some m in \<open>auto simp: run_once_def daemon_stages_def job_done_def\<close>)
qed

definition demo_config :: config where
  "demo_config = \<lparr>cfg_players = PLAYERS, cfg_covers_dirs = [], cfg_playerctl = ''/usr/bin/playerctl'',
     cfg_ctl_program = ''wlchroma-ctl'', cfg_wlchroma_config = [], cfg_fade_ms = DEFAULT_FADE_MS,
     cfg_cache_dir = [''c''], cfg_mode = Dark\<rparr>"

text \<open>A control that counts its calls and succeeds while \<open>up\<close> holds of the count.\<close>

definition counting_ctl :: "(nat \<Rightarrow> bool) \<Rightarrow> nat ctl" where
  "counting_ctl up = config_ctl
     (\<lambda>argv t n. (Inr \<lparr>ro_code = Some (if up n then 0 else 1), ro_stderr = []\<rparr>, n + 1))
     (\<lambda>p n. None) (\<lambda>s. None) demo_config"

definition demo_deps :: "unit daemon_deps" where
  "demo_deps = \<lparr>dd_cover = demo_cover_env, dd_crate = one_pixel_crate,
     dd_read = (\<lambda>s p. \<lparr>cf_open = Inr (), cf_len = Inr 1, cf_data = Inr ''x''\<rparr>),
     dd_ctl = config_ctl (\<lambda>argv t w. (Inr \<lparr>ro_code = Some 0, ro_stderr = []\<rparr>, w)) (\<lambda>p w. None) (\<lambda>s. None) demo_config\<rparr>"

definition demo_daemon_shared :: "unit daemon_env shared" where
  "demo_daemon_shared = \<lparr>sh_slot = None, sh_stop = False, sh_env = daemon_env_new demo_config demo_world\<rparr>"

lemma demo_deps_ok: "crate_ok (dd_crate demo_deps)" "memo_ok demo_daemon_shared"
  by (auto simp: crate_ok_def demo_deps_def one_pixel_crate_def demo_daemon_shared_def intro!: memo_ok_new)

theorem daemon_job_no_panic_witness:
  "fst (run_once (daemon_stages demo_deps) (demo_job 2 ''https://i.scdn.co/img/x'') None demo_daemon_shared) \<noteq> None"
proof -
  obtain r lc sh where r: "run_once (daemon_stages demo_deps) (demo_job 2 ''https://i.scdn.co/img/x'') None demo_daemon_shared
      = (r, lc, sh)" by (metis surj_pair)
  have "resolve demo_cover_env ''https://i.scdn.co/img/x'' None (resolver_new [''c'']) demo_world \<noteq> None"
    unfolding resolve_def demo_cover_hit by (simp add: starts_with_def)
  then have "\<forall>target. d_target (j_desired (demo_job 2 ''https://i.scdn.co/img/x'')) = Some target \<longrightarrow>
      resolve (dd_cover demo_deps) (ct_art_url target) (ct_covers_dir target) (de_resolver (sh_env demo_daemon_shared))
        (de_world (sh_env demo_daemon_shared)) \<noteq> None"
    by (simp add: demo_job_def demo_deps_def demo_daemon_shared_def daemon_env_new_def demo_config_def)
  from daemon_job_no_panic[OF demo_deps_ok this r] show ?thesis by (simp add: r)
qed

text \<open>C33. What the daemon extracts, its control accepts: applying the colours of the extract stage runs the program
  and is never refused as malformed.\<close>

theorem extracted_colors_accepted:
  assumes "crate_ok (dd_crate D)" "memo_ok sh" "stage_extract D p m cid sh = (Some cols, sh')"
  shows "\<exists>args. ctl_apply (dd_ctl D) cols x = ctl_run (dd_ctl D) (''set-colors'' # args) x"
proof -
  have "valid_colors cols" using stage_extract_total[OF assms(1,2), of p m cid] assms(3) by auto
  then show ?thesis by (cases cols) (auto simp: ctl_apply_def valid_colors_def)
qed

theorem extracted_colors_accepted_witness:
  "\<exists>cols sh' args. stage_extract demo_deps [''c'', ''ab.img''] Dark (8, 7) demo_daemon_shared = (Some cols, sh') \<and>
     ctl_apply (dd_ctl demo_deps) cols () = ctl_run (dd_ctl demo_deps) (''set-colors'' # args) ()"
proof -
  obtain cols sh' where x: "stage_extract demo_deps [''c'', ''ab.img''] Dark (8, 7) demo_daemon_shared = (Some cols, sh')"
    using stage_extract_total[OF demo_deps_ok, of "[''c'', ''ab.img'']" Dark "(8, 7)"] by auto
  from extracted_colors_accepted[OF demo_deps_ok x] show ?thesis using x by blast
qed

subsection \<open>The run\<close>

lemma join_worker_fields [simp]:
  "dm_world (join_worker io d) = dm_world d" "dm_stopping (join_worker io d) = dm_stopping d"
  "dm_slot (join_worker io d) = dm_slot d" "wh_stop (dm_worker (join_worker io d))"
  "\<exists>ok. dm_actions (join_worker io d) = dm_actions d @ [WorkerJoined ok]"
  by (auto simp: join_worker_def act_def stop_and_join_def Let_def split: prod.splits option.splits if_splits)

lemma set_stopping_fields [simp]:
  "dm_world (set_stopping d) = dm_world d" "dm_stopping (set_stopping d)"
  "dm_slot (set_stopping d) = dm_slot d" "dm_worker (set_stopping d) = dm_worker d"
  "dm_actions (set_stopping d) = dm_actions d @ [StoppingSet]"
  by (simp_all add: set_stopping_def act_def)

lemma end_child_fields [simp]:
  "dm_world (end_child io d) = dm_world d" "dm_stopping (end_child io d) = dm_stopping d"
  "dm_slot (end_child io d) = dm_slot d" "dm_worker (end_child io d) = dm_worker d"
  "\<exists>steps. dm_actions (end_child io d) = dm_actions d @ [ChildEnded steps] \<and> Wait \<in> set steps"
  by (auto simp: end_child_def act_def terminate_child_def split: option.splits)

lemma daemon_cleanup_fields:
  "dm_world (daemon_cleanup io d) = dm_world d \<and> dm_slot (daemon_cleanup io d) = dm_slot d
    \<and> dm_stopping (daemon_cleanup io d) \<and> wh_stop (dm_worker (daemon_cleanup io d))
    \<and> (\<exists>ok steps. dm_actions (daemon_cleanup io d) =
         dm_actions d @ [StoppingSet, WorkerJoined ok, ChildEnded steps] \<and> Wait \<in> set steps)"
proof -
  obtain ok where "dm_actions (join_worker io (set_stopping d)) = dm_actions d @ [StoppingSet, WorkerJoined ok]"
    using join_worker_fields(5)[of io "set_stopping d"] by auto
  moreover obtain steps where "dm_actions (end_child io (join_worker io (set_stopping d))) =
      dm_actions (join_worker io (set_stopping d)) @ [ChildEnded steps]" "Wait \<in> set steps"
    using end_child_fields(5) by blast
  ultimately show ?thesis by (auto simp: daemon_cleanup_def)
qed

text \<open>The part of a run after a successful start of all three.\<close>

lemma after_loop_cases:
  assumes "after_loop ctl io ex c d = (code, c', d')"
  shows "(code = (if ex = ExitShutdown then 0 else 1)) \<and>
    (\<exists>more. dm_actions d' = dm_actions d @ more \<and>
      (ex = ExitShutdown \<longrightarrow> dm_slot d' = None \<and> dm_world d' = bounded_revert ctl (dm_world d) \<and>
         (\<exists>ok. more = [ShutdownBegun, MailboxCleared, StoppingSet, WorkerJoined ok, FinalRevert])) \<and>
      (ex \<noteq> ExitShutdown \<longrightarrow> more = [] \<and> dm_world d' = dm_world d))"
proof (cases "ex = ExitShutdown")
  case True
  let ?d2 = "act MailboxCleared (act ShutdownBegun d\<lparr>dm_slot := mailbox_clear (rh_slot (c_host (begin_shutdown runtime_ops c)))\<rparr>)"
  obtain ok where "dm_actions (join_worker io (set_stopping ?d2)) = dm_actions (set_stopping ?d2) @ [WorkerJoined ok]"
    using join_worker_fields(5) by blast
  then show ?thesis using True assms
    by (auto simp: after_loop_def Let_def act_def mailbox_clear_def)
next
  case False
  then show ?thesis using assms by (cases ex) (auto simp: after_loop_def)
qed

lemma daemon_run_started:
  assumes "io_worker_starts io" "io_spawns io" "io_reader_starts io"
    and "daemon_run cfg ctl io seed now src s w = Some (code, d)"
  shows "\<exists>ex more ok steps. code = (if ex = ExitShutdown then 0 else 1)
    \<and> dm_actions d = [StartupRevert, WorkerStarted, ChildSpawned, ReaderStarted, LoopExited ex] @ more
        @ [StoppingSet, WorkerJoined ok, ChildEnded steps] \<and> Wait \<in> set steps
    \<and> dm_stopping d \<and> wh_stop (dm_worker d)
    \<and> (ex = ExitShutdown \<longrightarrow> dm_slot d = None
         \<and> dm_world d = bounded_revert ctl (io_worker_did io (bounded_revert ctl w))
         \<and> (\<exists>ok. more = [ShutdownBegun, MailboxCleared, StoppingSet, WorkerJoined ok, FinalRevert]))
    \<and> (ex \<noteq> ExitShutdown \<longrightarrow> more = [] \<and> dm_world d = io_worker_did io (bounded_revert ctl w))"
proof -
  let ?d3 = "act ReaderStarted (act ChildSpawned (act WorkerStarted (daemon_start ctl w)))"
  let ?e = "\<lambda>ex. act (LoopExited ex) (?d3\<lparr>dm_world := io_worker_did io (dm_world ?d3)\<rparr>)"
  obtain ex s' c' c1 d1 where al: "after_loop ctl io ex c' (?e ex) = (code, c1, d1)" and d: "d = daemon_cleanup io d1"
    using assms by (auto simp: daemon_run_def run_coordinator_def Let_def split: prod.splits)
  obtain more where more: "code = (if ex = ExitShutdown then 0 else 1)" "dm_actions d1 = dm_actions (?e ex) @ more"
      "ex = ExitShutdown \<longrightarrow> dm_slot d1 = None \<and> dm_world d1 = bounded_revert ctl (dm_world (?e ex)) \<and>
         (\<exists>ok. more = [ShutdownBegun, MailboxCleared, StoppingSet, WorkerJoined ok, FinalRevert])"
      "ex \<noteq> ExitShutdown \<longrightarrow> more = [] \<and> dm_world d1 = dm_world (?e ex)"
    using after_loop_cases[OF al] by blast
  have e: "dm_actions (?e ex) = [StartupRevert, WorkerStarted, ChildSpawned, ReaderStarted, LoopExited ex]"
    "dm_world (?e ex) = io_worker_did io (bounded_revert ctl w)"
    by (simp_all add: act_def daemon_start_def)
  obtain ok steps where "dm_actions d = dm_actions d1 @ [StoppingSet, WorkerJoined ok, ChildEnded steps]" "Wait \<in> set steps"
      "dm_world d = dm_world d1" "dm_slot d = dm_slot d1" "dm_stopping d" "wh_stop (dm_worker d)"
    using daemon_cleanup_fields[of io d1] unfolding d by blast
  then show ?thesis using more unfolding e
    by (intro exI[of _ ex] exI[of _ more] exI[of _ ok] exI[of _ steps]) simp
qed

text \<open>C16. Exit code and reaping: a run that ends exits with 0 exactly when it ended on a requested shutdown, and with 1
  otherwise; and whenever playerctl was spawned the last thing the run does is to end and reap that child, with the
  stop flags set.\<close>

theorem daemon_exit_code:
  assumes "daemon_run cfg ctl io seed now src s w = Some (code, d)"
  shows "code \<in> {0, 1} \<and> (code = 0 \<longleftrightarrow> LoopExited ExitShutdown \<in> set (dm_actions d)) \<and>
    (ChildSpawned \<in> set (dm_actions d) \<longrightarrow>
       (\<exists>steps. last (dm_actions d) = ChildEnded steps \<and> Wait \<in> set steps) \<and> dm_stopping d \<and> wh_stop (dm_worker d))"
proof (cases "io_worker_starts io \<and> io_spawns io \<and> io_reader_starts io")
  case True
  from daemon_run_started[OF _ _ _ assms] True show ?thesis by (auto split: if_splits)
next
  case False
  obtain ok where j: "dm_actions (join_worker io (set_stopping (act WorkerStarted (daemon_start ctl w)))) =
      [StartupRevert, WorkerStarted, StoppingSet, WorkerJoined ok]"
    using join_worker_fields(5)[of io "set_stopping (act WorkerStarted (daemon_start ctl w))"]
    by (auto simp: act_def daemon_start_def)
  show ?thesis
    using False assms j daemon_cleanup_fields[of io "act ChildSpawned (act WorkerStarted (daemon_start ctl w))"]
    by (auto simp: daemon_run_def Let_def act_def daemon_start_def split: if_splits)
qed

text \<open>The event sources of a run that shuts down at once.\<close>

definition demo_io :: "'w daemon_io" where
  "demo_io = \<lparr>io_worker_starts = True, io_spawns = True, io_reader_starts = True, io_worker_ends = Some 0,
     io_child_exited = False, io_child_exits_after = None, io_worker_did = (\<lambda>w. w)\<rparr>"

lemma demo_run:
  "\<exists>d. daemon_run demo_config (counting_ctl up) demo_io 1 0 script [Shutdown] 0 = Some (0, d)"
proof -
  have "run_loop script [Shutdown] c = Some (ExitShutdown, [], c)" for c
    by (simp add: run_loop.simps[of script "[Shutdown]"] loop_step_def dispatch_def Let_def)
  then show ?thesis
    by (simp add: daemon_run_def demo_io_def run_coordinator_def after_loop_def Let_def)
qed

theorem daemon_exit_code_witness:
  "\<exists>d steps. daemon_run demo_config (counting_ctl (\<lambda>_. True)) demo_io 1 0 script [Shutdown] 0 = Some (0, d)
     \<and> LoopExited ExitShutdown \<in> set (dm_actions d)"
proof -
  obtain d where d: "daemon_run demo_config (counting_ctl (\<lambda>_. True)) demo_io 1 0 script [Shutdown] 0 = Some (0, d)"
    using demo_run by blast
  from daemon_exit_code[OF d] d show ?thesis by simp
qed

text \<open>A stopped worker serves nothing more, whatever is in its slot.\<close>

lemma stopped_worker: "sh_stop (wk_shared wk) \<Longrightarrow>
    worker_run (Suc n) S wk = (Finished, wk\<lparr>wk_shared := (wk_shared wk)\<lparr>sh_slot := None\<rparr>\<rparr>)"
  by (simp add: pump_once_def mailbox_get_def)



subsection \<open>Startup\<close>

text \<open>The worker starts out believing the startup revert committed, so the first revert job of the start mode is
  skipped, and touches nothing, also when that revert failed (finding).\<close>

theorem startup_revert_assumed:
  "\<exists>d. daemon_run demo_config (counting_ctl (\<lambda>n. n > 0)) demo_io 1 0 script [Shutdown] 0 = Some (0, d) \<and>
    fst (ctl_revert (counting_ctl (\<lambda>n. n > 0)) 0) \<noteq> Inr () \<and>
    (\<forall>S sh g. run_once S \<lparr>j_generation = g, j_desired = \<lparr>d_target = None, d_mode = Dark\<rparr>\<rparr>
         (wk_last_committed (daemon_worker demo_config sh)) sh =
       (job_done \<lparr>j_generation = g, j_desired = \<lparr>d_target = None, d_mode = Dark\<rparr>\<rparr> SkippedDuplicate None,
        Some (RevertTo Dark), sh))"
  using demo_run[of "\<lambda>n. n > 0"]
  by (auto simp: run_once_def run_revert_def daemon_worker_def worker_new_def demo_config_def job_done_def
      ctl_revert_def counting_ctl_def config_ctl_def config_palette_def ctl_run_def)

text \<open>The choice of the palette mode: when \<open>main\<close> gets as far as running the daemon, playerctl was resolved and
  the bus connected; a forced mode, in any letter case, wins; otherwise the mode is light exactly when the portal
  reports 2, the scheme listener runs, and no answer means dark.\<close>

theorem start_mode_choice:
  assumes "main_start e = Inr cfg"
  shows "me_playerctl e = Inr (cfg_playerctl cfg) \<and> me_bus e \<and> me_vanish_starts e \<and> me_signals_start e
    \<and> (\<forall>m. to_lowercase (case me_mode_var e of None \<Rightarrow> [] | Some v \<Rightarrow> v) = mode_as_str m \<longrightarrow> cfg_mode cfg = m)
    \<and> ((\<forall>m. to_lowercase (case me_mode_var e of None \<Rightarrow> [] | Some v \<Rightarrow> v) \<noteq> mode_as_str m) \<longrightarrow>
         me_scheme_starts e \<and> (cfg_mode cfg = Light \<longleftrightarrow> me_scheme e = Some 2))"
proof -
  have none: "forced_mode v = None \<longleftrightarrow> (\<forall>m. to_lowercase (case v of None \<Rightarrow> [] | Some v \<Rightarrow> v) \<noteq> mode_as_str m)" for v
    unfolding forced_mode_def using mode_print_parse by (metis not_None_eq)
  show ?thesis
    using assms unfolding none[symmetric]
    by (auto simp: main_start_def start_mode_def Let_def forced_mode_def mode_from_color_scheme_def
        split: sum.splits if_splits option.splits)
qed

theorem start_mode_choice_witness:
  "\<exists>cfg. main_start \<lparr>me_mode_var = None, me_playerctl = Inr ''/usr/bin/playerctl'', me_bus = True, me_scheme = Some 2,
      me_vanish_starts = True, me_signals_start = True, me_scheme_starts = True, me_home = None, me_ctl_var = None,
      me_config_path = [], me_cache_dir = []\<rparr> = Inr cfg \<and> cfg_mode cfg = Light"
proof -
  let ?e = "\<lparr>me_mode_var = None, me_playerctl = Inr ''/usr/bin/playerctl'', me_bus = True, me_scheme = Some 2,
      me_vanish_starts = True, me_signals_start = True, me_scheme_starts = True, me_home = None, me_ctl_var = None,
      me_config_path = [], me_cache_dir = []\<rparr>"
  have f: "to_lowercase [] \<noteq> mode_as_str m" for m by (cases m) (simp_all add: to_lowercase_def)
  have "forced_mode None = None" by (simp add: forced_mode_def to_lowercase_def mode_from_str_def)
  then obtain cfg where c: "main_start ?e = Inr cfg" by (simp add: main_start_def Let_def)
  then show ?thesis using start_mode_choice[OF c] f by simp
qed

text \<open>The level given to the log facade never hides what the logger would print.\<close>

lemma log_filter_consistent: "log_enabled own target l \<Longrightarrow> l \<le> max_level own"
  by (auto simp: log_enabled_def max_level_def le_max_iff_disj split: if_splits)

end
