(* ===== verification/Handover.thy ===== *)
theory Handover
  imports Runtime
begin

text \<open>
  The handover of jobs from the coordinator to a mailbox that keeps accepting: an extension of the contract
  \<open>job_host\<close> by a host whose own operations do not change whether it accepts. Inside it, every handler either
  leaves slot and generation alone, or leaves the job of its new generation and its last decision in the slot
  (\<open>handed\<close>). The daemon's host and the recording host of the unit tests both provide it.
\<close>

locale live_job_host = job_host +
  assumes live_submit: "accepting (h_submit H g d h) = accepting h"
    and live_schedule: "accepting (snd (h_schedule_retry H ms h)) = accepting h"
    and live_cancel: "accepting (h_cancel_retry H t h) = accepting h"
    and live_jitter: "accepting (snd (h_jitter H h)) = accepting h"
    and live_warn: "accepting (h_warn H w h) = accepting h"
begin

definition kept :: "'a coordinator \<Rightarrow> 'a coordinator \<Rightarrow> bool" where
  "kept c c' \<longleftrightarrow>
     slot (c_host c') = slot (c_host c) \<and> c_generation c' = c_generation c \<and> c_last_desired c' = c_last_desired c"

definition submitted :: "'a coordinator \<Rightarrow> 'a coordinator \<Rightarrow> bool" where
  "submitted c c' \<longleftrightarrow>
     c_generation c \<le> c_generation c' \<and> (c_generation c' = c_generation c \<longrightarrow> c_last_desired c' = c_last_desired c) \<and>
     (\<exists>d. c_last_desired c' = Some d \<and>
        (accepting (c_host c) \<longrightarrow> slot (c_host c') = Some \<lparr>j_generation = c_generation c', j_desired = d\<rparr>) \<and>
        (\<not> accepting (c_host c) \<longrightarrow> slot (c_host c') = slot (c_host c)))"

definition handed :: "'a coordinator \<Rightarrow> 'a coordinator \<Rightarrow> bool" where
  "handed c c' \<longleftrightarrow> accepting (c_host c') = accepting (c_host c) \<and> (kept c c' \<or> submitted c c')"

lemma handed_refl: "handed c c"
  by (simp add: handed_def kept_def)

text \<open>The handlers change other fields before they decide.\<close>

lemma handed_cong:
  assumes "slot (c_host c\<^sub>1) = slot (c_host c)" "accepting (c_host c\<^sub>1) = accepting (c_host c)"
    "c_generation c\<^sub>1 = c_generation c" "c_last_desired c\<^sub>1 = c_last_desired c"
    "handed c\<^sub>1 c'"
  shows "handed c c'"
  using assms by (simp add: handed_def kept_def submitted_def)

lemma handed_kept:
  assumes "slot (c_host c') = slot (c_host c)" "accepting (c_host c') = accepting (c_host c)"
    "c_generation c' = c_generation c" "c_last_desired c' = c_last_desired c"
  shows "handed c c'"
  using assms by (simp add: handed_def kept_def)

lemma live_cancel_retry: "accepting (c_host (cancel_retry H c)) = accepting (c_host c)"
  by (auto simp: cancel_retry_def Let_def live_cancel split: option.splits)

lemma live_log_drop: "accepting (c_host (log_drop H cat det c)) = accepting (c_host c)"
  by (simp add: log_drop_def Let_def live_warn)

lemma live_arm: "accepting (c_host (snd (arm_retry H c))) = accepting (c_host c)"
  by (auto simp: arm_retry_def Let_def live_warn live_schedule live_cancel live_jitter
      case_prod_unfold split: option.splits)

lemma live_adopt_core: "accepting (c_host (adopt_core H r c)) = accepting (c_host c)"
  by (auto simp: adopt_core_def live_arm split: outcome.splits)

lemmas live_simps = live_cancel_retry live_log_drop live_arm live_adopt_core

lemma handed_maybe_submit:
  assumes "retry_wf c" shows "handed c (maybe_submit H d p r c)"
proof (cases "c_stopping c \<or> c_last_submitted c = Some d \<and> (\<not> r \<or> stable_identity d)")
  case True
  then show ?thesis
    using assms by (auto simp: maybe_submit_def Let_def handed_def kept_def retry_wf_def)
next
  case False
  with assms have "accepting (c_host (maybe_submit H d p r c)) = accepting (c_host c) \<and>
      submitted c (maybe_submit H d p r c)"
    by (auto simp: maybe_submit_def Let_def submitted_def live_submit live_simps slot_submit slot_refuse retry_wf_def)
  then show ?thesis by (simp add: handed_def)
qed

lemma handed_decide: "retry_wf c \<Longrightarrow> handed c (decide_and_submit H r c)"
  by (auto simp: decide_and_submit_def handed_maybe_submit handed_refl split: selection.splits)

lemma handed_line:
  assumes "retry_wf c" shows "handed c (on_line H l c)"
proof (cases "line_accepted c l")
  case True
  have "handed c (accept_line H n st a c)" for n st a
    unfolding accept_line_def Let_def
    by (rule handed_cong [OF _ _ _ _ handed_decide]) (simp_all add: assms retry_wf_maintain)
  then show ?thesis by (metis on_line_accepted [OF True])
next
  case False
  from on_line_rejected [OF this, of H] show ?thesis by (auto simp: live_simps intro: handed_kept)
qed

lemma handed_log_drop: "handed c (log_drop H cat det c)"
  by (rule handed_kept) (simp_all add: live_simps)

lemma handed_vanish: "retry_wf c \<Longrightarrow> handed c (on_vanish H b c)"
  by (auto simp: on_vanish_def intro: handed_refl handed_cong [OF _ _ _ _ handed_decide] split: option.splits)

lemma handed_scheme:
  assumes "retry_wf c" shows "handed c (on_scheme H v c)"
proof -
  have "handed c (maybe_submit H d p r (c\<lparr>c_mode := m\<rparr>))" for d p r m
    by (rule handed_cong [OF _ _ _ _ handed_maybe_submit]) (simp_all add: assms)
  moreover have "handed c (c\<lparr>c_mode := m\<rparr>)" for m by (rule handed_kept) simp_all
  ultimately show ?thesis
    by (auto simp: on_scheme_def Let_def handed_refl split: option.splits selection.splits)
qed

lemma retry_wf_adopt_core: "retry_wf c \<Longrightarrow> retry_wf (adopt_core H r c)"
  by (auto simp: adopt_core_def retry_wf_def split: outcome.splits)

lemma handed_adopt:
  assumes "retry_wf c" shows "handed c (adopt H r c)"
proof -
  have "handed c (decide_and_submit H False (adopt_core H r c))"
    by (rule handed_cong [OF _ _ _ _ handed_decide [OF retry_wf_adopt_core [OF assms]]]) (simp_all add: live_simps)
  then show ?thesis by (simp add: adopt_alt handed_refl)
qed

lemma handed_fire:
  assumes "retry_wf c" shows "handed c (fire_retry H c)"
proof (cases "c_stopping c \<or> c_retry_desire c = None")
  case True
  then show ?thesis by (auto simp: fire_retry_def Let_def intro: handed_kept)
next
  case False
  then obtain d where d: "c_retry_desire c = Some d" by blast
  then have "c_last_desired c = Some d" using assms by (auto simp: retry_wf_def)
  then show ?thesis
    using False fire_retry_wf [OF assms _ d]
    by (auto simp: handed_def submitted_def live_submit slot_submit slot_refuse)
qed

lemmas handed_intros = handed_line handed_log_drop handed_vanish handed_scheme handed_adopt handed_fire

end

interpretation rt_live: live_job_host runtime_ops rh_slot rh_alive
  by unfold_locales
    (auto simp: runtime_ops_def rh_submit_def rh_schedule_retry_def rh_cancel_retry_def
      Let_def case_prod_unfold split: option.split)

interpretation fake_live: live_job_host fake_ops fake_slot "\<lambda>h. True"
  by unfold_locales simp_all

end
