(* ===== verification/Protocol.thy ===== *)
theory Protocol
  imports Worker
begin

text \<open>
  The abstract handover protocol between the coordinator and the worker: what each job goes through, with the loop,
  the channel and the stages left out. \<open>pr_results\<close> are the results adopted so far, then those on their way, in the
  order they were produced. \<open>System\<close> refines it (\<open>System_Props\<close>).
\<close>

record protocol =
  pr_generation :: nat
  pr_desired :: "desired option"
  pr_slot :: mailbox
  pr_job :: "job option"
  pr_committed :: "committed option"
  pr_results :: "job_result list"

definition protocol_init :: "committed option \<Rightarrow> protocol" where
  "protocol_init lc =
     \<lparr>pr_generation = 0, pr_desired = None, pr_slot = mailbox_new, pr_job = None, pr_committed = lc, pr_results = []\<rparr>"

text \<open>How a job may end: the dedup key moves to the job's own on a commit, and a skip finds it there.\<close>

definition ends :: "job \<Rightarrow> committed option \<Rightarrow> job_result \<Rightarrow> committed option \<Rightarrow> bool" where
  "ends j lc r lc' \<longleftrightarrow>
     jr_generation r = j_generation j \<and>
     (case jr_outcome r of
        Committed \<Rightarrow> \<exists>cid. lc' = Some (key_of_job j cid)
      | SkippedDuplicate \<Rightarrow> lc' = lc \<and> (\<exists>cid. lc = Some (key_of_job j cid))
      | _ \<Rightarrow> lc' = lc)"

inductive protocol_step :: "protocol \<Rightarrow> protocol \<Rightarrow> bool" where
  submit: "pr_generation p \<le> g \<Longrightarrow> g = pr_generation p \<longrightarrow> pr_desired p = Some d \<Longrightarrow>
    protocol_step p (p\<lparr>pr_generation := g, pr_desired := Some d, pr_slot := Some \<lparr>j_generation = g, j_desired = d\<rparr>\<rparr>)"
| take: "pr_slot p = Some j \<Longrightarrow> pr_job p = None \<Longrightarrow> protocol_step p (p\<lparr>pr_slot := None, pr_job := Some j\<rparr>)"
| supersede: "pr_job p = Some j \<Longrightarrow> superseded (j_generation j) (pr_slot p) \<Longrightarrow> protocol_step p (p\<lparr>pr_job := None\<rparr>)"
| finish: "pr_job p = Some j \<Longrightarrow> ends j (pr_committed p) r lc \<Longrightarrow>
    protocol_step p (p\<lparr>pr_job := None, pr_committed := lc, pr_results := pr_results p @ [r]\<rparr>)"
| discard: "pr_results p = as @ r # bs \<Longrightarrow> jr_generation r \<noteq> pr_generation p \<Longrightarrow>
    protocol_step p (p\<lparr>pr_results := as @ bs\<rparr>)"

inductive protocol_reach :: "protocol \<Rightarrow> protocol \<Rightarrow> bool" for p\<^sub>0 where
  start: "protocol_reach p\<^sub>0 p\<^sub>0"
| step: "protocol_reach p\<^sub>0 p \<Longrightarrow> protocol_step p p' \<Longrightarrow> protocol_reach p\<^sub>0 p'"

inductive_cases protocol_stepE [consumes 1, case_names submit take supersede finish discard]: "protocol_step p p'"

subsection \<open>The trail of a generation\<close>

text \<open>The generations of everything between the adopted results and the mailbox, oldest first.\<close>

definition job_gens :: "job option \<Rightarrow> nat list" where
  "job_gens x = (case x of None \<Rightarrow> [] | Some j \<Rightarrow> [j_generation j])"

lemma job_gens_simps [simp]: "job_gens None = []" "job_gens (Some j) = [j_generation j]"
  by (simp_all add: job_gens_def)

definition trail :: "protocol \<Rightarrow> nat list" where
  "trail p = map jr_generation (pr_results p) @ job_gens (pr_job p) @ job_gens (pr_slot p)"

definition ordered :: "protocol \<Rightarrow> bool" where
  "ordered p \<longleftrightarrow> sorted (trail p @ [pr_generation p])"

text \<open>The last generation is at the end of the trail: nothing submitted is lost.\<close>

definition kept_alive :: "protocol \<Rightarrow> bool" where
  "kept_alive p \<longleftrightarrow> 0 < pr_generation p \<longrightarrow> trail p \<noteq> [] \<and> last (trail p) = pr_generation p"

definition current :: "protocol \<Rightarrow> bool" where
  "current p \<longleftrightarrow>
     (\<forall>j. pr_slot p = Some j \<longrightarrow> j_generation j = pr_generation p \<and> pr_desired p = Some (j_desired j)) \<and>
     (\<forall>j. pr_job p = Some j \<longrightarrow> j_generation j = pr_generation p \<longrightarrow> pr_desired p = Some (j_desired j))"

text \<open>A success under the current generation: the dedup key is that of the current desire.\<close>

definition succeeded :: "protocol \<Rightarrow> bool" where
  "succeeded p \<longleftrightarrow>
     (\<exists>r\<in>set (pr_results p). jr_generation r = pr_generation p \<and> jr_outcome r \<in> {Committed, SkippedDuplicate})"

definition key_current :: "protocol \<Rightarrow> bool" where
  "key_current p \<longleftrightarrow>
     (\<exists>d cid. pr_desired p = Some d \<and>
        pr_committed p = Some (key_of_job \<lparr>j_generation = pr_generation p, j_desired = d\<rparr> cid))"

definition protocol_inv :: "protocol \<Rightarrow> bool" where
  "protocol_inv p \<longleftrightarrow> ordered p \<and> kept_alive p \<and> current p \<and> (succeeded p \<longrightarrow> key_current p)"

lemma ordered_step: "ordered p \<Longrightarrow> protocol_step p p' \<Longrightarrow> ordered p'"
proof (erule protocol_stepE)
  fix g d
  assume "ordered p" "pr_generation p \<le> g"
    and "p' = p\<lparr>pr_generation := g, pr_desired := Some d, pr_slot := Some \<lparr>j_generation = g, j_desired = d\<rparr>\<rparr>"
  then show "ordered p'" by (auto simp: ordered_def trail_def sorted_append intro: order_trans)
qed (auto simp: ordered_def trail_def sorted_append ends_def)

lemma kept_alive_step:
  assumes "ordered p" "kept_alive p" "protocol_step p p'" shows "kept_alive p'"
  using assms(3)
proof (cases rule: protocol_stepE)
  case (supersede j)
  then show ?thesis using assms(2) by (auto simp: kept_alive_def trail_def superseded_iff)
next
  case (discard as r bs)
  then show ?thesis using assms(2)
    by (cases "bs = [] \<and> job_gens (pr_job p) = [] \<and> job_gens (pr_slot p) = []")
      (auto simp: kept_alive_def trail_def last_append)
qed (use assms(2) in \<open>auto simp: kept_alive_def trail_def ends_def last_append\<close>)

lemma current_step:
  assumes "ordered p" "current p" "protocol_step p p'" shows "current p'"
  using assms(3)
proof (cases rule: protocol_stepE)
  case (submit g d)
  have "j_generation j \<le> pr_generation p" if "pr_job p = Some j" for j
    using assms(1) that by (simp add: ordered_def trail_def sorted_append)
  with submit assms(2) show ?thesis by (fastforce simp: current_def)
qed (use assms(2) in \<open>auto simp: current_def\<close>)

lemma succeeded_step:
  assumes o: "ordered p" and c: "current p" and k: "succeeded p \<longrightarrow> key_current p" and s: "protocol_step p p'"
  shows "succeeded p' \<longrightarrow> key_current p'"
  using s
proof (cases rule: protocol_stepE)
  case (submit g d)
  have "jr_generation r \<le> pr_generation p" if "r \<in> set (pr_results p)" for r
    using o that by (auto simp: ordered_def trail_def sorted_append)
  with submit k show ?thesis by (fastforce simp: succeeded_def key_current_def)
next
  case (finish j r lc)
  show ?thesis
  proof
    assume "succeeded p'"
    then consider (old) "succeeded p"
      | (new) "jr_generation r = pr_generation p" "jr_outcome r \<in> {Committed, SkippedDuplicate}"
      using finish by (auto simp: succeeded_def)
    then show "key_current p'"
    proof cases
      case new
      then have "j_generation j = pr_generation p" using finish by (simp add: ends_def)
      with c finish have "pr_desired p = Some (j_desired j)" by (simp add: current_def)
      with new finish show ?thesis by (auto simp: key_current_def ends_def key_of_job_def)
    next
      case old
      then have g: "j_generation j = pr_generation p"
        using o finish by (auto simp: succeeded_def ordered_def trail_def sorted_append)
      with c finish have "pr_desired p = Some (j_desired j)" by (simp add: current_def)
      with old k finish show ?thesis
        by (cases "jr_outcome r") (auto simp: key_current_def ends_def key_of_job_def)
    qed
  qed
qed (use k in \<open>auto simp: succeeded_def key_current_def\<close>)

lemma protocol_inv_init: "protocol_inv (protocol_init lc)"
  by (simp add: protocol_inv_def protocol_init_def ordered_def kept_alive_def current_def succeeded_def trail_def
      mailbox_new_def)

lemma protocol_inv_step: "protocol_inv p \<Longrightarrow> protocol_step p p' \<Longrightarrow> protocol_inv p'"
  unfolding protocol_inv_def using ordered_step kept_alive_step current_step succeeded_step by blast

lemma protocol_inv_reach: "protocol_reach (protocol_init lc) p \<Longrightarrow> protocol_inv p"
  by (induction rule: protocol_reach.induct) (auto intro: protocol_inv_init protocol_inv_step)

end
