(* ===== verification/Thread.thy ===== *)
theory Thread
  imports Protocol
begin

text \<open>
  The worker thread in atomic steps (\<open>src/worker.rs\<close>, \<open>Worker::run\<close>, \<open>serve\<close> and \<open>run_once\<close>): one program point
  per access to what other threads share (the mailbox, the event channel) and per stage. \<open>tick\<close> runs the thread
  from one point to the next, for whatever the mailbox, the stop flag and the channel are at that moment; between
  two ticks any other thread may act. The one-call model \<open>run_once\<close> of \<open>Worker\<close> is recovered by
  \<open>thread_refines_run_once\<close>.
\<close>

text \<open>The stages as functions on the rest of the world; they do not touch the mailbox.\<close>

record 'e work =
  wo_resolve :: "string \<Rightarrow> path option \<Rightarrow> 'e \<Rightarrow> resolution option \<times> 'e"
  wo_extract :: "path \<Rightarrow> mode \<Rightarrow> content_id \<Rightarrow> 'e \<Rightarrow> colors option \<times> 'e"
  wo_apply :: "colors \<Rightarrow> 'e \<Rightarrow> (ctl_error + unit) option \<times> 'e"
  wo_revert :: "'e \<Rightarrow> (ctl_error + unit) option \<times> 'e"

datatype point =
  AtGet
| AtStart job
| AtCheckRevert job
| AtRevert job
| AtCheckCover job path content_id
| AtExtract job path content_id
| AtCheckApply job path content_id colors
| AtApply job path content_id colors
| AtReport job_result
| Gone

record 'e thread =
  th_point :: point
  th_committed :: "committed option"
  th_env :: 'e

definition thread_new :: "committed option \<Rightarrow> 'e \<Rightarrow> 'e thread" where
  "thread_new initial_committed e = \<lparr>th_point = AtGet, th_committed = initial_committed, th_env = e\<rparr>"

definition ended :: "job \<Rightarrow> outcome \<Rightarrow> string option \<Rightarrow> point" where
  "ended j out cid = AtReport \<lparr>jr_generation = j_generation j, jr_outcome = out, jr_cover_id = cid\<rparr>"

abbreviation cover_key :: "job \<Rightarrow> content_id \<Rightarrow> committed" where
  "cover_key j cid \<equiv> CoverShown cid (d_mode (j_desired j))"

abbreviation revert_key :: "job \<Rightarrow> committed" where
  "revert_key j \<equiv> RevertTo (d_mode (j_desired j))"

text \<open>From the start of a job to its first look at the mailbox; a panic is reported as a retryable failure.\<close>

definition tick_start :: "'e work \<Rightarrow> job \<Rightarrow> 'e thread \<Rightarrow> 'e thread" where
  "tick_start W j th =
     (case d_target (j_desired j) of
        None \<Rightarrow>
          th\<lparr>th_point := if th_committed th = Some (revert_key j) then ended j SkippedDuplicate None else AtCheckRevert j\<rparr>
      | Some target \<Rightarrow>
          (case wo_resolve W (ct_art_url target) (ct_covers_dir target) (th_env th) of
             (r, e) \<Rightarrow>
               th\<lparr>th_env := e,
                  th_point := (case r of
                      None \<Rightarrow> ended j FailedRetryable None
                    | Some (Retryable _) \<Rightarrow> ended j FailedRetryable None
                    | Some (resolution.Rejected _) \<Rightarrow> ended j outcome.Rejected None
                    | Some (Ready p cid) \<Rightarrow>
                        if th_committed th = Some (cover_key j cid) then ended j SkippedDuplicate (Some (path_display p))
                        else AtCheckCover j p cid)\<rparr>))"

text \<open>The result of a ctl call: \<open>Some (Inr ())\<close> commits the key, anything else is a retryable failure.\<close>

definition tick_ctl ::
  "job \<Rightarrow> committed \<Rightarrow> string option \<Rightarrow> (ctl_error + unit) option \<times> 'e \<Rightarrow> 'e thread \<Rightarrow> 'e thread" where
  "tick_ctl j key cover_id out th =
     (case out of
        (Some (Inr _), e) \<Rightarrow>
          th\<lparr>th_env := e, th_committed := Some key, th_point := ended j Committed cover_id\<rparr>
      | (_, e) \<Rightarrow> th\<lparr>th_env := e, th_point := ended j FailedRetryable None\<rparr>)"

text \<open>The thread, the mailbox and the result sent, after one step. A thread that blocks is unchanged.\<close>

definition tick ::
  "'e work \<Rightarrow> bool \<Rightarrow> bool \<Rightarrow> mailbox \<Rightarrow> 'e thread \<Rightarrow> 'e thread \<times> mailbox \<times> job_result option" where
  "tick W stop room slot th =
     (let goto = (\<lambda>p. (th\<lparr>th_point := p\<rparr>, slot, None)) in
      case th_point th of
        AtGet \<Rightarrow>
          (case mailbox_get stop slot of
             (Block, _) \<Rightarrow> (th, slot, None)
           | (Return None, slot') \<Rightarrow> (th\<lparr>th_point := Gone\<rparr>, slot', None)
           | (Return (Some j), slot') \<Rightarrow> (th\<lparr>th_point := AtStart j\<rparr>, slot', None))
      | AtStart j \<Rightarrow> (tick_start W j th, slot, None)
      | AtCheckRevert j \<Rightarrow> goto (if superseded (j_generation j) slot then AtGet else AtRevert j)
      | AtRevert j \<Rightarrow> (tick_ctl j (revert_key j) None (wo_revert W (th_env th)) th, slot, None)
      | AtCheckCover j p cid \<Rightarrow> goto (if superseded (j_generation j) slot then AtGet else AtExtract j p cid)
      | AtExtract j p cid \<Rightarrow>
          (case wo_extract W p (d_mode (j_desired j)) cid (th_env th) of
             (None, e) \<Rightarrow> (th\<lparr>th_env := e, th_point := ended j FailedRetryable None\<rparr>, slot, None)
           | (Some cols, e) \<Rightarrow> (th\<lparr>th_env := e, th_point := AtCheckApply j p cid cols\<rparr>, slot, None))
      | AtCheckApply j p cid cols \<Rightarrow>
          goto (if superseded (j_generation j) slot then AtGet else AtApply j p cid cols)
      | AtApply j p cid cols \<Rightarrow>
          (tick_ctl j (cover_key j cid) (Some (path_display p)) (wo_apply W cols (th_env th)) th, slot, None)
      | AtReport r \<Rightarrow> (if room then (th\<lparr>th_point := AtGet\<rparr>, slot, Some r) else (th, slot, None))
      | Gone \<Rightarrow> (th, slot, None))"

subsection \<open>What the thread is working on\<close>

fun job_at :: "point \<Rightarrow> job option" where
  "job_at (AtStart j) = Some j"
| "job_at (AtCheckRevert j) = Some j"
| "job_at (AtRevert j) = Some j"
| "job_at (AtCheckCover j p cid) = Some j"
| "job_at (AtExtract j p cid) = Some j"
| "job_at (AtCheckApply j p cid cols) = Some j"
| "job_at (AtApply j p cid cols) = Some j"
| "job_at _ = None"

fun result_at :: "point \<Rightarrow> job_result option" where
  "result_at (AtReport r) = Some r"
| "result_at _ = None"

lemma ended_simps [simp]:
  "job_at (ended j out cid) = None"
  "result_at (ended j out cid) = Some \<lparr>jr_generation = j_generation j, jr_outcome = out, jr_cover_id = cid\<rparr>"
  "ended j out cid \<noteq> AtGet" "ended j out cid \<noteq> Gone"
  by (simp_all add: ended_def)

text \<open>Points on the way to a ctl call carry the kind of job they are for.\<close>

fun point_wf :: "point \<Rightarrow> bool" where
  "point_wf (AtCheckRevert j) = (d_target (j_desired j) = None)"
| "point_wf (AtRevert j) = (d_target (j_desired j) = None)"
| "point_wf (AtCheckCover j p cid) = (d_target (j_desired j) \<noteq> None)"
| "point_wf (AtExtract j p cid) = (d_target (j_desired j) \<noteq> None)"
| "point_wf (AtCheckApply j p cid cols) = (d_target (j_desired j) \<noteq> None)"
| "point_wf (AtApply j p cid cols) = (d_target (j_desired j) \<noteq> None)"
| "point_wf _ = True"

lemma point_wf_ended [simp]: "point_wf (ended j out cid)"
  by (simp add: ended_def)

lemma point_wf_start: "point_wf (th_point (tick_start W j th))"
  by (auto simp: tick_start_def split: prod.split option.split resolution.split)

lemma point_wf_ctl: "point_wf (th_point (tick_ctl j key cid out th))"
  by (auto simp: tick_ctl_def split: prod.split option.split sum.split)

lemma point_wf_tick: "point_wf (th_point th) \<Longrightarrow> point_wf (th_point (fst (tick W stop room slot th)))"
  by (cases "th_point th")
    (auto simp: tick_def Let_def point_wf_start point_wf_ctl split: prod.split poll.split option.split)

subsection \<open>A tick, by what it does\<close>

text \<open>
  The thread waits, takes the job in the slot, ends, moves within its job, drops it for a newer one in the slot, has
  its result, or sends it.
\<close>

definition waits :: "bool \<Rightarrow> bool \<Rightarrow> mailbox \<Rightarrow> point \<Rightarrow> bool" where
  "waits stop room slot p \<longleftrightarrow>
     p = Gone \<or> p = AtGet \<and> slot = None \<and> \<not> stop \<or> (\<exists>r. p = AtReport r) \<and> \<not> room"

lemma waits_tick: "waits stop room slot (th_point th) \<Longrightarrow> tick W stop room slot th = (th, slot, None)"
  by (auto simp: waits_def tick_def mailbox_get_def)

lemma tick_get:
  "th_point th = AtGet \<Longrightarrow>
     tick W stop room slot th =
       (if stop then (th\<lparr>th_point := Gone\<rparr>, None, None)
        else case slot of None \<Rightarrow> (th, None, None) | Some j \<Rightarrow> (th\<lparr>th_point := AtStart j\<rparr>, None, None))"
  by (auto simp: tick_def mailbox_get_def split: option.splits)

lemma tick_report:
  "th_point th = AtReport r \<Longrightarrow> room \<Longrightarrow> tick W stop room slot th = (th\<lparr>th_point := AtGet\<rparr>, slot, Some r)"
  by (simp add: tick_def)

text \<open>Within a job: the slot is only read, and the thread goes on, drops the job or ends it with a result of its own.\<close>

definition job_tick :: "job \<Rightarrow> mailbox \<Rightarrow> 'e thread \<Rightarrow> 'e thread \<Rightarrow> bool" where
  "job_tick j slot th th' \<longleftrightarrow>
     job_at (th_point th') = Some j \<and> th_committed th' = th_committed th \<or>
     th_point th' = AtGet \<and> th_committed th' = th_committed th \<and> superseded (j_generation j) slot \<or>
     (\<exists>r. th_point th' = AtReport r \<and> ends j (th_committed th) r (th_committed th'))"

lemma job_tick_start: "job_tick j slot th (tick_start W j th)"
  by (auto simp: tick_start_def job_tick_def ends_def ended_def key_of_job_def
      split: prod.split option.split resolution.split)

lemma job_tick_ctl:
  "key = key_of_job j cid' \<Longrightarrow> job_tick j slot th (tick_ctl j key cid out th)"
  by (cases cid') (auto simp: tick_ctl_def job_tick_def ends_def ended_def split: prod.split option.split sum.split)

lemma tick_job:
  assumes "job_at (th_point th) = Some j" and "point_wf (th_point th)"
  shows "job_tick j slot th (fst (tick W stop room slot th)) \<and> snd (tick W stop room slot th) = (slot, None)"
proof (cases "th_point th")
  case (AtStart k)
  with assms(1) show ?thesis by (simp add: tick_def Let_def job_tick_start)
next
  case (AtRevert k)
  with assms show ?thesis
    by (simp add: tick_def Let_def job_tick_ctl [of _ _ "(0, 0)"] key_of_job_def)
next
  case (AtApply k p cid cols)
  with assms show ?thesis
    by (simp add: tick_def Let_def job_tick_ctl [of _ _ cid] key_of_job_def)
qed (use assms in \<open>auto simp: tick_def Let_def job_tick_def ends_def ended_def split: prod.split option.split\<close>)

subsection \<open>How far the thread is from its next stop\<close>

text \<open>Once stopped, each step that does not wait takes the thread nearer to its end.\<close>

fun rank :: "point \<Rightarrow> nat" where
  "rank Gone = 0"
| "rank AtGet = 1"
| "rank (AtReport r) = 2"
| "rank (AtApply j p cid cols) = 3"
| "rank (AtRevert j) = 3"
| "rank (AtCheckApply j p cid cols) = 4"
| "rank (AtExtract j p cid) = 5"
| "rank (AtCheckCover j p cid) = 6"
| "rank (AtCheckRevert j) = 6"
| "rank (AtStart j) = 7"

lemma rank_ended [simp]: "rank (ended j out cid) = 2"
  by (simp add: ended_def)

lemma rank_start: "rank (th_point (tick_start W j th)) < 7"
  by (auto simp: tick_start_def split: prod.split option.split resolution.split)

lemma rank_ctl: "rank (th_point (tick_ctl j key cid out th)) < 3"
  by (auto simp: tick_ctl_def split: prod.split option.split sum.split)

lemma rank_tick:
  assumes "\<not> waits stop room slot (th_point th)" and "stop \<or> th_point th \<noteq> AtGet"
  shows "rank (th_point (fst (tick W stop room slot th))) < rank (th_point th)"
  using assms
  by (cases "th_point th")
    (auto simp: tick_def Let_def waits_def mailbox_get_def rank_start rank_ctl simp del: split_paired_All split: prod.split option.split)

subsection \<open>Refinement of the one-call worker\<close>

text \<open>
  \<open>ticks W stop room slots n th\<close>: \<open>n\<close> steps with the mailbox as \<open>slots i\<close> at step \<open>i\<close>, that is with any
  interleaving of the coordinator; without room in the channel a result stays in the thread. \<open>interfered\<close> are stages in the sense of
  \<open>run_once\<close> during which the mailbox changes as it does at the steps that read it.
\<close>

primrec ticks :: "'e work \<Rightarrow> bool \<Rightarrow> bool \<Rightarrow> (nat \<Rightarrow> mailbox) \<Rightarrow> nat \<Rightarrow> 'e thread \<Rightarrow> 'e thread" where
  "ticks W stop room slots 0 th = th"
| "ticks W stop room slots (Suc n) th = ticks W stop room (slots \<circ> Suc) n (fst (tick W stop room (slots 0) th))"

definition on_env :: "mailbox \<Rightarrow> ('e \<Rightarrow> 'r \<times> 'e) \<Rightarrow> 'e shared \<Rightarrow> 'r \<times> 'e shared" where
  "on_env slot f sh = (case f (sh_env sh) of (r, e) \<Rightarrow> (r, sh\<lparr>sh_slot := slot, sh_env := e\<rparr>))"

definition interfered :: "'e work \<Rightarrow> (nat \<Rightarrow> mailbox) \<Rightarrow> 'e stages" where
  "interfered W slots =
     \<lparr>st_resolve = (\<lambda>u d. on_env (slots 1) (wo_resolve W u d)),
      st_extract = (\<lambda>p m cid. on_env (slots 3) (wo_extract W p m cid)),
      st_apply = (\<lambda>cols. on_env (slots 3) (wo_apply W cols)),
      st_revert = on_env (slots 1) (wo_revert W)\<rparr>"

definition point_of :: "job \<Rightarrow> job_result option option \<Rightarrow> point" where
  "point_of j r =
     (case r of
        None \<Rightarrow> ended j FailedRetryable None
      | Some None \<Rightarrow> AtGet
      | Some (Some x) \<Rightarrow> AtReport x)"

definition thread_of :: "job \<Rightarrow> 'e run_result \<Rightarrow> 'e thread" where
  "thread_of j out =
     (case out of (r, lc, sh) \<Rightarrow> \<lparr>th_point = point_of j r, th_committed = lc, th_env = sh_env sh\<rparr>)"

lemma tick_stays: "(\<exists>r. th_point th = AtReport r) \<Longrightarrow> fst (tick W stop False slot th) = th"
  by (auto simp: tick_def)

lemma ticks_stay: "\<exists>r. th_point th = AtReport r \<Longrightarrow> ticks W stop False slots n th = th"
  by (induction n arbitrary: slots) (simp_all add: tick_stays)

lemma job_done_point: "point_of j (job_done j out cid) = ended j out cid"
  by (simp add: point_of_def job_done_def ended_def)

lemma ended_report: "\<exists>r. ended j out cid = AtReport r"
  by (simp add: ended_def)

lemma point_of_simps [simp]:
  "point_of j None = ended j FailedRetryable None" "point_of j (Some None) = AtGet"
  "point_of j (Some (Some r)) = AtReport r"
  by (simp_all add: point_of_def)

text \<open>Each phase of a job, with the number of steps it takes.\<close>

lemma refine_revert:
  assumes "d_target (j_desired j) = None"
  shows "\<exists>n\<le>5. ticks W False False slots n \<lparr>th_point = AtStart j, th_committed = lc, th_env = e\<rparr> =
     thread_of j (run_once (interfered W slots) j lc \<lparr>sh_slot = slots 1, sh_stop = False, sh_env = e\<rparr>)"
    (is "\<exists>n\<le>5. ticks W False False slots n ?th = ?out")
proof -
  consider (skip) "lc = Some (revert_key j)"
    | (drop) "lc \<noteq> Some (revert_key j)" "superseded (j_generation j) (slots 1)"
    | (go) "lc \<noteq> Some (revert_key j)" "\<not> superseded (j_generation j) (slots 1)" by blast
  then show ?thesis
  proof cases
    case skip
    with assms have "ticks W False False slots 1 ?th = ?out"
      by (simp add: tick_def tick_start_def run_once_def run_revert_def thread_of_def job_done_point Let_def)
    then show ?thesis by (intro exI [of _ "1::nat"]) simp
  next
    case drop
    with assms have "ticks W False False slots 2 ?th = ?out"
      by (simp add: tick_def tick_start_def run_once_def run_revert_def thread_of_def point_of_def Let_def
          numeral_2_eq_2)
    then show ?thesis by (intro exI [of _ "2::nat"]) simp
  next
    case go
    with assms have "ticks W False False slots 3 ?th = ?out"
      by (auto simp: tick_def tick_start_def tick_ctl_def run_once_def run_revert_def thread_of_def Let_def
          interfered_def on_env_def job_done_point numeral_3_eq_3
          split: prod.split option.split sum.split)
    then show ?thesis by (intro exI [of _ "3::nat"]) simp
  qed
qed

lemmas run_unfold = tick_def tick_start_def run_once_def run_cover_def thread_of_def Let_def interfered_def on_env_def
  job_done_point

lemma refine_cover:
  assumes t: "d_target (j_desired j) = Some t"
  shows "\<exists>n\<le>5. ticks W False False slots n \<lparr>th_point = AtStart j, th_committed = lc, th_env = e\<rparr> =
     thread_of j (run_once (interfered W slots) j lc \<lparr>sh_slot = slots 1, sh_stop = False, sh_env = e\<rparr>)"
    (is "\<exists>n\<le>5. ticks W False False slots n ?th = ?out")
proof -
  obtain r e1 where r: "wo_resolve W (ct_art_url t) (ct_covers_dir t) e = (r, e1)" by fastforce
  show ?thesis
  proof (cases "\<exists>p cid. r = Some (Ready p cid) \<and> lc \<noteq> Some (cover_key j cid)")
    case False
    with t r have "ticks W False False slots 1 ?th = ?out"
      by (simp add: run_unfold split: option.split resolution.split)
    then show ?thesis by (intro exI [of _ "1::nat"]) simp
  next
    case True
    then obtain p cid where ready: "r = Some (Ready p cid)" "lc \<noteq> Some (cover_key j cid)" by blast
    obtain x e2 where x: "wo_extract W p (d_mode (j_desired j)) cid e1 = (x, e2)" by fastforce
    consider (drop) "superseded (j_generation j) (slots 1)"
      | (panic) "\<not> superseded (j_generation j) (slots 1)" "x = None"
      | (late) cols where "\<not> superseded (j_generation j) (slots 1)" "x = Some cols" "superseded (j_generation j) (slots 3)"
      | (go) cols where "\<not> superseded (j_generation j) (slots 1)" "x = Some cols" "\<not> superseded (j_generation j) (slots 3)"
      by blast
    then show ?thesis
    proof cases
      case drop
      with t r ready have "ticks W False False slots 2 ?th = ?out"
        by (simp add: run_unfold numeral_2_eq_2)
      then show ?thesis by (intro exI [of _ "2::nat"]) simp
    next
      case panic
      with t r ready x have "ticks W False False slots 3 ?th = ?out"
        by (simp add: run_unfold numeral_3_eq_3)
      then show ?thesis by (intro exI [of _ "3::nat"]) simp
    next
      case late
      with t r ready x have "ticks W False False slots 4 ?th = ?out"
        by (simp add: run_unfold eval_nat_numeral)
      then show ?thesis by (intro exI [of _ "4::nat"]) simp
    next
      case go
      with t r ready x have "ticks W False False slots 5 ?th = ?out"
        by (simp add: run_unfold eval_nat_numeral tick_ctl_def split: prod.split option.split sum.split)
      then show ?thesis by (intro exI [of _ "5::nat"]) simp
    qed
  qed
qed


subsection \<open>A stopped thread\<close>

lemma stopped_rank:
  "rank (th_point (ticks W True True slots n th)) \<le> rank (th_point th) - n"
proof (induction n arbitrary: slots th)
  case 0
  then show ?case by simp
next
  case (Suc n)
  let ?th = "fst (tick W True True (slots 0) th)"
  have "rank (th_point ?th) \<le> rank (th_point th) - 1"
    using rank_tick [of True True "slots 0" th W]
    by (cases "th_point th = Gone") (auto simp: waits_def tick_def)
  with Suc.IH [of "slots \<circ> Suc" ?th] show ?case unfolding ticks.simps by linarith
qed

lemma rank_le: "rank p \<le> 7"
  by (cases p) simp_all

lemma rank_Gone: "rank p = 0 \<longleftrightarrow> p = Gone"
  by (cases p) simp_all

text \<open>C21. Worker, stop: as long as the channel has room, a thread told to stop has ended after at most seven steps,
  wherever it was and whatever is put on the mailbox meanwhile.\<close>

theorem stopped_thread_ends: "th_point (ticks W True True slots 7 th) = Gone"
  using stopped_rank [of W slots 7 th] rank_le [of "th_point th"] by (simp add: rank_Gone [symmetric])

subsection \<open>What the display shows\<close>

text \<open>The stages as in \<open>faithful_stages\<close> of \<open>Worker\<close>, on the rest of the world only.\<close>

definition faithful_work :: "'e work \<Rightarrow> ('e \<Rightarrow> display) \<Rightarrow> (content_id \<Rightarrow> mode \<Rightarrow> colors) \<Rightarrow> bool" where
  "faithful_work W shown palette \<longleftrightarrow>
     (\<forall>u d e. shown (snd (wo_resolve W u d e)) = shown e) \<and>
     (\<forall>p m cid e. shown (snd (wo_extract W p m cid e)) = shown e \<and>
        (\<forall>c. fst (wo_extract W p m cid e) = Some c \<longrightarrow> c = palette cid m)) \<and>
     (\<forall>c e. shown (snd (wo_apply W c e)) =
        (case fst (wo_apply W c e) of Some (Inr _) \<Rightarrow> Showing c | _ \<Rightarrow> shown e)) \<and>
     (\<forall>e. shown (snd (wo_revert W e)) = (case fst (wo_revert W e) of Some (Inr _) \<Rightarrow> Preset | _ \<Rightarrow> shown e))"

lemma faithful_apply:
  "faithful_work W shown palette \<Longrightarrow>
     shown (snd (wo_apply W c e)) = (case fst (wo_apply W c e) of Some (Inr _) \<Rightarrow> Showing c | _ \<Rightarrow> shown e)"
  unfolding faithful_work_def by blast

fun colors_ok :: "(content_id \<Rightarrow> mode \<Rightarrow> colors) \<Rightarrow> point \<Rightarrow> bool" where
  "colors_ok palette (AtCheckApply j p cid cols) = (cols = palette cid (d_mode (j_desired j)))"
| "colors_ok palette (AtApply j p cid cols) = (cols = palette cid (d_mode (j_desired j)))"
| "colors_ok palette _ = True"

definition display_ok :: "('e \<Rightarrow> display) \<Rightarrow> (content_id \<Rightarrow> mode \<Rightarrow> colors) \<Rightarrow> 'e thread \<Rightarrow> bool" where
  "display_ok shown palette th \<longleftrightarrow>
     colors_ok palette (th_point th) \<and>
     (\<forall>key. th_committed th = Some key \<longrightarrow> shown (th_env th) = display_of palette key)"

lemma colors_ended [simp]: "colors_ok palette (ended j out cid)"
  by (simp add: ended_def)

lemma display_start:
  assumes "faithful_work W shown palette" "display_ok shown palette th"
  shows "display_ok shown palette (tick_start W j th)"
proof -
  have "shown (snd (wo_resolve W u d e)) = shown e" for u d e
    using assms(1) by (simp add: faithful_work_def)
  then have "wo_resolve W u d e = (r, e') \<Longrightarrow> shown e' = shown e" for u d e r e' by (metis snd_conv)
  with assms(2) show ?thesis
    by (auto simp: tick_start_def display_ok_def split: prod.split option.split resolution.split)
qed

lemma display_ctl:
  assumes "shown (snd out) = (case fst out of Some (Inr _) \<Rightarrow> display_of palette key | _ \<Rightarrow> shown (th_env th))"
    and "display_ok shown palette th"
  shows "display_ok shown palette (tick_ctl j key cid out th)"
  using assms by (auto simp: tick_ctl_def display_ok_def split: prod.split option.split sum.split)

lemma display_goto: "display_ok shown palette th \<Longrightarrow> colors_ok palette p \<Longrightarrow> display_ok shown palette (th\<lparr>th_point := p\<rparr>)"
  by (simp add: display_ok_def)

lemma display_tick:
  assumes f: "faithful_work W shown palette" and ok: "display_ok shown palette th"
  shows "display_ok shown palette (fst (tick W stop room slot th))"
proof (cases "th_point th")
  case AtGet
  with ok show ?thesis by (auto simp: tick_get display_goto split: option.split)
next
  case (AtStart j)
  with display_start [OF f ok] show ?thesis by (simp add: tick_def)
next
  case (AtRevert j)
  have "display_ok shown palette (tick_ctl j (revert_key j) None (wo_revert W (th_env th)) th)"
    using f by (intro display_ctl [OF _ ok]) (simp add: faithful_work_def split: option.split sum.split)
  with AtRevert show ?thesis by (simp add: tick_def)
next
  case (AtExtract j p cid)
  obtain x e where x: "wo_extract W p (d_mode (j_desired j)) cid (th_env th) = (x, e)" by fastforce
  have e: "shown e = shown (th_env th)" "\<And>c. x = Some c \<Longrightarrow> c = palette cid (d_mode (j_desired j))"
    using f x unfolding faithful_work_def by (metis fst_conv snd_conv)+
  have "display_ok shown palette (th\<lparr>th_env := e, th_point := q\<rparr>)" if "colors_ok palette q" for q
    using ok e(1) that by (simp add: display_ok_def)
  with AtExtract x e(2) show ?thesis by (auto simp: tick_def split: option.split)
next
  case (AtApply j p cid cols)
  with ok have "cols = palette cid (d_mode (j_desired j))" by (simp add: display_ok_def)
  then have "display_ok shown palette (tick_ctl j (cover_key j cid) (Some (path_display p)) (wo_apply W cols (th_env th)) th)"
    using f by (intro display_ctl [OF _ ok]) (simp add: faithful_apply split: option.split sum.split)
  with AtApply show ?thesis by (simp add: tick_def)
qed (use ok in \<open>auto simp: tick_def display_ok_def\<close>)

end
