(* ===== verification/System.thy ===== *)
theory System
  imports Handover Thread
begin

text \<open>
  The running daemon as one system (\<open>src/daemon.rs\<close>): the event loop driving the coordinator, the worker thread, the
  mailbox between them and the bounded event channel on which every producer, the worker included, reports. The
  mailbox slot, the worker's liveness and the clock are those of the coordinator's host. One step is one handler, one
  tick of the worker, one event produced or the clock running; all interleavings are covered.
\<close>

text \<open>Where the main thread is: in \<open>run_loop\<close> (waiting, or after a handler), or in the shutdown that follows it.\<close>

datatype phase = Looping | Handled | Quit loop_exit | Begun | Emptied | Joining

text \<open>\<open>sy_adopted\<close> is a history: the results adopted under the generation they carry.\<close>

record 'e system =
  sy_coord :: coord
  sy_phase :: phase
  sy_queue :: "event list"
  sy_stop :: bool
  sy_thread :: "'e thread"
  sy_adopted :: "job_result list"

abbreviation sy_slot :: "'e system \<Rightarrow> mailbox" where
  "sy_slot s \<equiv> rh_slot (c_host (sy_coord s))"

abbreviation sy_alive :: "'e system \<Rightarrow> bool" where
  "sy_alive s \<equiv> rh_alive (c_host (sy_coord s))"

abbreviation sy_generation :: "'e system \<Rightarrow> nat" where
  "sy_generation s \<equiv> c_generation (sy_coord s)"

definition sys_init ::
  "64 word \<Rightarrow> instant \<Rightarrow> (string \<Rightarrow> path option) \<Rightarrow> mode \<Rightarrow> string \<Rightarrow> committed option \<Rightarrow> 'e \<Rightarrow> 'e system" where
  "sys_init seed now dir_for m allowed lc e =
     \<lparr>sy_coord = coordinator_new (runtime_host_new mailbox_new True seed now) dir_for m allowed,
      sy_phase = Looping, sy_queue = [], sy_stop = False, sy_thread = thread_new lc e, sy_adopted = []\<rparr>"

definition sys_host :: "(runtime_host \<Rightarrow> runtime_host) \<Rightarrow> 'e system \<Rightarrow> 'e system" where
  "sys_host f s = s\<lparr>sy_coord := (sy_coord s)\<lparr>c_host := f (c_host (sy_coord s))\<rparr>\<rparr>"

text \<open>\<open>adopt\<close> acts on a result exactly when this holds.\<close>

definition adopts :: "coord \<Rightarrow> event \<Rightarrow> job_result list" where
  "adopts c e =
     (case e of
        WorkerDone r \<Rightarrow> if \<not> c_stopping c \<and> jr_generation r = c_generation c then [r] else []
      | _ \<Rightarrow> [])"

definition sys_deliver :: "event \<Rightarrow> event list \<Rightarrow> 'e system \<Rightarrow> 'e system" where
  "sys_deliver e q s =
     (case dispatch (NextEvent e) (sy_coord s) of
        Inl x \<Rightarrow> s\<lparr>sy_queue := q, sy_phase := Quit x\<rparr>
      | Inr c \<Rightarrow>
          s\<lparr>sy_queue := q, sy_phase := Handled, sy_coord := c, sy_adopted := sy_adopted s @ adopts (sy_coord s) e\<rparr>)"

definition sys_fire :: "'e system \<Rightarrow> 'e system" where
  "sys_fire s =
     (let c = fire_due_timer (sy_coord s)
      in s\<lparr>sy_coord := c, sy_phase := (if rh_worker_dead (c_host c) then Quit ExitWorkerDied else Looping)\<rparr>)"

definition has_room :: "event list \<Rightarrow> bool" where
  "has_room q \<longleftrightarrow> length q < EVENT_QUEUE"

definition sys_tick :: "'e work \<Rightarrow> 'e system \<Rightarrow> 'e system" where
  "sys_tick W s =
     (case tick W (sy_stop s) (has_room (sy_queue s)) (sy_slot s) (sy_thread s) of
        (th, slot, sent) \<Rightarrow>
          (sys_host (\<lambda>h. h\<lparr>rh_slot := slot, rh_alive := rh_alive h \<and> th_point th \<noteq> Gone\<rparr>) s)
            \<lparr>sy_thread := th, sy_queue := sy_queue s @ (case sent of None \<Rightarrow> [] | Some r \<Rightarrow> [WorkerDone r])\<rparr>)"

definition sys_crash :: "'e system \<Rightarrow> 'e system" where
  "sys_crash s = (sys_host (\<lambda>h. h\<lparr>rh_alive := False\<rparr>) s)\<lparr>sy_thread := (sy_thread s)\<lparr>th_point := Gone\<rparr>\<rparr>"

definition is_result :: "event \<Rightarrow> bool" where
  "is_result e = (case e of WorkerDone r \<Rightarrow> True | _ \<Rightarrow> False)"

inductive sys_step :: "'e work \<Rightarrow> 'e system \<Rightarrow> 'e system \<Rightarrow> bool" for W where
  produce: "\<not> is_result e \<Longrightarrow> has_room (sy_queue s) \<Longrightarrow> sys_step W s (s\<lparr>sy_queue := sy_queue s @ [e]\<rparr>)"
| deliver: "sy_phase s = Looping \<Longrightarrow> sy_queue s = e # q \<Longrightarrow> sys_step W s (sys_deliver e q s)"
| timeout: "sy_phase s = Looping \<Longrightarrow> sy_queue s = [] \<Longrightarrow> overdue (sy_coord s) \<Longrightarrow>
    sys_step W s (s\<lparr>sy_phase := Handled\<rparr>)"
| fire: "sy_phase s = Handled \<Longrightarrow> sys_step W s (sys_fire s)"
| clock: "rh_clock (c_host (sy_coord s)) \<le> t \<Longrightarrow> sys_step W s (sys_host (\<lambda>h. h\<lparr>rh_clock := t\<rparr>) s)"
| worker: "sys_step W s (sys_tick W s)"
| shut: "sy_phase s = Quit ExitShutdown \<Longrightarrow>
    sys_step W s (s\<lparr>sy_coord := begin_shutdown runtime_ops (sy_coord s), sy_phase := Begun\<rparr>)"
| drain: "sy_phase s = Begun \<Longrightarrow>
    sys_step W s ((sys_host (\<lambda>h. h\<lparr>rh_slot := mailbox_clear (rh_slot h)\<rparr>) s)\<lparr>sy_phase := Emptied\<rparr>)"
| join: "sy_phase s = Emptied \<or> (\<exists>x. sy_phase s = Quit x \<and> x \<noteq> ExitShutdown) \<Longrightarrow>
    sys_step W s (s\<lparr>sy_stop := True, sy_phase := Joining\<rparr>)"

text \<open>The thread may also die at any moment, by a panic the per-job backstop does not catch.\<close>

inductive sys_reach :: "'e work \<Rightarrow> 'e system \<Rightarrow> 'e system \<Rightarrow> bool" for W s\<^sub>0 where
  start: "sys_reach W s\<^sub>0 s\<^sub>0"
| step: "sys_reach W s\<^sub>0 s \<Longrightarrow> sys_step W s s' \<Longrightarrow> sys_reach W s\<^sub>0 s'"
| crash: "sys_reach W s\<^sub>0 s \<Longrightarrow> sys_reach W s\<^sub>0 (sys_crash s)"

inductive_cases sys_stepE [consumes 1, case_names produce deliver timeout fire clock worker shut drain join]:
  "sys_step W s s'"

subsection \<open>One delivery and one look at the timer are one iteration of the loop\<close>

text \<open>\<open>Receiver<Event>\<close> as an event source: the head of the channel, or a timeout.\<close>

definition receiver :: "event list source" where
  "receiver t q h = (case q of [] \<Rightarrow> (NextTimeout, [], h) | e # q' \<Rightarrow> (NextEvent e, q', h))"

lemma sys_loop_step:
  assumes "sy_queue s = e # q" and "dispatch (NextEvent e) (sy_coord s) = Inr c'"
  shows "loop_step receiver (sy_queue s) (sy_coord s) =
     (let s' = sys_fire (sys_deliver e q s) in
      (case sy_phase s' of Quit x \<Rightarrow> Some x | _ \<Rightarrow> None, sy_queue s', sy_coord s'))"
  using assms by (simp add: loop_step_def receiver_def sys_deliver_def sys_fire_def Let_def)

end
