(* ===== verification/System_Props.thy ===== *)
theory System_Props
  imports System
begin

text \<open>
  The system refines the handover protocol of \<open>Protocol\<close> as long as the loop runs and the worker lives, so what was
  submitted is not lost, the mailbox never holds a stale job, and a success the coordinator adopted is what the
  display shows. A full channel with nobody reading it is the one way a stopped worker does not end.
\<close>

definition running :: "'e system \<Rightarrow> bool" where
  "running s \<longleftrightarrow> sy_phase s = Looping \<or> sy_phase s = Handled"

primrec results_of :: "event list \<Rightarrow> job_result list" where
  "results_of [] = []"
| "results_of (e # es) = (case e of WorkerDone r \<Rightarrow> r # results_of es | _ \<Rightarrow> results_of es)"

lemma results_of_append [simp]: "results_of (es @ es') = results_of es @ results_of es'"
  by (induction es) (simp_all split: event.split)

lemma results_of_other [simp]: "\<not> is_result e \<Longrightarrow> (case e of WorkerDone r \<Rightarrow> r # rs | _ \<Rightarrow> rs) = rs"
  by (simp add: is_result_def split: event.splits)

definition opt_list :: "'a option \<Rightarrow> 'a list" where
  "opt_list x = (case x of None \<Rightarrow> [] | Some y \<Rightarrow> [y])"

lemma opt_list_simps [simp]: "opt_list None = []" "opt_list (Some y) = [y]"
  by (simp_all add: opt_list_def)

definition protocol_of :: "'e system \<Rightarrow> protocol" where
  "protocol_of s =
     \<lparr>pr_generation = sy_generation s, pr_desired = c_last_desired (sy_coord s), pr_slot = sy_slot s,
      pr_job = job_at (th_point (sy_thread s)), pr_committed = th_committed (sy_thread s),
      pr_results = sy_adopted s @ results_of (sy_queue s) @ opt_list (result_at (th_point (sy_thread s)))\<rparr>"

subsection \<open>What holds in every state\<close>

definition sys_wf :: "'e system \<Rightarrow> bool" where
  "sys_wf s \<longleftrightarrow>
     retry_wf (sy_coord s) \<and> point_wf (th_point (sy_thread s)) \<and>
     (running s \<longrightarrow> \<not> c_stopping (sy_coord s) \<and> \<not> sy_stop s)"

lemma coord_steps_wf: "coord_steps c c' \<Longrightarrow> retry_wf c \<Longrightarrow> retry_wf c'"
  by (induction rule: coord_steps.induct) (auto intro: retry_wf_step)

lemma dispatch_wf: "dispatch nx c = Inr c' \<Longrightarrow> retry_wf c \<Longrightarrow> retry_wf c'"
  by (rule coord_steps_wf [OF dispatch_steps])

lemma fire_due_wf: "retry_wf c \<Longrightarrow> retry_wf (fire_due_timer c)"
  by (rule coord_steps_wf [OF fire_due_steps])

text \<open>Only \<open>begin_shutdown\<close> sets \<open>stopping\<close>.\<close>

lemma on_line_stopping [simp]: "c_stopping (on_line H l c) = c_stopping c"
  by (auto simp: on_line_def accept_line_def Let_def split: list.split option.split)

lemma on_vanish_stopping [simp]: "c_stopping (on_vanish H b c) = c_stopping c"
  by (auto simp: on_vanish_def split: option.split)

lemma on_scheme_stopping [simp]: "c_stopping (on_scheme H v c) = c_stopping c"
  by (auto simp: on_scheme_def Let_def split: option.split selection.split)

lemma fire_retry_stopping [simp]: "c_stopping (fire_retry H c) = c_stopping c"
  by (auto simp: fire_retry_def Let_def split: option.split)

lemma dispatch_stopping: "dispatch nx c = Inr c' \<Longrightarrow> c_stopping c' = c_stopping c"
  by (auto simp: dispatch_def split: arrival.splits event.splits)

lemma fire_due_stopping [simp]: "c_stopping (fire_due_timer c) = c_stopping c"
  by (auto simp: fire_due_timer_def split: option.split)

lemma sys_host_simps [simp]:
  "sy_phase (sys_host f s) = sy_phase s" "sy_queue (sys_host f s) = sy_queue s" "sy_stop (sys_host f s) = sy_stop s"
  "sy_thread (sys_host f s) = sy_thread s" "sy_adopted (sys_host f s) = sy_adopted s"
  "sy_coord (sys_host f s) = (sy_coord s)\<lparr>c_host := f (c_host (sy_coord s))\<rparr>"
  by (simp_all add: sys_host_def)

text \<open>A tick, field by field.\<close>

lemma sys_tick_simps [simp]:
  "sy_phase (sys_tick W s) = sy_phase s" "sy_stop (sys_tick W s) = sy_stop s" "sy_adopted (sys_tick W s) = sy_adopted s"
  "sy_thread (sys_tick W s) = fst (tick W (sy_stop s) (has_room (sy_queue s)) (sy_slot s) (sy_thread s))"
  "sy_queue (sys_tick W s) = sy_queue s @ map WorkerDone
     (opt_list (snd (snd (tick W (sy_stop s) (has_room (sy_queue s)) (sy_slot s) (sy_thread s)))))"
  "sy_slot (sys_tick W s) = fst (snd (tick W (sy_stop s) (has_room (sy_queue s)) (sy_slot s) (sy_thread s)))"
  "sy_alive (sys_tick W s) \<longleftrightarrow> sy_alive s \<and> th_point (sy_thread (sys_tick W s)) \<noteq> Gone"
  "retry_wf (sy_coord (sys_tick W s)) = retry_wf (sy_coord s)"
  "c_stopping (sy_coord (sys_tick W s)) = c_stopping (sy_coord s)"
  "sy_generation (sys_tick W s) = sy_generation s"
  "c_last_desired (sy_coord (sys_tick W s)) = c_last_desired (sy_coord s)"
  by (auto simp: sys_tick_def opt_list_def split: prod.split option.split)

lemma sys_crash_simps [simp]:
  "sy_phase (sys_crash s) = sy_phase s" "sy_stop (sys_crash s) = sy_stop s" "\<not> sy_alive (sys_crash s)"
  "th_point (sy_thread (sys_crash s)) = Gone" "c_stopping (sy_coord (sys_crash s)) = c_stopping (sy_coord s)"
  "retry_wf (sy_coord (sys_crash s)) = retry_wf (sy_coord s)"
  by (simp_all add: sys_crash_def)

lemma sys_wf_init: "sys_wf (sys_init seed now dir_for m allowed lc e)"
  by (simp add: sys_wf_def sys_init_def thread_new_def retry_wf_new) (simp add: coordinator_new_def)

lemma sys_wf_step:
  assumes wf: "sys_wf s" and st: "sys_step W s s'" shows "sys_wf s'"
  using st
proof (cases rule: sys_stepE)
  case (deliver e q)
  show ?thesis
  proof (cases "dispatch (NextEvent e) (sy_coord s)")
    case (Inl x)
    with deliver wf show ?thesis by (simp add: sys_deliver_def sys_wf_def running_def)
  next
    case (Inr c)
    with deliver wf dispatch_wf [OF Inr] dispatch_stopping [OF Inr] show ?thesis
      by (simp add: sys_deliver_def sys_wf_def running_def)
  qed
next
  case fire
  with wf fire_due_wf show ?thesis by (simp add: sys_fire_def Let_def sys_wf_def running_def)
next
  case worker
  with wf show ?thesis by (simp add: sys_wf_def running_def point_wf_tick)
next
  case shut
  with wf show ?thesis by (simp add: sys_wf_def running_def retry_wf_shutdown)
qed (use wf in \<open>auto simp: sys_wf_def running_def\<close>)

lemma sys_wf_crash: "sys_wf s \<Longrightarrow> sys_wf (sys_crash s)"
  by (simp add: sys_wf_def running_def)

lemma sys_wf_reach: "sys_reach W s\<^sub>0 s \<Longrightarrow> sys_wf s\<^sub>0 \<Longrightarrow> sys_wf s"
  by (induction rule: sys_reach.induct) (auto intro: sys_wf_step sys_wf_crash)

subsection \<open>Simulation\<close>

abbreviation live :: "'e system \<Rightarrow> bool" where
  "live s \<equiv> running s \<and> sy_alive s"

lemma dispatch_handed: "dispatch nx c = Inr c' \<Longrightarrow> retry_wf c \<Longrightarrow> rt_live.handed c c'"
  by (auto simp: dispatch_def split: arrival.splits event.splits intro: rt_live.handed_refl rt_live.handed_intros)

lemma fire_due_handed:
  assumes "retry_wf c" shows "rt_live.handed c (fire_due_timer c)"
proof -
  have "rt_live.handed c (fire_retry runtime_ops (c\<lparr>c_host := (c_host c)\<lparr>rh_timer := None\<rparr>\<rparr>))"
    by (rule rt_live.handed_cong [OF _ _ _ _ rt_live.handed_fire]) (simp_all add: assms)
  then show ?thesis by (auto simp: fire_due_timer_def rt_live.handed_refl split: option.split)
qed

text \<open>A handler of the coordinator is a \<open>submit\<close> of the protocol, or nothing.\<close>

definition coord_part :: "coord \<Rightarrow> protocol \<Rightarrow> protocol" where
  "coord_part c p =
     p\<lparr>pr_generation := c_generation c, pr_desired := c_last_desired c, pr_slot := rh_slot (c_host c)\<rparr>"

lemma handed_protocol:
  assumes "rt_live.handed c c'" and "rh_alive (c_host c)"
  shows "coord_part c' p = coord_part c p \<or> protocol_step (coord_part c p) (coord_part c' p)"
proof (cases "rt_live.kept c c'")
  case True
  then show ?thesis by (simp add: rt_live.kept_def coord_part_def)
next
  case False
  with assms have "rt_live.submitted c c'" by (simp add: rt_live.handed_def)
  then obtain d where d: "c_generation c \<le> c_generation c'"
    "c_generation c' = c_generation c \<longrightarrow> c_last_desired c = Some d" "c_last_desired c' = Some d"
    "rh_slot (c_host c') = Some \<lparr>j_generation = c_generation c', j_desired = d\<rparr>"
    using assms(2) by (auto simp: rt_live.submitted_def)
  have "protocol_step (coord_part c p) ((coord_part c p)\<lparr>pr_generation := c_generation c', pr_desired := Some d,
      pr_slot := Some \<lparr>j_generation = c_generation c', j_desired = d\<rparr>\<rparr>)"
    using d by (intro protocol_step.submit) (simp_all add: coord_part_def)
  with d show ?thesis by (simp add: coord_part_def)
qed

lemma handed_alive: "rt_live.handed c c' \<Longrightarrow> rh_alive (c_host c') = rh_alive (c_host c)"
  by (simp add: rt_live.handed_def)

lemma dispatch_stale:
  assumes "dispatch (NextEvent (WorkerDone r)) c = Inr c'" and "\<not> c_stopping c" and "adopts c (WorkerDone r) = []"
  shows "c' = c" and "jr_generation r \<noteq> c_generation c"
  using assms by (auto simp: dispatch_def adopts_def adopt_def split: if_splits)

lemma sim_deliver:
  assumes wf: "sys_wf s" and live: "running s" "sy_alive s" and ph: "running (sys_deliver e q s)"
    and queue: "sy_queue s = e # q"
  shows "protocol_of (sys_deliver e q s) = protocol_of s \<or> protocol_step (protocol_of s) (protocol_of (sys_deliver e q s))"
proof (cases "dispatch (NextEvent e) (sy_coord s)")
  case (Inl x)
  with ph show ?thesis by (simp add: sys_deliver_def running_def)
next
  case (Inr c)
  have h: "rt_live.handed (sy_coord s) c" using dispatch_handed [OF Inr] wf by (simp add: sys_wf_def)
  show ?thesis
  proof (cases "\<exists>r. e = WorkerDone r \<and> adopts (sy_coord s) e = []")
    case True
    then obtain r where r: "e = WorkerDone r" "adopts (sy_coord s) e = []" by blast
    have c: "c = sy_coord s" "jr_generation r \<noteq> sy_generation s"
      using dispatch_stale [of r "sy_coord s" c] Inr r wf live by (simp_all add: sys_wf_def)
    define bs where "bs = results_of q @ opt_list (result_at (th_point (sy_thread s)))"
    have "protocol_step (protocol_of s) ((protocol_of s)\<lparr>pr_results := sy_adopted s @ bs\<rparr>)"
      using queue r(1) c(2) by (intro protocol_step.discard [where r = r]) (simp_all add: protocol_of_def bs_def)
    moreover have "protocol_of (sys_deliver e q s) = (protocol_of s)\<lparr>pr_results := sy_adopted s @ bs\<rparr>"
      using Inr c(1) r(2) by (simp add: sys_deliver_def protocol_of_def bs_def)
    ultimately show ?thesis by simp
  next
    case False
    then have res: "adopts (sy_coord s) e @ results_of q = results_of (e # q)"
      by (auto simp: adopts_def split: event.splits if_splits)
    have "protocol_of s = coord_part (sy_coord s) (protocol_of s)"
      by (simp add: protocol_of_def coord_part_def)
    moreover have "protocol_of (sys_deliver e q s) = coord_part c (protocol_of s)"
      using Inr queue res by (simp add: sys_deliver_def protocol_of_def coord_part_def)
    ultimately show ?thesis using handed_protocol [OF h live(2), of "protocol_of s"] by simp
  qed
qed

lemma sim_fire:
  assumes wf: "sys_wf s" and live: "sy_alive s"
  shows "protocol_of (sys_fire s) = protocol_of s \<or> protocol_step (protocol_of s) (protocol_of (sys_fire s))"
proof -
  have h: "rt_live.handed (sy_coord s) (fire_due_timer (sy_coord s))"
    using fire_due_handed wf by (simp add: sys_wf_def)
  have "protocol_of s = coord_part (sy_coord s) (protocol_of s)"
    by (simp add: protocol_of_def coord_part_def)
  moreover have "protocol_of (sys_fire s) = coord_part (fire_due_timer (sy_coord s)) (protocol_of s)"
    by (simp add: sys_fire_def Let_def protocol_of_def coord_part_def)
  ultimately show ?thesis using handed_protocol [OF h live, of "protocol_of s"] by simp
qed

lemma results_of_done [simp]: "results_of (map WorkerDone rs) = rs"
  by (induction rs) simp_all

lemma sim_job_tick:
  fixes th th' :: "'e thread" and g d rs and p p' :: protocol
  assumes job: "job_at (th_point th) = Some j" and t: "job_tick j slot th th'"
  defines "p \<equiv> \<lparr>pr_generation = g, pr_desired = d, pr_slot = slot, pr_job = job_at (th_point th),
      pr_committed = th_committed th, pr_results = rs @ opt_list (result_at (th_point th))\<rparr>"
    and "p' \<equiv> \<lparr>pr_generation = g, pr_desired = d, pr_slot = slot, pr_job = job_at (th_point th'),
      pr_committed = th_committed th', pr_results = rs @ opt_list (result_at (th_point th'))\<rparr>"
  shows "p' = p \<or> protocol_step p p'"
proof -
  have none: "job_at q = Some k \<Longrightarrow> result_at q = None" for q k by (cases q) simp_all
  have p: "pr_job p = Some j" "result_at (th_point th) = None" using job none by (simp_all add: p_def)
  from t consider (goes) "job_at (th_point th') = Some j" "th_committed th' = th_committed th"
    | (drops) "th_point th' = AtGet" "th_committed th' = th_committed th" "superseded (j_generation j) slot"
    | (ends) r where "th_point th' = AtReport r" "ends j (th_committed th) r (th_committed th')"
    unfolding job_tick_def by blast
  then show ?thesis
  proof cases
    case goes
    with job none p(2) show ?thesis by (simp add: p_def p'_def)
  next
    case drops
    with p(2) have "p' = p\<lparr>pr_job := None\<rparr>" by (simp add: p_def p'_def)
    moreover have "superseded (j_generation j) (pr_slot p)" using drops by (simp add: p_def)
    ultimately show ?thesis using protocol_step.supersede [OF p(1)] by simp
  next
    case ends
    with p(2) have "p' = p\<lparr>pr_job := None, pr_committed := th_committed th', pr_results := pr_results p @ [r]\<rparr>"
      by (simp add: p_def p'_def)
    moreover have "ends j (pr_committed p) r (th_committed th')" using ends by (simp add: p_def)
    ultimately show ?thesis using protocol_step.finish [OF p(1)] by simp
  qed
qed

lemma protocol_of_tick:
  assumes "tick W (sy_stop s) (has_room (sy_queue s)) (sy_slot s) (sy_thread s) = (th, slot, sent)"
  shows "protocol_of (sys_tick W s) =
     \<lparr>pr_generation = sy_generation s, pr_desired = c_last_desired (sy_coord s), pr_slot = slot,
      pr_job = job_at (th_point th), pr_committed = th_committed th,
      pr_results = sy_adopted s @ results_of (sy_queue s) @ opt_list sent @ opt_list (result_at (th_point th))\<rparr>"
  using assms by (simp add: protocol_of_def)

lemma sim_tick:
  assumes wf: "sys_wf s" and run: "running s"
  shows "protocol_of (sys_tick W s) = protocol_of s \<or> protocol_step (protocol_of s) (protocol_of (sys_tick W s))"
proof -
  let ?th = "sy_thread s"
  obtain th slot sent where t: "tick W (sy_stop s) (has_room (sy_queue s)) (sy_slot s) ?th = (th, slot, sent)"
    by (cases "tick W (sy_stop s) (has_room (sy_queue s)) (sy_slot s) ?th")
  have stop: "\<not> sy_stop s" using wf run by (simp add: sys_wf_def)
  consider (get) "th_point ?th = AtGet" | (report) r where "th_point ?th = AtReport r" | (gone) "th_point ?th = Gone"
    | (job) j where "job_at (th_point ?th) = Some j" by (cases "th_point ?th") simp_all
  then show ?thesis
  proof cases
    case get
    show ?thesis
    proof (cases "sy_slot s")
      case None
      with t get stop show ?thesis by (simp add: protocol_of_tick [OF t] tick_get) (simp add: protocol_of_def)
    next
      case (Some j)
      have "protocol_step (protocol_of s) ((protocol_of s)\<lparr>pr_slot := None, pr_job := Some j\<rparr>)"
        using Some get by (intro protocol_step.take) (simp_all add: protocol_of_def)
      moreover have "protocol_of (sys_tick W s) = (protocol_of s)\<lparr>pr_slot := None, pr_job := Some j\<rparr>"
        using t get stop Some by (auto simp: protocol_of_tick [OF t] tick_get protocol_of_def)
      ultimately show ?thesis by simp
    qed
  next
    case report
    have "protocol_of (sys_tick W s) = protocol_of s"
    proof (cases "has_room (sy_queue s)")
      case True
      with report t have "th = ?th\<lparr>th_point := AtGet\<rparr> \<and> slot = sy_slot s \<and> sent = Some r" by (simp add: tick_report)
      then show ?thesis using report t by (simp add: protocol_of_def)
    next
      case False
      with report have "waits (sy_stop s) (has_room (sy_queue s)) (sy_slot s) (th_point ?th)" by (simp add: waits_def)
      from waits_tick [OF this] t show ?thesis using report by (simp add: protocol_of_tick [OF t] protocol_of_def)
    qed
    then show ?thesis by simp
  next
    case gone
    then have "waits (sy_stop s) (has_room (sy_queue s)) (sy_slot s) (th_point ?th)" by (simp add: waits_def)
    from waits_tick [OF this] t have "protocol_of (sys_tick W s) = protocol_of s"
      using gone by (simp add: protocol_of_tick [OF t] protocol_of_def)
    then show ?thesis by simp
  next
    case job
    have "job_tick j (sy_slot s) ?th th \<and> (slot, sent) = (sy_slot s, None)"
      using tick_job [OF job, of "sy_slot s" W "sy_stop s" "has_room (sy_queue s)"] wf t by (simp add: sys_wf_def)
    then show ?thesis
      using sim_job_tick [OF job, of "sy_slot s" th "sy_generation s" "c_last_desired (sy_coord s)"
          "sy_adopted s @ results_of (sy_queue s)"]
      by (simp add: protocol_of_tick [OF t]) (simp add: protocol_of_def)
  qed
qed

lemma sim_step:
  assumes wf: "sys_wf s" and st: "sys_step W s s'" and live: "live s'"
  shows "live s \<and> (protocol_of s' = protocol_of s \<or> protocol_step (protocol_of s) (protocol_of s'))"
  using st
proof (cases rule: sys_stepE)
  case (deliver e q)
  have "sy_alive s"
  proof (cases "dispatch (NextEvent e) (sy_coord s)")
    case (Inr c)
    with deliver live dispatch_handed [OF Inr] wf show ?thesis
      by (auto simp: sys_deliver_def sys_wf_def dest: handed_alive)
  qed (use deliver live in \<open>simp add: sys_deliver_def\<close>)
  with deliver live sim_deliver [OF wf, of e q] show ?thesis by (simp add: running_def)
next
  case fire
  with wf live have "sy_alive s"
    using handed_alive [OF fire_due_handed, of "sy_coord s"] by (simp add: sys_fire_def Let_def sys_wf_def)
  with fire sim_fire [OF wf] show ?thesis by (simp add: running_def)
next
  case worker
  with live have "live s" by (simp add: running_def)
  with worker sim_tick [OF wf, of W] show ?thesis by simp
next
  case (produce e)
  then have "protocol_of s' = protocol_of s" by (simp add: protocol_of_def)
  with produce live show ?thesis by (simp add: running_def)
next
  case timeout
  then have "protocol_of s' = protocol_of s" by (simp add: protocol_of_def)
  with timeout live show ?thesis by (simp add: running_def)
next
  case (clock t)
  then have "protocol_of s' = protocol_of s" by (simp add: protocol_of_def)
  with clock live show ?thesis by (simp add: running_def)
qed (use live in \<open>simp_all add: running_def\<close>)

subsection \<open>The system refines the protocol\<close>

lemma system_refines_spec:
  assumes "sys_reach W (sys_init seed now dir_for m allowed lc e) s" and "live s"
  shows "protocol_reach (protocol_init lc) (protocol_of s)"
  using assms
proof (induction rule: sys_reach.induct)
  case start
  have "protocol_of (sys_init seed now dir_for m allowed lc e) = protocol_init lc"
    by (simp add: protocol_of_def sys_init_def protocol_init_def thread_new_def coordinator_new_def runtime_host_new_def)
  then show ?case by (simp add: protocol_reach.start)
next
  case (step s s')
  have "sys_wf s" by (rule sys_wf_reach [OF step.hyps(1) sys_wf_init])
  from sim_step [OF this step.hyps(2) step.prems] step.IH show ?case
    by (auto intro: protocol_reach.step)
next
  case (crash s)
  then show ?case by simp
qed

lemma protocol_inv_system:
  assumes "sys_reach W (sys_init seed now dir_for m allowed lc e) s" and "live s"
  shows "protocol_inv (protocol_of s)"
  by (rule protocol_inv_reach [OF system_refines_spec [OF assms]])

lemma opt_list_set [simp]: "x \<in> set (opt_list y) \<longleftrightarrow> y = Some x"
  by (cases y) auto

lemma job_gens_set: "g \<in> set (job_gens x) \<longleftrightarrow> (\<exists>j. x = Some j \<and> j_generation j = g)"
  by (cases x) auto

lemma results_of_set: "r \<in> set (results_of es) \<longleftrightarrow> WorkerDone r \<in> set es"
  by (induction es) (auto split: event.splits)

text \<open>C6. System, refinement: as long as the loop runs and the worker lives, every interleaving of the event loop, the
  worker thread and the producers of events is a run of the handover protocol.\<close>

theorem system_refines_protocol:
  assumes "sys_reach W (sys_init seed now dir_for m allowed lc e) s"
    and "running s" and "sy_alive s"
  shows "protocol_reach (protocol_init lc) (protocol_of s)"
  using assms by (intro system_refines_spec) simp_all

lemma no_lost_job_spec:
  assumes "sys_reach W (sys_init seed now dir_for m allowed lc e) s"
    and "running s" and "sy_alive s" and "0 < sy_generation s"
  shows "(\<exists>j. sy_slot s = Some j \<and> j_generation j = sy_generation s) \<or>
    (\<exists>j. job_at (th_point (sy_thread s)) = Some j \<and> j_generation j = sy_generation s) \<or>
    (\<exists>r. result_at (th_point (sy_thread s)) = Some r \<and> jr_generation r = sy_generation s) \<or>
    (\<exists>r. WorkerDone r \<in> set (sy_queue s) \<and> jr_generation r = sy_generation s) \<or>
    (\<exists>r\<in>set (sy_adopted s). jr_generation r = sy_generation s)"
proof -
  have "kept_alive (protocol_of s)"
    using protocol_inv_system [OF assms(1)] assms(2,3) by (simp add: protocol_inv_def)
  with assms(4) have "sy_generation s \<in> set (trail (protocol_of s))"
    by (auto simp: kept_alive_def protocol_of_def dest: last_in_set)
  then show ?thesis
    by (auto simp: trail_def protocol_of_def job_gens_set results_of_set)
qed

text \<open>C2. System, no job is lost: while the loop runs and the worker lives, the coordinator's current generation, once it
  has one, is always somewhere: in the mailbox, being worked on, in a result the worker is about to send, in a result in
  the channel, or in a result that was adopted.\<close>

theorem no_lost_job:
  assumes "sys_reach W (sys_init seed now dir_for m allowed lc e) s"
    and "running s" and "sy_alive s" and "0 < sy_generation s"
  shows "(\<exists>j. sy_slot s = Some j \<and> j_generation j = sy_generation s) \<or>
    (\<exists>j. job_at (th_point (sy_thread s)) = Some j \<and> j_generation j = sy_generation s) \<or>
    (\<exists>r. result_at (th_point (sy_thread s)) = Some r \<and> jr_generation r = sy_generation s) \<or>
    (\<exists>r. WorkerDone r \<in> set (sy_queue s) \<and> jr_generation r = sy_generation s) \<or>
    (\<exists>r\<in>set (sy_adopted s). jr_generation r = sy_generation s)"
  using no_lost_job_spec [OF assms] .

text \<open>C12. System, the mailbox is never stale: while the loop runs and the worker lives, the job waiting in the mailbox
  carries the coordinator's current generation and its last desire, and so does a job of that generation the worker
  is at.\<close>

theorem mailbox_is_current:
  assumes "sys_reach W (sys_init seed now dir_for m allowed lc e) s"
    and "running s" and "sy_alive s"
  shows "(\<forall>j. sy_slot s = Some j \<longrightarrow>
      j_generation j = sy_generation s \<and> c_last_desired (sy_coord s) = Some (j_desired j)) \<and>
    (\<forall>j. job_at (th_point (sy_thread s)) = Some j \<longrightarrow> j_generation j = sy_generation s \<longrightarrow>
      c_last_desired (sy_coord s) = Some (j_desired j))"
  using protocol_inv_system [OF assms(1)] assms(2,3)
  by (simp add: protocol_inv_def current_def protocol_of_def)

text \<open>System, order: while the loop runs and the worker lives, the results adopted and those in the channel are in
  the order of their generations, and none is ahead of the coordinator.\<close>

theorem results_in_order:
  assumes "sys_reach W (sys_init seed now dir_for m allowed lc e) s"
    and "running s" and "sy_alive s"
  shows "sorted (map jr_generation (sy_adopted s @ results_of (sy_queue s)) @ [sy_generation s])"
  using protocol_inv_system [OF assms(1)] assms(2,3)
  by (auto simp: protocol_inv_def ordered_def trail_def protocol_of_def sorted_append)

text \<open>A live worker has not ended.\<close>

lemma begin_shutdown_alive [simp]:
  "rh_alive (c_host (begin_shutdown runtime_ops c)) = rh_alive (c_host c)"
  by (simp add: begin_shutdown_def rt_live.live_cancel_retry)

lemma fire_due_alive: "rh_alive (c_host (fire_due_timer c)) = rh_alive (c_host c)"
proof -
  have "rh_alive (c_host (fire_retry runtime_ops c)) = rh_alive (c_host c)" for c :: coord
    using fire_retry_host [of c] by (auto simp: rh_submit_def split: if_splits)
  then show ?thesis by (simp add: fire_due_timer_def split: option.split)
qed

lemma alive_point:
  assumes "sys_reach W (sys_init seed now dir_for m allowed lc e) s" and "sy_alive s"
  shows "th_point (sy_thread s) \<noteq> Gone"
  using assms
proof (induction rule: sys_reach.induct)
  case (step s s')
  have wf: "retry_wf (sy_coord s)" using sys_wf_reach [OF step.hyps(1) sys_wf_init] by (simp add: sys_wf_def)
  from step.hyps(2) show ?case
  proof (cases rule: sys_stepE)
    case (deliver e q)
    with step wf show ?thesis
      by (auto simp: sys_deliver_def dest!: dispatch_handed [OF _ wf] handed_alive split: sum.splits)
  qed (use step in \<open>auto simp: sys_fire_def Let_def fire_due_alive begin_shutdown_alive\<close>)
qed (simp_all add: sys_init_def thread_new_def)

subsection \<open>The display\<close>

lemma display_step:
  assumes f: "faithful_work W shown palette" and ok: "display_ok shown palette (sy_thread s)" and st: "sys_step W s s'"
  shows "display_ok shown palette (sy_thread s')"
  using st
proof (cases rule: sys_stepE)
  case (deliver e q)
  with ok show ?thesis by (simp add: sys_deliver_def split: sum.split)
next
  case fire
  with ok show ?thesis by (simp add: sys_fire_def Let_def)
next
  case worker
  with display_tick [OF f ok] show ?thesis by simp
qed (use ok in simp_all)

lemma display_crash: "display_ok shown palette (sy_thread s) \<Longrightarrow> display_ok shown palette (sy_thread (sys_crash s))"
  by (simp add: sys_crash_def display_goto)

lemma display_reach:
  assumes "sys_reach W s\<^sub>0 s" and "faithful_work W shown palette" and "display_ok shown palette (sy_thread s\<^sub>0)"
  shows "display_ok shown palette (sy_thread s)"
  using assms
  by (induction rule: sys_reach.induct)
    (auto intro: display_step display_crash)


end
