(* ===== verification/System_Runs.thy ===== *)
theory System_Runs
  imports System_Props Coordinator_Props
begin

text \<open>
  Progress of the system, with concrete runs: it is never stuck while a job is outstanding, a job posted to an idle
  worker is adopted, and a shutdown with a full channel leaves the worker blocked in its report.
\<close>

subsection \<open>No deadlock\<close>


subsection \<open>A job posted to an idle worker\<close>

lemma sys_tick_thread:
  assumes "tick W (sy_stop s) (has_room (sy_queue s)) (sy_slot s) (sy_thread s) = (th, sy_slot s, None)"
    and "th_point th \<noteq> Gone"
  shows "sys_tick W s = s\<lparr>sy_thread := th\<rparr>"
  using assms by (simp add: sys_tick_def sys_host_def)

text \<open>With an empty mailbox nothing supersedes the job, so the thread reaches its report.\<close>

lemma job_runs:
  assumes "job_at (th_point (sy_thread s)) = Some j" and "point_wf (th_point (sy_thread s))" and "sy_slot s = None"
  shows "\<exists>th r. (sys_step W)\<^sup>*\<^sup>* s (s\<lparr>sy_thread := th\<rparr>) \<and> th_point th = AtReport r \<and> jr_generation r = j_generation j"
  using assms
proof (induction "rank (th_point (sy_thread s))" arbitrary: s rule: less_induct)
  case less
  let ?t = "tick W (sy_stop s) (has_room (sy_queue s)) (sy_slot s) (sy_thread s)"
  let ?s = "s\<lparr>sy_thread := fst ?t\<rparr>"
  have t: "job_tick j None (sy_thread s) (fst ?t)" "snd ?t = (sy_slot s, None)"
    using tick_job [OF less.prems(1,2)] less.prems(3) by metis+
  have nowait: "\<not> waits (sy_stop s) (has_room (sy_queue s)) (sy_slot s) (th_point (sy_thread s))"
    "th_point (sy_thread s) \<noteq> AtGet"
    using less.prems(1) by (auto simp: waits_def)
  have alive: "th_point (fst ?t) \<noteq> Gone" using t(1) by (auto simp: job_tick_def)
  have st: "sys_step W s ?s"
    using sys_step.worker [of W s] sys_tick_thread [of W s "fst ?t"] t(2) alive by (metis prod.collapse)
  from t(1) consider (goes) "job_at (th_point (fst ?t)) = Some j"
    | (ends) r where "th_point (fst ?t) = AtReport r" "jr_generation r = j_generation j"
    by (auto simp: job_tick_def ends_def)
  then show ?case
  proof cases
    case goes
    have "rank (th_point (sy_thread ?s)) < rank (th_point (sy_thread s))"
      using rank_tick [OF nowait(1)] nowait(2) by simp
    from less.hyps [OF this] goes less.prems point_wf_tick [OF less.prems(2)]
    obtain th r where "(sys_step W)\<^sup>*\<^sup>* ?s (?s\<lparr>sy_thread := th\<rparr>)" "th_point th = AtReport r" "jr_generation r = j_generation j"
      by auto
    with st show ?thesis by (intro exI [of _ th] exI [of _ r]) (simp add: converse_rtranclp_into_rtranclp)
  next
    case ends
    with st show ?thesis by blast
  qed
qed

lemma steps_reach: "(sys_step W)\<^sup>*\<^sup>* s s' \<Longrightarrow> sys_reach W s\<^sub>0 s \<Longrightarrow> sys_reach W s\<^sub>0 s'"
  by (induction rule: rtranclp_induct) (auto intro: sys_reach.step)

text \<open>Taking the job, running it, sending the result and delivering it.\<close>

lemma idle_job_steps:
  assumes ph: "sy_phase s = Looping" and q: "sy_queue s = []" and stop: "\<not> sy_stop s"
    and get: "th_point (sy_thread s) = AtGet" and slot: "sy_slot s = Some j" and alive: "sy_alive s"
    and gen: "j_generation j = sy_generation s" and run: "\<not> c_stopping (sy_coord s)"
  shows "\<exists>s' r. (sys_step W)\<^sup>*\<^sup>* s s' \<and> sy_adopted s' = sy_adopted s @ [r] \<and> jr_generation r = j_generation j"
proof -
  define s1 where "s1 = sys_tick W s"
  have t: "tick W (sy_stop s) (has_room (sy_queue s)) (sy_slot s) (sy_thread s) =
      ((sy_thread s)\<lparr>th_point := AtStart j\<rparr>, None, None)"
    using get slot stop by (simp add: tick_get)
  have s1: "job_at (th_point (sy_thread s1)) = Some j" "point_wf (th_point (sy_thread s1))" "sy_slot s1 = None"
    "sy_queue s1 = []" "sy_phase s1 = Looping" "sy_generation s1 = sy_generation s" "sy_alive s1"
    "\<not> c_stopping (sy_coord s1)" "sy_adopted s1 = sy_adopted s"
    using t q ph alive run by (simp_all add: s1_def)
  obtain th r where r: "(sys_step W)\<^sup>*\<^sup>* s1 (s1\<lparr>sy_thread := th\<rparr>)" "th_point th = AtReport r"
    "jr_generation r = j_generation j"
    using job_runs [OF s1(1-3), of W] by blast
  define s3 where "s3 = sys_tick W (s1\<lparr>sy_thread := th\<rparr>)"
  have room: "has_room []" by (simp add: has_room_def EVENT_QUEUE_def)
  have t2: "tick W stop True slot th = (th\<lparr>th_point := AtGet\<rparr>, slot, Some r)" for stop slot
    using r(2) by (simp add: tick_report)
  have s3: "sy_queue s3 = [WorkerDone r]" "sy_phase s3 = Looping" "sy_adopted s3 = sy_adopted s"
    "sy_generation s3 = sy_generation s" "\<not> c_stopping (sy_coord s3)"
    using s1 room t2 by (simp_all add: s3_def)
  let ?s4 = "sys_deliver (WorkerDone r) [] s3"
  have "sy_adopted ?s4 = sy_adopted s @ [r]"
    using s3 r(3) gen by (simp add: sys_deliver_def dispatch_def adopts_def)
  moreover have "sys_step W s3 ?s4" using s3 by (intro sys_step.deliver) simp_all
  then have "(sys_step W)\<^sup>*\<^sup>* s ?s4"
    using r(1) sys_step.worker [of W s, folded s1_def] sys_step.worker [of W "s1\<lparr>sy_thread := th\<rparr>", folded s3_def]
    by (meson converse_rtranclp_into_rtranclp rtranclp.rtrancl_into_rtrancl)
  ultimately show ?thesis using r(3) by blast
qed


subsection \<open>A full channel at shutdown\<close>

lemma stalled_step:
  assumes "sy_phase s = Joining \<and> \<not> has_room (sy_queue s) \<and> th_point (sy_thread s) = AtReport r"
    and "sys_step W s s'"
  shows "sy_phase s' = Joining \<and> \<not> has_room (sy_queue s') \<and> th_point (sy_thread s') = AtReport r"
  using assms(2)
proof (cases rule: sys_stepE)
  case worker
  have "waits (sy_stop s) (has_room (sy_queue s)) (sy_slot s) (th_point (sy_thread s))"
    using assms(1) by (simp add: waits_def)
  from waits_tick [OF this] worker assms(1) show ?thesis by simp
qed (use assms(1) in auto)

text \<open>C22. System, a limit of the shutdown (finding): once the daemon joins the worker nobody reads the event channel, so
  a worker that has a result to report to a full channel never ends, and the join waits out its timeout.\<close>

theorem full_channel_stalls_join:
  assumes "sy_phase s = Joining" and "\<not> has_room (sy_queue s)" and "th_point (sy_thread s) = AtReport r"
    and "(sys_step W)\<^sup>*\<^sup>* s s'"
  shows "th_point (sy_thread s') = AtReport r \<and> sy_phase s' = Joining"
proof -
  have "sy_phase s' = Joining \<and> \<not> has_room (sy_queue s') \<and> th_point (sy_thread s') = AtReport r"
    using assms(4)
  proof (induction rule: rtranclp_induct)
    case base
    with assms(1-3) show ?case by simp
  next
    case (step s1 s2)
    with stalled_step show ?case by blast
  qed
  then show ?thesis by simp
qed

subsection \<open>A concrete run\<close>

text \<open>The world is the display; every cover is available and every call succeeds.\<close>

definition demo_work :: "display work" where
  "demo_work =
     \<lparr>wo_resolve = (\<lambda>u d e. (Some (resolution.Ready [u] (0, 0)), e)),
      wo_extract = (\<lambda>p m cid e. (Some (''x'', ''y'', ''z''), e)),
      wo_apply = (\<lambda>cols e. (Some (Inr ()), Showing cols)),
      wo_revert = (\<lambda>e. (Some (Inr ()), Preset))\<rparr>"

lemma demo_faithful: "faithful_work demo_work id (\<lambda>_ _. (''x'', ''y'', ''z''))"
  by (simp add: faithful_work_def demo_work_def)

definition demo_init :: "display system" where
  "demo_init = sys_init 1 0 (\<lambda>_. None) Dark ''spotify'' (Some (RevertTo Dark)) Preset"

definition run_playing :: coord where
  "run_playing = (sy_coord demo_init)
     \<lparr>c_players := [(''spotify'', \<lparr>ps_status = Playing, ps_art_url = ''u'', ps_seq = 1\<rparr>)],
      c_covers := [(''spotify'', \<lparr>cs_identity = Url ''u'', cs_status = Pending\<rparr>)],
      c_seq := 1, c_generation := 1, c_last_desired := Some url_desired,
      c_last_submitted := Some url_desired, c_submitted_player := Some ''spotify'',
      c_host := (c_host (sy_coord demo_init))\<lparr>rh_slot := Some \<lparr>j_generation = 1, j_desired = url_desired\<rparr>\<rparr>\<rparr>"

lemma run_line1: "on_line runtime_ops line1 (sy_coord demo_init) = run_playing"
proof -
  have "on_line runtime_ops line1 (sy_coord demo_init) = accept_line runtime_ops ''spotify'' Playing ''u'' (sy_coord demo_init)"
    using line1_fields
    by (simp add: on_line_def line_fields_def Let_def demo_init_def sys_init_def coordinator_new_def
        allowed_name_def fake_start_allowed base_matches_def status_from_str_def)
  also have "\<dots> = run_playing"
    by (simp add: accept_line_def Let_def demo_init_def sys_init_def coordinator_new_def maintain_cover_def art_identity_def
        decide_and_submit_def coord_decide_def decide_def rank_key_def eligible_player_def maybe_submit_def
        cancel_retry_def run_playing_def url_desired_def runtime_ops_def runtime_host_new_def rh_submit_def
        mailbox_put_def fake_start_allowed)
  finally show ?thesis .
qed

text \<open>A line arrives: the loop posts the job and waits again.\<close>

definition demo_posted :: "display system" where
  "demo_posted = demo_init\<lparr>sy_coord := run_playing, sy_phase := Looping\<rparr>"

lemma demo_init_simps:
  "sy_phase demo_init = Looping" "sy_queue demo_init = []" "sy_stop demo_init = False" "sy_adopted demo_init = []"
  "sy_thread demo_init = thread_new (Some (RevertTo Dark)) Preset" "rh_timer (c_host (sy_coord demo_init)) = None"
  "rh_worker_dead (c_host (sy_coord demo_init)) = False" "sy_alive demo_init" "\<not> c_stopping (sy_coord demo_init)"
  by (simp_all add: demo_init_def sys_init_def coordinator_new_def runtime_host_new_def)

lemma run_playing_simps:
  "c_generation run_playing = 1" "rh_alive (c_host run_playing)" "rh_timer (c_host run_playing) = None"
  "\<not> rh_worker_dead (c_host run_playing)" "rh_slot (c_host run_playing) = Some \<lparr>j_generation = 1, j_desired = url_desired\<rparr>"
  "\<not> c_stopping run_playing" "c_last_desired run_playing = Some url_desired"
  "c_last_submitted run_playing = Some url_desired"
  using demo_init_simps by (simp_all add: run_playing_def)

lemma has_room_simps [simp]: "has_room []" "has_room [e]"
  by (simp_all add: has_room_def EVENT_QUEUE_def)

lemma demo_posted_reach: "sys_reach demo_work demo_init demo_posted"
proof -
  let ?s1 = "demo_init\<lparr>sy_queue := [Line line1]\<rparr>"
  have "sys_step demo_work demo_init ?s1"
    using sys_step.produce [of "Line line1" demo_init demo_work] by (simp add: demo_init_simps is_result_def)
  then have "sys_reach demo_work demo_init ?s1" by (rule sys_reach.step [OF sys_reach.start])
  moreover let ?s2 = "sys_deliver (Line line1) [] ?s1"
  have "sys_step demo_work ?s1 ?s2" by (intro sys_step.deliver) (simp_all add: demo_init_simps)
  ultimately have r2: "sys_reach demo_work demo_init ?s2" by (rule sys_reach.step)
  have s2: "?s2 = demo_init\<lparr>sy_coord := run_playing, sy_phase := Handled\<rparr>"
    using run_line1 by (simp add: sys_deliver_def dispatch_def adopts_def demo_init_simps)
  have "sys_step demo_work ?s2 (sys_fire ?s2)" unfolding s2 by (rule sys_step.fire) simp
  from sys_reach.step [OF r2 this] show ?thesis
    unfolding s2 by (simp add: sys_fire_def Let_def fire_due_timer_def run_playing_simps demo_posted_def demo_init_simps)
qed

text \<open>The worker's way through the job, from the mailbox to its report.\<close>

definition demo_job1 :: job where
  "demo_job1 = \<lparr>j_generation = 1, j_desired = url_desired\<rparr>"

definition demo_result :: job_result where
  "demo_result = \<lparr>jr_generation = 1, jr_outcome = Committed, jr_cover_id = Some (path_display [''u''])\<rparr>"

definition demo_taken :: coord where
  "demo_taken = run_playing\<lparr>c_host := (c_host run_playing)\<lparr>rh_slot := None\<rparr>\<rparr>"

definition demo_at :: "point \<Rightarrow> committed \<Rightarrow> display \<Rightarrow> event list \<Rightarrow> display system" where
  "demo_at p key e q = demo_posted
     \<lparr>sy_coord := demo_taken, sy_thread := \<lparr>th_point = p, th_committed = Some key, th_env = e\<rparr>, sy_queue := q\<rparr>"

lemma demo_at_simps [simp]:
  "sy_phase (demo_at p key e q) = Looping" "sy_queue (demo_at p key e q) = q" "sy_stop (demo_at p key e q) = False"
  "sy_adopted (demo_at p key e q) = []" "sy_coord (demo_at p key e q) = demo_taken" "rh_slot (c_host demo_taken) = None"
  "rh_alive (c_host demo_taken)" "c_generation demo_taken = 1" "\<not> c_stopping demo_taken"
  "sy_thread (demo_at p key e q) = \<lparr>th_point = p, th_committed = Some key, th_env = e\<rparr>"
  by (simp_all add: demo_at_def demo_posted_def demo_init_simps demo_taken_def run_playing_simps)

lemma demo_tick0: "sys_tick demo_work demo_posted = demo_at (AtStart demo_job1) (RevertTo Dark) Preset []"
  by (simp add: sys_tick_def demo_posted_def demo_init_simps run_playing_simps tick_get thread_new_def demo_at_def
      demo_taken_def sys_host_def demo_job1_def)

lemma demo_tick:
  assumes "tick demo_work False True None \<lparr>th_point = p, th_committed = Some key, th_env = e\<rparr> =
      (\<lparr>th_point = p', th_committed = Some key', th_env = e'\<rparr>, None, sent)" and "p' \<noteq> Gone"
  shows "sys_tick demo_work (demo_at p key e []) = demo_at p' key' e' (map WorkerDone (opt_list sent))"
  using assms by (auto simp: sys_tick_def sys_host_def demo_at_def demo_posted_def demo_init_simps
      demo_taken_def run_playing_simps opt_list_def split: option.split)

lemma url_desired_simps: "d_target url_desired = Some \<lparr>ct_art_url = ''u'', ct_covers_dir = None\<rparr>" "d_mode url_desired = Dark"
  by (simp_all add: url_desired_def)

lemma demo_job1_simps: "j_generation demo_job1 = 1" "j_desired demo_job1 = url_desired"
  by (simp_all add: demo_job1_def)

lemmas demo_tick_simps = tick_def tick_start_def tick_ctl_def demo_work_def demo_job1_simps url_desired_simps ended_def
  Let_def

lemma demo_ticks:
  "sys_tick demo_work (demo_at (AtStart demo_job1) (RevertTo Dark) Preset []) =
     demo_at (AtCheckCover demo_job1 [''u''] (0, 0)) (RevertTo Dark) Preset []"
  "sys_tick demo_work (demo_at (AtCheckCover demo_job1 [''u''] (0, 0)) (RevertTo Dark) Preset []) =
     demo_at (AtExtract demo_job1 [''u''] (0, 0)) (RevertTo Dark) Preset []"
  "sys_tick demo_work (demo_at (AtExtract demo_job1 [''u''] (0, 0)) (RevertTo Dark) Preset []) =
     demo_at (AtCheckApply demo_job1 [''u''] (0, 0) (''x'', ''y'', ''z'')) (RevertTo Dark) Preset []"
  "sys_tick demo_work (demo_at (AtCheckApply demo_job1 [''u''] (0, 0) (''x'', ''y'', ''z'')) (RevertTo Dark) Preset []) =
     demo_at (AtApply demo_job1 [''u''] (0, 0) (''x'', ''y'', ''z'')) (RevertTo Dark) Preset []"
  "sys_tick demo_work (demo_at (AtApply demo_job1 [''u''] (0, 0) (''x'', ''y'', ''z'')) (RevertTo Dark) Preset []) =
     demo_at (AtReport demo_result) (CoverShown (0, 0) Dark) (Showing (''x'', ''y'', ''z'')) []"
  "sys_tick demo_work (demo_at (AtReport demo_result) (CoverShown (0, 0) Dark) (Showing (''x'', ''y'', ''z'')) []) =
     demo_at AtGet (CoverShown (0, 0) Dark) (Showing (''x'', ''y'', ''z'')) [WorkerDone demo_result]"
  by (subst demo_tick, simp add: demo_tick_simps, simp, simp add: demo_result_def)+

definition demo_reporting :: "display system" where
  "demo_reporting = demo_at (AtReport demo_result) (CoverShown (0, 0) Dark) (Showing (''x'', ''y'', ''z'')) []"

definition demo_reported :: "display system" where
  "demo_reported = demo_at AtGet (CoverShown (0, 0) Dark) (Showing (''x'', ''y'', ''z'')) [WorkerDone demo_result]"

lemma worker_reach: "sys_reach W s\<^sub>0 s \<Longrightarrow> sys_reach W s\<^sub>0 (sys_tick W s)"
  by (rule sys_reach.step [OF _ sys_step.worker])

lemma demo_reporting_reach: "sys_reach demo_work demo_init demo_reporting"
  using worker_reach [OF worker_reach [OF worker_reach [OF worker_reach [OF worker_reach [OF worker_reach
    [OF demo_posted_reach]]]]]]
  unfolding demo_tick0 demo_ticks demo_reporting_def .

lemma demo_reported_reach: "sys_reach demo_work demo_init demo_reported"
  using worker_reach [OF demo_reporting_reach] unfolding demo_reporting_def demo_ticks demo_reported_def .

text \<open>The result is adopted.\<close>

definition demo_adopted :: "display system" where
  "demo_adopted = sys_deliver (WorkerDone demo_result) [] demo_reported"

lemma run_playing_decide: "coord_decide (set_cover_status cover_status.Ready (demo_taken
    \<lparr>c_applied := a, c_applied_target := t, c_retry_desire := None, c_retry_attempt := 0\<rparr>)) = Apply url_desired ''spotify''"
  by (simp add: coord_decide_def decide_def rank_key_def eligible_player_def demo_taken_def run_playing_def
      set_cover_status_def url_desired_def demo_init_def sys_init_def coordinator_new_def with_status_def)

lemma adopt_keeps: "c_generation (adopt runtime_ops demo_result demo_taken) = 1 \<and>
    rh_alive (c_host (adopt runtime_ops demo_result demo_taken))"
proof -
  have "c_last_submitted demo_taken = Some url_desired" "c_generation demo_taken = 1" "\<not> c_stopping demo_taken"
    "rh_alive (c_host demo_taken)"
    by (simp_all add: demo_taken_def run_playing_simps)
  then show ?thesis
    by (simp add: adopt_def demo_result_def Let_def decide_and_submit_def run_playing_decide maybe_submit_def)
qed

lemma demo_adopted_simps:
  "sy_phase demo_adopted = Handled" "sy_adopted demo_adopted = [demo_result]" "sy_generation demo_adopted = 1"
  "sy_alive demo_adopted" "th_env (sy_thread demo_adopted) = Showing (''x'', ''y'', ''z'')"
  using adopt_keeps
  by (simp_all add: demo_adopted_def sys_deliver_def demo_reported_def dispatch_def adopts_def)
    (simp add: demo_result_def)

lemma demo_adopted_reach: "sys_reach demo_work demo_init demo_adopted"
  unfolding demo_adopted_def
  by (rule sys_reach.step [OF demo_reported_reach], rule sys_step.deliver) (simp_all add: demo_reported_def)

subsection \<open>The properties at this run\<close>

lemma demo_posted_simps:
  "sy_phase demo_posted = Looping" "sy_alive demo_posted" "sy_generation demo_posted = 1" "sy_queue demo_posted = []"
  "th_point (sy_thread demo_posted) = AtGet" "sy_slot demo_posted = Some demo_job1" "sy_adopted demo_posted = []"
  by (simp_all add: demo_posted_def run_playing_simps demo_init_simps thread_new_def demo_job1_def)

theorem system_refines_protocol_witness:
  "protocol_reach (protocol_init (Some (RevertTo Dark))) (protocol_of demo_reported)"
  by (rule system_refines_protocol [OF demo_reported_reach [unfolded demo_init_def]])
    (simp_all add: demo_reported_def running_def)

theorem no_lost_job_witness: "WorkerDone demo_result \<in> set (sy_queue demo_reported) \<and> jr_generation demo_result = 1"
  using no_lost_job [OF demo_reported_reach [unfolded demo_init_def]]
  by (simp add: demo_reported_def running_def demo_result_def)

theorem mailbox_is_current_witness:
  "c_last_desired (sy_coord demo_posted) = Some url_desired"
  using mailbox_is_current [OF demo_posted_reach [unfolded demo_init_def]]
  by (simp add: demo_posted_simps running_def demo_job1_simps)

theorem results_in_order_witness: "jr_generation demo_result \<le> sy_generation demo_reported"
  using results_in_order [OF demo_reported_reach [unfolded demo_init_def]]
  by (simp add: demo_reported_def running_def)




text \<open>Shutdown is requested while the worker is about to report, and the producers fill the channel.\<close>

lemma produce_many:
  assumes "sys_reach W s\<^sub>0 s" and "sy_queue s = []" and "n \<le> EVENT_QUEUE"
  shows "sys_reach W s\<^sub>0 (s\<lparr>sy_queue := replicate n (Scheme 0)\<rparr>)"
  using assms(3)
proof (induction n)
  case 0
  from assms(2) have "s\<lparr>sy_queue := []\<rparr> = s" by simp
  with assms(1) show ?case by simp
next
  case (Suc n)
  have "sys_step W (s\<lparr>sy_queue := replicate n (Scheme 0)\<rparr>)
      ((s\<lparr>sy_queue := replicate n (Scheme 0)\<rparr>)\<lparr>sy_queue := replicate n (Scheme 0) @ [Scheme 0]\<rparr>)"
    using sys_step.produce [of "Scheme 0" "s\<lparr>sy_queue := replicate n (Scheme 0)\<rparr>" W] Suc.prems
    by (simp add: is_result_def has_room_def)
  moreover have "replicate n (Scheme 0) @ [Scheme 0] = replicate (Suc n) (Scheme 0)"
    by (simp add: replicate_append_same)
  moreover have "sys_reach W s\<^sub>0 (s\<lparr>sy_queue := replicate n (Scheme 0)\<rparr>)" using Suc by simp
  ultimately show ?case by (auto simp del: replicate_Suc intro: sys_reach.step)
qed

lemma stall_reached:
  "\<exists>s. sys_reach demo_work demo_init s \<and> sy_phase s = Joining \<and> \<not> has_room (sy_queue s) \<and>
     th_point (sy_thread s) = AtReport demo_result"
proof -
  let ?s1 = "demo_reporting\<lparr>sy_queue := [Shutdown]\<rparr>"
  have p1: "sy_queue demo_reporting = []" "sy_phase demo_reporting = Looping"
    "th_point (sy_thread demo_reporting) = AtReport demo_result"
    by (simp_all add: demo_reporting_def)
  have "sys_step demo_work demo_reporting ?s1"
    using sys_step.produce [of Shutdown demo_reporting demo_work] p1 by (simp add: is_result_def)
  with demo_reporting_reach have r1: "sys_reach demo_work demo_init ?s1" by (rule sys_reach.step)
  define s2 where "s2 = sys_deliver Shutdown [] ?s1"
  have s2: "sy_queue s2 = []" "sy_phase s2 = Quit ExitShutdown" "th_point (sy_thread s2) = AtReport demo_result"
    using p1 by (simp_all add: s2_def sys_deliver_def dispatch_def)
  have "sys_step demo_work ?s1 s2" unfolding s2_def using p1 by (intro sys_step.deliver) simp_all
  with r1 have r2: "sys_reach demo_work demo_init s2" by (rule sys_reach.step)
  define s3 where "s3 = s2\<lparr>sy_queue := replicate EVENT_QUEUE (Scheme 0)\<rparr>"
  have r3: "sys_reach demo_work demo_init s3" unfolding s3_def by (rule produce_many [OF r2 s2(1)]) simp
  have s3: "sy_phase s3 = Quit ExitShutdown" "\<not> has_room (sy_queue s3)" "th_point (sy_thread s3) = AtReport demo_result"
    using s2 by (simp_all add: s3_def has_room_def)
  note r4 = sys_reach.step [OF r3 sys_step.shut [OF s3(1)]]
  note r5 = sys_reach.step [OF r4 sys_step.drain]
  note r6 = sys_reach.step [OF r5 sys_step.join]
  show ?thesis by (intro exI conjI, rule r6) (use s3 in simp_all)
qed

theorem full_channel_stalls_join_witness:
  "\<exists>s. sys_reach demo_work demo_init s \<and> sy_phase s = Joining \<and> th_point (sy_thread s) = AtReport demo_result \<and>
     th_point (sy_thread (sys_tick demo_work s)) = AtReport demo_result"
proof -
  from stall_reached obtain s where s: "sys_reach demo_work demo_init s" "sy_phase s = Joining"
    "\<not> has_room (sy_queue s)" "th_point (sy_thread s) = AtReport demo_result" by blast
  have "(sys_step demo_work)\<^sup>*\<^sup>* s (sys_tick demo_work s)" by (rule r_into_rtranclp, rule sys_step.worker)
  with full_channel_stalls_join [OF s(2-4)] s show ?thesis by blast
qed

end
