(* ===== verification/Daemon_System.thy ===== *)
theory Daemon_System
  imports Daemon System_Runs
begin

text \<open>
  The daemon's own stages as the \<open>work\<close> of the system: \<open>DaemonStages\<close> of \<open>src/daemon.rs\<close> touches neither the mailbox
  nor the stop flag, so what \<open>System_Props\<close> shows of any \<open>work\<close> holds of the daemon, from the state it starts in.
\<close>

definition work_world :: "('x \<Rightarrow> 'r \<times> 'x) \<Rightarrow> 'x daemon_env \<Rightarrow> 'r option \<times> 'x daemon_env" where
  "work_world f e =
     (case f (wd_ext (de_world e)) of (r, x) \<Rightarrow> (Some r, e\<lparr>de_world := (de_world e)\<lparr>wd_ext := x\<rparr>\<rparr>))"

definition daemon_work :: "'x daemon_deps \<Rightarrow> 'x daemon_env work" where
  "daemon_work D =
     \<lparr>wo_resolve = (\<lambda>art_url covers_dir e.
        case resolve (dd_cover D) art_url covers_dir (de_resolver e) (de_world e) of
          None \<Rightarrow> (None, e)
        | Some (res, r, w) \<Rightarrow> (Some res, e\<lparr>de_resolver := r, de_world := w\<rparr>)),
      wo_extract = (\<lambda>p m cid e.
        case memo_get (\<lambda>p. select_palette (dd_crate D) (dd_read D (wd_fs (de_world e)) p)) render_palette p m cid (de_memo e) of
          (res, slot) \<Rightarrow> (case res of Some [a, b, c] \<Rightarrow> Some (a, b, c) | _ \<Rightarrow> None, e\<lparr>de_memo := slot\<rparr>)),
      wo_apply = (\<lambda>cols. work_world (ctl_apply (dd_ctl D) cols)),
      wo_revert = work_world (ctl_revert (dd_ctl D))\<rparr>"

definition daemon_system :: "config \<Rightarrow> 64 word \<Rightarrow> instant \<Rightarrow> 'x world \<Rightarrow> 'x daemon_env system" where
  "daemon_system cfg seed now w =
     sys_init seed now (map_of (cfg_covers_dirs cfg)) (cfg_mode cfg) (cfg_players cfg)
       (Some (RevertTo (cfg_mode cfg))) (daemon_env_new cfg w)"

text \<open>Daemon, equivalence: each stage the daemon gives its worker is the corresponding part of \<open>daemon_work\<close>, acting
  on the rest of the world and leaving the mailbox and the stop flag as they are.\<close>

theorem daemon_stages_are_work:
  "st_resolve (daemon_stages D) u d sh = on_env (sh_slot sh) (wo_resolve (daemon_work D) u d) sh \<and>
   st_extract (daemon_stages D) p m cid sh = on_env (sh_slot sh) (wo_extract (daemon_work D) p m cid) sh \<and>
   st_apply (daemon_stages D) cols sh = on_env (sh_slot sh) (wo_apply (daemon_work D) cols) sh \<and>
   st_revert (daemon_stages D) sh = on_env (sh_slot sh) (wo_revert (daemon_work D)) sh"
  by (simp add: daemon_stages_def daemon_work_def on_env_def stage_resolve_def stage_extract_def with_world_def
      work_world_def split: prod.split option.split)

end
