(* ===== verification/Quantize_Heap.thy ===== *)
theory Quantize_Heap
  imports Quantize_Props
begin

text \<open>
  The box heap as a priority queue. \<open>priority_queue\<close> is the contract the median cut relies on (which
  box is split next); the array heap of \<open>src/color/quantize.rs\<close> interprets it as long as pixel counts
  fit 31 bits, so that the \<open>i32\<close> comparison cannot wrap.
\<close>

subsection \<open>The contract\<close>

locale priority_queue =
  fixes add :: "'e \<Rightarrow> 'q \<Rightarrow> 'q"
    and remove :: "'q \<Rightarrow> 'e option \<times> 'q"
    and items :: "'q \<Rightarrow> 'e multiset"
    and invar :: "'q \<Rightarrow> bool"
    and key :: "'e \<Rightarrow> nat"
    and ok :: "'e \<Rightarrow> bool"
  assumes add_invar: "invar q \<Longrightarrow> ok e \<Longrightarrow> invar (add e q)"
    and add_items: "invar q \<Longrightarrow> items (add e q) = add_mset e (items q)"
    and remove_None: "invar q \<Longrightarrow> fst (remove q) = None \<longleftrightarrow> items q = {#}"
    and remove_items: "invar q \<Longrightarrow> remove q = (Some e, q') \<Longrightarrow> items q = add_mset e (items q')"
    and remove_invar: "invar q \<Longrightarrow> remove q = (Some e, q') \<Longrightarrow> invar q'"
    and remove_max: "invar q \<Longrightarrow> remove q = (Some e, q') \<Longrightarrow> x \<in># items q \<Longrightarrow> key x \<le> key e"
begin

primrec drain :: "nat \<Rightarrow> 'q \<Rightarrow> 'e list" where
  "drain 0 q = []"
| "drain (Suc n) q = (case remove q of (None, _) \<Rightarrow> [] | (Some e, q') \<Rightarrow> e # drain n q')"

primrec add_all :: "'e list \<Rightarrow> 'q \<Rightarrow> 'q" where
  "add_all [] q = q"
| "add_all (e # es) q = add_all es (add e q)"

lemma add_all_items:
  "invar q \<Longrightarrow> list_all ok es \<Longrightarrow> invar (add_all es q) \<and> items (add_all es q) = mset es + items q"
  by (induction es arbitrary: q) (simp_all add: add_invar add_items)

text \<open>Draining yields the items in descending order of their keys.\<close>

lemma drain_sorted:
  "invar q \<Longrightarrow> n = size (items q) \<Longrightarrow>
     mset (drain n q) = items q \<and> sorted_wrt (\<lambda>x y. key y \<le> key x) (drain n q)"
proof (induction n arbitrary: q)
  case 0
  then show ?case by simp
next
  case (Suc n)
  obtain o1 q' where r: "remove q = (o1, q')" by fastforce
  have "o1 \<noteq> None" using remove_None [OF Suc.prems(1)] r Suc.prems(2) by auto
  then obtain e where e: "remove q = (Some e, q')" using r by auto
  note items = remove_items [OF Suc.prems(1) e]
  have "n = size (items q')" using Suc.prems(2) items by simp
  from Suc.IH [OF remove_invar [OF Suc.prems(1) e] this]
  have IH: "mset (drain n q') = items q'" "sorted_wrt (\<lambda>x y. key y \<le> key x) (drain n q')" by auto
  have "key x \<le> key e" if "x \<in> set (drain n q')" for x
    by (rule remove_max [OF Suc.prems(1) e]) (use that IH(1) items in \<open>metis add_mset_commute insert_DiffM set_mset_mset union_single_eq_member\<close>)
  then show ?case using IH e items by simp
qed

end

subsection \<open>The array heap\<close>

definition small_box :: "box_node list \<Rightarrow> nat \<Rightarrow> bool" where
  "small_box boxes n \<longleftrightarrow> bn_pixel_count (boxes ! n) < 2 ^ 31"

abbreviation box_key :: "box_node list \<Rightarrow> nat \<Rightarrow> nat" where
  "box_key boxes n \<equiv> bn_pixel_count (boxes ! n)"

lemma heap_cmp_pos:
  assumes "small_box boxes a" "small_box boxes b"
  shows "heap_cmp boxes a b = int (box_key boxes a) - int (box_key boxes b)"
  using assms by (simp add: heap_cmp_def as_i32_def small_box_def signed_take_bit_int_eq_self)

text \<open>Parents dominate: everywhere (\<open>heap_ok\<close>), or except around a hole at \<open>k\<close>.\<close>

definition heap_ok :: "(nat \<Rightarrow> nat) \<Rightarrow> nat list \<Rightarrow> bool" where
  "heap_ok key s \<longleftrightarrow> (\<forall>i. 2 \<le> i \<longrightarrow> i < length s \<longrightarrow> key (s ! i) \<le> key (s ! (i div 2)))"

definition hole_ok :: "(nat \<Rightarrow> nat) \<Rightarrow> nat \<Rightarrow> nat list \<Rightarrow> bool" where
  "hole_ok key k s \<longleftrightarrow>
     (\<forall>i. 2 \<le> i \<longrightarrow> i < length s \<longrightarrow> i \<noteq> k \<longrightarrow> i div 2 \<noteq> k \<longrightarrow> key (s ! i) \<le> key (s ! (i div 2))) \<and>
     (\<forall>c. 2 \<le> k \<longrightarrow> c < length s \<longrightarrow> c div 2 = k \<longrightarrow> key (s ! c) \<le> key (s ! (k div 2)))"

lemma hole_fill:
  assumes "hole_ok key k s" "1 \<le> k" "k < length s"
    and "2 \<le> k \<Longrightarrow> key v \<le> key (s ! (k div 2))"
    and "\<And>c. 2 \<le> c \<Longrightarrow> c < length s \<Longrightarrow> c div 2 = k \<Longrightarrow> key (s ! c) \<le> key v"
  shows "heap_ok key (s[k := v])"
  unfolding heap_ok_def
proof (intro allI impI)
  fix i assume i: "2 \<le> i" "i < length (s[k := v])"
  have "i div 2 < i" using i by simp
  then show "key (s[k := v] ! i) \<le> key (s[k := v] ! (i div 2))"
    using assms i by (cases "i = k"; cases "i div 2 = k") (auto simp: hole_ok_def nth_list_update)
qed

lemma hole_up:
  assumes "hole_ok key k s" "2 \<le> k" "k < length s"
  shows "hole_ok key (k div 2) (s[k := s ! (k div 2)])"
proof -
  have up: "key (s ! i) \<le> key (s ! (i div 2))" if "2 \<le> i" "i < length s" "i \<noteq> k" "i div 2 \<noteq> k" for i
    using assms(1) that by (simp add: hole_ok_def)
  have gc: "key (s ! c) \<le> key (s ! (k div 2))" if "c < length s" "c div 2 = k" for c
    using assms(1,2) that by (simp add: hole_ok_def)
  have lt: "k div 2 < k" "k div 2 div 2 < k" using assms(2) by auto
  have "key (s[k := s ! (k div 2)] ! i) \<le> key (s[k := s ! (k div 2)] ! (i div 2))"
    if "2 \<le> i" "i < length s" "i \<noteq> k div 2" "i div 2 \<noteq> k div 2" for i
    using that up [of i] gc [of i] assms(3) by (cases "i = k"; cases "i div 2 = k") (auto simp: nth_list_update)
  moreover have "key (s[k := s ! (k div 2)] ! c) \<le> key (s[k := s ! (k div 2)] ! (k div 2 div 2))"
    if "2 \<le> k div 2" "c < length s" "c div 2 = k div 2" for c
  proof -
    have p: "key (s ! (k div 2)) \<le> key (s ! (k div 2 div 2))" using up [of "k div 2"] that lt assms(3) by simp
    show ?thesis
    proof (cases "c = k")
      case True
      then show ?thesis using p lt assms(3) by (simp add: nth_list_update)
    next
      case False
      have "key (s ! c) \<le> key (s ! (c div 2))" by (rule up) (use that False lt in auto)
      then show ?thesis using p that False lt by simp
    qed
  qed
  ultimately show ?thesis by (simp add: hole_ok_def)
qed

lemma sift_up_ok:
  assumes "small_box boxes val"
  shows "1 \<le> k \<Longrightarrow> k < length s \<Longrightarrow> list_all (small_box boxes) (tl s) \<Longrightarrow> hole_ok (box_key boxes) k s \<Longrightarrow>
    (\<forall>c. 2 \<le> c \<longrightarrow> c < length s \<longrightarrow> c div 2 = k \<longrightarrow> box_key boxes (s ! c) \<le> box_key boxes val) \<Longrightarrow>
    heap_ok (box_key boxes) (sift_up boxes val k s)"
  using assms
proof (induction boxes val k s rule: sift_up.induct)
  case (1 boxes val k s)
  have small: "small_box boxes (s ! i)" if "1 \<le> i" "i < length s" for i
  proof -
    have "s ! i = tl s ! (i - 1)" using that by (cases s) auto
    then show ?thesis using "1.prems"(3) that by (simp add: list_all_length)
  qed
  show ?case
  proof (cases "k \<le> 1")
    case True
    then show ?thesis using "1.prems" by (subst sift_up.simps) (auto intro!: hole_fill)
  next
    case False
    have cmp: "heap_cmp boxes val (s ! (k div 2)) \<le> 0 \<longleftrightarrow> box_key boxes val \<le> box_key boxes (s ! (k div 2))"
      using heap_cmp_pos [OF "1.prems"(6) small [of "k div 2"]] False "1.prems"(2) by auto
    show ?thesis
    proof (cases "heap_cmp boxes val (s ! (k div 2)) \<le> 0")
      case True
      then show ?thesis using "1.prems" False cmp by (subst sift_up.simps) (auto intro!: hole_fill)
    next
      case lt: False
      let ?s = "s[k := s ! (k div 2)]"
      have "list_all (small_box boxes) (tl ?s)"
        using "1.prems"(2,3) small [of "k div 2"] False
        by (auto simp: list_all_length nth_tl nth_list_update)
      moreover have "hole_ok (box_key boxes) (k div 2) ?s"
        by (rule hole_up) (use "1.prems" False in auto)
      moreover have "box_key boxes (?s ! c) \<le> box_key boxes val"
        if c: "2 \<le> c" "c < length ?s" "c div 2 = k div 2" for c
      proof (cases "c = k")
        case True
        then show ?thesis using lt cmp "1.prems"(2) by simp
      next
        case ck: False
        have "c div 2 \<noteq> k" using c False by simp
        then have "box_key boxes (s ! c) \<le> box_key boxes (s ! (c div 2))"
          using "1.prems"(4) c ck by (auto simp: hole_ok_def)
        then show ?thesis using lt cmp c ck by simp
      qed
      ultimately have "heap_ok (box_key boxes) (sift_up boxes val (k div 2) ?s)"
        using "1.IH" [OF False lt] "1.prems" False by simp
      then show ?thesis using False lt by (subst sift_up.simps) simp
    qed
  qed
qed

lemma hole_down:
  assumes "hole_ok key k s" "1 \<le> k" "k < length s" "l < length s" "2 \<le> l" "l div 2 = k"
    and "\<And>c. c < length s \<Longrightarrow> 2 \<le> c \<Longrightarrow> c div 2 = k \<Longrightarrow> key (s ! c) \<le> key (s ! l)"
  shows "hole_ok key l (s[k := s ! l])"
proof -
  have ok: "key (s ! i) \<le> key (s ! (i div 2))" if "2 \<le> i" "i < length s" "i \<noteq> k" "i div 2 \<noteq> k" for i
    using assms(1) that by (simp add: hole_ok_def)
  have gc: "key (s ! c) \<le> key (s ! (k div 2))" if "2 \<le> k" "c < length s" "c div 2 = k" for c
    using assms(1) that by (simp add: hole_ok_def)
  have kl: "k < l" "k div 2 < k" using assms(2,5,6) by auto
  have "key (s[k := s ! l] ! i) \<le> key (s[k := s ! l] ! (i div 2))"
    if "2 \<le> i" "i < length s" "i \<noteq> l" "i div 2 \<noteq> l" for i
    using that ok [of i] gc [of l] assms(3-6) assms(7) [of i] kl
    by (cases "i = k"; cases "i div 2 = k") (auto simp: nth_list_update)
  moreover have "key (s[k := s ! l] ! c) \<le> key (s[k := s ! l] ! (l div 2))"
    if c: "c < length s" "c div 2 = l" for c
  proof -
    have "c \<noteq> k" "2 \<le> c" "c div 2 \<noteq> k" using c kl assms(5) by auto
    then have "key (s ! c) \<le> key (s ! l)" using ok [of c] c by simp
    then show ?thesis using \<open>c \<noteq> k\<close> assms(3,6) by (simp add: nth_list_update)
  qed
  ultimately show ?thesis by (simp add: hole_ok_def)
qed

lemma small_slots:
  "list_all (small_box boxes) (tl s) \<Longrightarrow> 1 \<le> i \<Longrightarrow> i < length s \<Longrightarrow> small_box boxes (s ! i)"
  by (cases s) (auto simp: list_all_length nth_Cons')

lemma small_update:
  "list_all (small_box boxes) (tl s) \<Longrightarrow> small_box boxes v \<Longrightarrow> list_all (small_box boxes) (tl (s[k := v]))"
  using set_update_subset_insert by (cases s; cases k) (fastforce simp: list_all_iff)+

lemma larger_child:
  assumes "list_all (small_box boxes) (tl s)" "cnt = length s - 1" "1 \<le> k" "k * 2 \<le> cnt"
  defines "l \<equiv> if k * 2 < cnt \<and> heap_cmp boxes (s ! (k * 2)) (s ! (k * 2 + 1)) < 0 then k * 2 + 1 else k * 2"
  shows "l < length s" "2 \<le> l" "l div 2 = k" "l \<le> cnt"
    "c < length s \<Longrightarrow> 2 \<le> c \<Longrightarrow> c div 2 = k \<Longrightarrow> box_key boxes (s ! c) \<le> box_key boxes (s ! l)"
proof -
  show "l < length s" "2 \<le> l" "l div 2 = k" "l \<le> cnt" using assms(2-4) by (auto simp: l_def)
  assume c: "c < length s" "2 \<le> c" "c div 2 = k"
  then consider "c = k * 2" | "c = k * 2 + 1" by linarith
  then show "box_key boxes (s ! c) \<le> box_key boxes (s ! l)"
    using c assms(2-4) heap_cmp_pos [OF small_slots [OF assms(1), of "k * 2"] small_slots [OF assms(1), of "k * 2 + 1"]]
    by cases (auto simp: l_def)
qed

lemma sift_down_ok:
  "1 \<le> k \<Longrightarrow> k < length s \<Longrightarrow> cnt = length s - 1 \<Longrightarrow> small_box boxes v \<Longrightarrow>
   list_all (small_box boxes) (tl s) \<Longrightarrow> hole_ok (box_key boxes) k s \<Longrightarrow>
   (2 \<le> k \<longrightarrow> box_key boxes v \<le> box_key boxes (s ! (k div 2))) \<Longrightarrow>
   heap_ok (box_key boxes) (sift_down boxes v cnt k s)"
proof (induction boxes v cnt k s rule: sift_down.induct)
  case (1 boxes v cnt k s)
  define l where "l = (if k * 2 < cnt \<and> heap_cmp boxes (s ! (k * 2)) (s ! (k * 2 + 1)) < 0 then k * 2 + 1 else k * 2)"
  have step: "sift_down boxes v cnt k s =
      (if 1 \<le> k \<and> k * 2 \<le> cnt then
         (if heap_cmp boxes v (s ! l) > 0 then s[k := v] else sift_down boxes v cnt l (s[k := s ! l]))
       else s[k := v])"
    by (subst sift_down.simps) (simp add: Let_def l_def)
  show ?case
  proof (cases "k * 2 \<le> cnt")
    case False
    have "heap_ok (box_key boxes) (s[k := v])"
      by (rule hole_fill) (use "1.prems" False in auto)
    then show ?thesis using False by (simp add: step)
  next
    case True
    note l = larger_child [OF "1.prems"(5,3,1) True, folded l_def]
    have small_l: "small_box boxes (s ! l)" by (rule small_slots [OF "1.prems"(5)]) (use l in auto)
    note cmp = heap_cmp_pos [OF "1.prems"(4) small_l]
    show ?thesis
    proof (cases "heap_cmp boxes v (s ! l) > 0")
      case gt: True
      have "box_key boxes (s ! c) \<le> box_key boxes v" if "2 \<le> c" "c < length s" "c div 2 = k" for c
        using l(5) [OF that(2,1,3)] gt cmp by simp
      then have "heap_ok (box_key boxes) (s[k := v])"
        by (intro hole_fill) (use "1.prems" in auto)
      then show ?thesis using True gt "1.prems"(1) by (simp add: step)
    next
      case le: False
      have "heap_ok (box_key boxes) (sift_down boxes v cnt l (s[k := s ! l]))"
      proof (rule "1.IH" [OF _ refl l_def le])
        show "hole_ok (box_key boxes) l (s[k := s ! l])"
          by (rule hole_down [OF "1.prems"(6,1,2) l(1,2,3)]) (rule l(5))
        show "list_all (small_box boxes) (tl (s[k := s ! l]))" by (rule small_update [OF "1.prems"(5) small_l])
        show "2 \<le> l \<longrightarrow> box_key boxes v \<le> box_key boxes (s[k := s ! l] ! (l div 2))"
          using le cmp l(3) "1.prems"(2) by simp
      qed (use l True "1.prems" in auto)
      then show ?thesis using True le "1.prems"(1) by (simp add: step)
    qed
  qed
qed

subsection \<open>The interpretation\<close>

definition heap_invar :: "box_node list \<Rightarrow> nat list \<Rightarrow> bool" where
  "heap_invar boxes s \<longleftrightarrow> s \<noteq> [] \<and> list_all (small_box boxes) (tl s) \<and> heap_ok (box_key boxes) s"

lemma heap_root:
  assumes "heap_ok key s" shows "1 \<le> i \<Longrightarrow> i < length s \<Longrightarrow> key (s ! i) \<le> key (s ! 1)"
proof (induction i rule: less_induct)
  case (less i)
  show ?case
  proof (cases "i = 1")
    case False
    with less.prems assms have "key (s ! i) \<le> key (s ! (i div 2))" by (simp add: heap_ok_def)
    also have "\<dots> \<le> key (s ! 1)" by (rule less.IH) (use less.prems False in auto)
    finally show ?thesis .
  qed simp
qed

lemma small_mset: "mset (tl s) = mset (tl s') \<Longrightarrow> list_all P (tl s) = list_all P (tl s')"
  by (metis list_all_iff mset_eq_setD)

lemma heap_add_invar:
  assumes "heap_invar boxes s" and "small_box boxes v"
  shows "heap_invar boxes (heap_add boxes v s)"
proof -
  have s: "s \<noteq> []" "list_all (small_box boxes) (tl s)" "heap_ok (box_key boxes) s"
    using assms(1) by (simp_all add: heap_invar_def)
  have len: "1 \<le> length s" using s(1) by (cases s) auto
  have small: "list_all (small_box boxes) (tl (s @ [v]))" using s assms(2) by simp
  have "hole_ok (box_key boxes) (length s) (s @ [v])"
    using s(3) len by (auto simp: hole_ok_def heap_ok_def nth_append)
  moreover have "\<not> c div 2 = length s" if "2 \<le> c" "c < length (s @ [v])" for c
    using that by auto
  ultimately have "heap_ok (box_key boxes) (sift_up boxes v (length s) (s @ [v]))"
    using sift_up_ok [OF assms(2) len _ small] by fastforce
  moreover have "list_all (small_box boxes) (tl (heap_add boxes v s))"
    using small_mset [of "heap_add boxes v s" "0 # v # tl s"] heap_add_mset(1) [OF s(1)] s(2) assms(2) by simp
  ultimately show ?thesis using heap_add_mset(2) [OF s(1)] by (simp add: heap_invar_def heap_add_def Let_def)
qed

lemma heap_remove_invar:
  assumes "heap_invar boxes s" and "heap_remove boxes s = (Some e, rest)"
  shows "heap_invar boxes rest" and "x \<in> set (tl s) \<Longrightarrow> box_key boxes x \<le> box_key boxes e"
proof -
  have s: "s \<noteq> []" "list_all (small_box boxes) (tl s)" "heap_ok (box_key boxes) s"
    using assms(1) by (simp_all add: heap_invar_def)
  note m = heap_remove_mset [OF s(1) assms(2)]
  have len: "1 < length s" "e = s ! 1"
    using assms(2) by (auto simp: heap_remove_def Let_def split: if_splits)
  have small: "list_all (small_box boxes) (tl rest)"
    using s(2) small_mset [of s "0 # e # tl rest"] m(1) by simp
  have "heap_ok (box_key boxes) rest"
  proof (cases "length s = 2")
    case True
    then show ?thesis using assms(2) by (auto simp: heap_remove_def Let_def heap_ok_def)
  next
    case False
    then have rest: "rest = sift_down boxes (last s) (length s - Suc (Suc 0)) 1 (butlast s)"
      using assms(2) len by (auto simp: heap_remove_def Let_def split: if_splits)
    have "hole_ok (box_key boxes) 1 (butlast s)"
      using s(3) by (auto simp: hole_ok_def heap_ok_def nth_butlast)
    moreover have "small_box boxes (last s)"
      using small_slots [OF s(2), of "length s - 1"] len s(1) by (simp add: last_conv_nth)
    moreover have "list_all (small_box boxes) (tl (butlast s))"
      using s(2) by (metis (no_types, lifting) butlast_tl in_set_butlastD list_all_iff)
    ultimately show ?thesis
      unfolding rest using len False by (intro sift_down_ok) auto
  qed
  then show "heap_invar boxes rest" using m(2) small by (simp add: heap_invar_def)
  assume "x \<in> set (tl s)"
  then obtain i where "i < length (tl s)" "x = tl s ! i" by (auto simp: in_set_conv_nth)
  then have "x = s ! Suc i" "Suc i < length s" by (simp_all add: nth_tl)
  then show "box_key boxes x \<le> box_key boxes e" using heap_root [OF s(3), of "Suc i"] len by simp
qed

interpretation box_heap: priority_queue "heap_add boxes" "heap_remove boxes" "\<lambda>s. mset (tl s)"
  "heap_invar boxes" "box_key boxes" "small_box boxes" for boxes
proof unfold_locales
  show "heap_invar boxes q \<Longrightarrow> (fst (heap_remove boxes q) = None) = (mset (tl q) = {#})" for q
    by (cases q) (auto simp: heap_invar_def heap_remove_def Let_def)
  show "heap_invar boxes q \<Longrightarrow> small_box boxes e \<Longrightarrow> heap_invar boxes (heap_add boxes e q)" for q e
    by (rule heap_add_invar)
  show "heap_invar boxes q \<Longrightarrow> mset (tl (heap_add boxes e q)) = add_mset e (mset (tl q))" for q e
    by (rule heap_add_mset) (simp add: heap_invar_def)
  show "heap_invar boxes q \<Longrightarrow> heap_remove boxes q = (Some e, q') \<Longrightarrow> mset (tl q) = add_mset e (mset (tl q'))" for q e q'
    by (rule heap_remove_mset) (simp_all add: heap_invar_def)
  show "heap_invar boxes q \<Longrightarrow> heap_remove boxes q = (Some e, q') \<Longrightarrow> heap_invar boxes q'" for q e q'
    by (rule heap_remove_invar)
  show "heap_invar boxes q \<Longrightarrow> heap_remove boxes q = (Some e, q') \<Longrightarrow> x \<in># mset (tl q) \<Longrightarrow>
      box_key boxes x \<le> box_key boxes e" for q e q' x
    using heap_remove_invar(2) by simp
qed

text \<open>C38. Quantizer, heap: adding boxes whose pixel counts fit 31 bits in any order and removing
  them all yields exactly those boxes, largest pixel count first: the next box split is always a largest one.\<close>

theorem heap_pops_largest_first:
  assumes "list_all (small_box boxes) ns"
  shows "mset (box_heap.drain boxes (length ns) (box_heap.add_all boxes ns [0])) = mset ns \<and>
    sorted_wrt (\<lambda>a b. bn_pixel_count (boxes ! b) \<le> bn_pixel_count (boxes ! a))
      (box_heap.drain boxes (length ns) (box_heap.add_all boxes ns [0]))"
proof -
  have "heap_invar boxes [0]" by (simp add: heap_invar_def heap_ok_def)
  from box_heap.add_all_items [OF this assms] have "heap_invar boxes (box_heap.add_all boxes ns [0])"
    "mset (tl (box_heap.add_all boxes ns [0])) = mset ns" by auto
  with box_heap.drain_sorted [OF this(1), of "length ns"] show ?thesis by simp
qed

definition box_counts :: "nat list \<Rightarrow> box_node list" where
  "box_counts cs = map (\<lambda>c. \<lparr>bn_entries = [], bn_pixel_count = c, bn_children = None\<rparr>) cs"

theorem heap_pops_largest_first_witness:
  "mset (box_heap.drain (box_counts [5, 9, 1]) 3 (box_heap.add_all (box_counts [5, 9, 1]) [0, 1, 2] [0])) = mset [0, 1, 2]"
proof -
  have "list_all (small_box (box_counts [5, 9, 1])) [0, 1, 2]" by (simp add: small_box_def box_counts_def)
  moreover have "length [0, 1, 2 :: nat] = 3" by simp
  ultimately show ?thesis using heap_pops_largest_first [of "box_counts [5, 9, 1]" "[0, 1, 2]"] by presburger
qed

end
