(* ===== verification/Ramp.thy ===== *)
theory Ramp
  imports Oklab
begin

text \<open>
  The model of wlchroma's palette expansion (\<open>src/color/ramp.rs\<close>), which the project uses to measure brightness.
  A colour that does not parse panics: \<open>None\<close>.
\<close>

definition PAIRS :: "(nat \<times> nat) list" where "PAIRS = [(0, 1), (1, 2), (2, 0)]"
definition ALPHAS :: "real list" where "ALPHAS = [1, 0.72, 0.50, 0.28]"

definition blend :: "nat \<Rightarrow> nat \<Rightarrow> real \<Rightarrow> nat" where
  "blend bg fg alpha =
     nat (max 0 (min 255 \<lfloor>real bg * (1 - alpha) + real fg * alpha + 0.5\<rfloor>))"

definition blend_cell :: "(nat \<times> nat \<times> nat) list \<Rightarrow> nat \<times> nat \<Rightarrow> real \<Rightarrow> string" where
  "blend_cell rgb pair alpha =
     (case (rgb ! snd pair, rgb ! fst pair) of ((b0, b1, b2), (f0, f1, f2)) \<Rightarrow>
        hex_color (blend b0 f0 alpha) (blend b1 f1 alpha) (blend b2 f2 alpha))"

definition expand :: "string \<Rightarrow> string \<Rightarrow> string \<Rightarrow> string list option" where
  "expand c1 c2 c3 =
     map_option (\<lambda>rgb. concat (map (\<lambda>pair. map (blend_cell rgb pair) ALPHAS) PAIRS))
       (those (map hex_channels [c1, c2, c3]))"

definition cell_luminance :: "nat \<times> nat \<times> nat \<Rightarrow> real" where
  "cell_luminance c =
     (case c of (r, g, b) \<Rightarrow>
        0.2126 * to_linear (real r / 255) + 0.7152 * to_linear (real g / 255) + 0.0722 * to_linear (real b / 255))"

definition mean_luminance :: "string \<Rightarrow> string \<Rightarrow> string \<Rightarrow> real option" where
  "mean_luminance c1 c2 c3 =
     Option.bind (expand c1 c2 c3) (\<lambda>cells.
     map_option (\<lambda>cs. sum_list (map cell_luminance cs) / 12) (those (map hex_channels cells)))"

subsection \<open>Cells and luminance\<close>

lemma blend_less: "blend bg fg a < 256"
  by (simp add: blend_def nat_less_iff)

lemma blend_full: "fg < 256 \<Longrightarrow> blend bg fg 1 = fg"
  by (simp add: blend_def floor_eq_iff)

lemma to_linear_unit:
  assumes "0 \<le> c" "c \<le> 1"
  shows "0 \<le> to_linear c" "to_linear c \<le> 1"
proof -
  have "((c + 0.055) / 1.055) powr 2.4 \<le> 1 powr 2.4" using assms by (intro powr_mono2) simp_all
  then show "0 \<le> to_linear c" "to_linear c \<le> 1" using assms by (auto simp: to_linear_def)
qed

lemma cell_luminance_unit:
  assumes "r < 256" "g < 256" "b < 256"
  shows "0 \<le> cell_luminance (r, g, b) \<and> cell_luminance (r, g, b) \<le> 1"
proof -
  have unit: "0 \<le> to_linear (real n / 255)" "to_linear (real n / 255) \<le> 1" if "n < 256" for n
    using that to_linear_unit[of "real n / 255"] by simp_all
  show ?thesis
    using unit[OF assms(1)] unit[OF assms(2)] unit[OF assms(3)] by (simp add: cell_luminance_def)
qed

definition byte_color :: "nat \<times> nat \<times> nat \<Rightarrow> bool" where
  "byte_color c \<longleftrightarrow> (case c of (r, g, b) \<Rightarrow> r < 256 \<and> g < 256 \<and> b < 256)"

definition print_color :: "nat \<times> nat \<times> nat \<Rightarrow> string" where
  "print_color c = (case c of (r, g, b) \<Rightarrow> hex_color r g b)"

lemma print_color_spec:
  "byte_color c \<Longrightarrow> hex_channels (print_color c) = Some c \<and> valid_hex (print_color c)"
  using hex_color_channels by (auto simp: byte_color_def print_color_def)

lemma those_print: "list_all byte_color cs \<Longrightarrow> those (map hex_channels (map print_color cs)) = Some cs"
  using print_color_spec by (induction cs) auto

lemma blend_cell_spec: "\<exists>c. blend_cell rgb pair a = print_color c \<and> byte_color c"
proof -
  obtain b0 b1 b2 where b: "rgb ! snd pair = (b0, b1, b2)" by (cases "rgb ! snd pair") auto
  obtain f0 f1 f2 where f: "rgb ! fst pair = (f0, f1, f2)" by (cases "rgb ! fst pair") auto
  show ?thesis
    by (rule exI[of _ "(blend b0 f0 a, blend b1 f1 a, blend b2 f2 a)"])
      (simp add: blend_cell_def b f print_color_def byte_color_def blend_less)
qed

lemma printed_list:
  assumes "\<forall>x \<in> set xs. \<exists>c. x = print_color c \<and> byte_color c"
  shows "\<exists>cs. xs = map print_color cs \<and> list_all byte_color cs"
  using assms
proof (induction xs)
  case (Cons x xs)
  then obtain c cs where "x # xs = map print_color (c # cs)" "list_all byte_color (c # cs)" by auto
  then show ?case by (intro exI[of _ "c # cs"] conjI)
qed simp

lemma blend_cell_full: "byte_color (rgb ! fst pair) \<Longrightarrow> blend_cell rgb pair 1 = print_color (rgb ! fst pair)"
  by (auto simp: blend_cell_def print_color_def byte_color_def blend_full split: prod.splits)

lemma mean_unit:
  assumes "list_all byte_color cs"
  shows "0 \<le> sum_list (map cell_luminance cs) \<and> sum_list (map cell_luminance cs) \<le> real (length cs)"
  using assms
proof (induction cs)
  case (Cons c cs)
  moreover obtain r g b where "c = (r, g, b)" by (cases c) auto
  ultimately show ?case using cell_luminance_unit[of r g b] by (auto simp: byte_color_def)
qed simp

text \<open>For three colours as the pipeline prints them, the expansion gives twelve well-formed cells, each
  pair's first cell is the foreground colour itself, and the mean luminance of the cells lies between 0 and 1.\<close>

theorem ramp_cells:
  assumes "byte_color c1" "byte_color c2" "byte_color c3"
  shows "\<exists>cells l. expand (print_color c1) (print_color c2) (print_color c3) = Some cells
    \<and> length cells = 12 \<and> list_all valid_hex cells
    \<and> cells ! 0 = print_color c1 \<and> cells ! 4 = print_color c2 \<and> cells ! 8 = print_color c3
    \<and> mean_luminance (print_color c1) (print_color c2) (print_color c3) = Some l \<and> 0 \<le> l \<and> l \<le> 1"
proof -
  let ?rgb = "[c1, c2, c3]"
  let ?cells = "concat (map (\<lambda>pair. map (blend_cell ?rgb pair) ALPHAS) PAIRS)"
  have e: "expand (print_color c1) (print_color c2) (print_color c3) = Some ?cells"
    using those_print[of ?rgb] assms by (simp add: expand_def)
  have "\<forall>x \<in> set ?cells. \<exists>c. x = print_color c \<and> byte_color c"
    using blend_cell_spec by (auto simp: PAIRS_def ALPHAS_def)
  then obtain cs where cs: "?cells = map print_color cs" "list_all byte_color cs"
    using printed_list by blast
  have len: "length ?cells = 12" by (simp add: PAIRS_def ALPHAS_def)
  then have "length cs = 12" using cs(1) by (metis length_map)
  have first: "?cells ! 0 = print_color c1" "?cells ! 4 = print_color c2" "?cells ! 8 = print_color c3"
    using assms blend_cell_full[of ?rgb] by (simp_all add: PAIRS_def ALPHAS_def)
  have "list_all valid_hex ?cells" using cs print_color_spec by (auto simp: list_all_iff)
  moreover have "mean_luminance (print_color c1) (print_color c2) (print_color c3) =
      Some (sum_list (map cell_luminance cs) / 12)"
    unfolding mean_luminance_def e cs(1) using those_print[OF cs(2)] by simp
  moreover have "0 \<le> sum_list (map cell_luminance cs) / 12" "sum_list (map cell_luminance cs) / 12 \<le> 1"
    using mean_unit[OF cs(2)] \<open>length cs = 12\<close> by simp_all
  ultimately show ?thesis using e len first by blast
qed

theorem ramp_cells_witness:
  "\<exists>cells l. expand ''#ff0000'' ''#00ff00'' ''#0000ff'' = Some cells \<and> length cells = 12
    \<and> mean_luminance ''#ff0000'' ''#00ff00'' ''#0000ff'' = Some l \<and> 0 \<le> l \<and> l \<le> 1"
proof -
  have "print_color (255, 0, 0) = ''#ff0000''" "print_color (0, 255, 0) = ''#00ff00''"
    "print_color (0, 0, 255) = ''#0000ff''"
    by code_simp+
  then show ?thesis using ramp_cells[of "(255, 0, 0)" "(0, 255, 0)" "(0, 0, 255)"] by (auto simp: byte_color_def)
qed

end
