(* ===== verification/Coordinator_Tests.thy ===== *)
theory Coordinator_Tests
  imports Coordinator_Props
begin

text \<open>
  The unit tests of \<open>src/coordinator.rs\<close>, replayed on the model: each test is a definition with the test's own steps
  and assertions, evaluated by the simplifier. They tie the model of the handlers to what the program is tested for.
\<close>

subsection \<open>The harness\<close>

definition PLAYERS_TEST :: string where "PLAYERS_TEST = ''jellyfin-tui,spotify''"
definition JF_DIR :: path where "JF_DIR = [''covers'', ''jf'']"

type_synonym test_coord = "fake_host coordinator"

text \<open>The strings of the tests, kept folded so that evaluation does not unfold them.\<close>

definition spotify :: string where "spotify = ''spotify''"
definition jellyfin :: string where "jellyfin = ''jellyfin-tui''"
definition url_a :: string where "url_a = ''https://x/a''"
definition url_b :: string where "url_b = ''https://x/b''"
definition url_s :: string where "url_s = ''https://x/s''"
definition url_j :: string where "url_j = ''https://x/j''"
definition id_a :: string where "id_a = ''/cache/a''"
definition id_j :: string where "id_j = ''/cache/j''"
definition id_s :: string where "id_s = ''/cache/s''"
definition evilplayer :: string where "evilplayer = ''evilplayer''"
definition url_bad :: string where "url_bad = ''https://x/bad''"
definition url_good :: string where "url_good = ''https://x/good''"
definition url_evil :: string where "url_evil = ''https://evil/a''"
definition url_u :: string where "url_u = ''u''"
definition spotify_instance :: string where "spotify_instance = ''spotify.instance42''"
definition spotifyevil :: string where "spotifyevil = ''spotifyevil''"
definition onlythis :: string where "onlythis = ''onlythis''"
definition bus_spotify :: string where "bus_spotify = ''org.mpris.MediaPlayer2.spotify''"

lemmas string_defs = spotify_def jellyfin_def url_a_def url_b_def url_s_def url_j_def id_a_def id_j_def id_s_def
  evilplayer_def bus_spotify_def url_bad_def url_good_def url_evil_def url_u_def spotify_instance_def spotifyevil_def
  onlythis_def

definition garbage_line :: string where "garbage_line = ''garbage'' @ [CHR 0x0A]"
definition extra_line :: string where "extra_line = spotify @ [CHR 0x09] @ ''Playing'' @ [CHR 0x09] @ url_a @ [CHR 0x09] @ ''Playing'' @ [CHR 0x09] @ ''https://evil'' @ [CHR 0x0A]"
definition short_line :: string where "short_line = spotify @ [CHR 0x09] @ ''Playing'' @ [CHR 0x0A]"
definition empty_art_line :: string where "empty_art_line = jellyfin @ [CHR 0x09] @ ''Playing'' @ [CHR 0x09] @ [CHR 0x0A]"
definition extra_u_line :: string where "extra_u_line = spotify @ [CHR 0x09] @ ''Playing'' @ [CHR 0x09] @ url_u @ [CHR 0x09] @ ''extra'' @ [CHR 0x0A]"

definition harness_with :: "mode \<Rightarrow> string \<Rightarrow> test_coord" where
  "harness_with m allowed =
     coordinator_new fake_default (\<lambda>name. if name = jellyfin then Some JF_DIR else None) m allowed"

definition harness :: test_coord where
  "harness = harness_with Dark PLAYERS_TEST"

definition test_line :: "string \<Rightarrow> string \<Rightarrow> string \<Rightarrow> string" where
  "test_line name status art = name @ [CHR 0x09] @ status @ [CHR 0x09] @ art @ [CHR 0x0A]"

definition target_of :: "string \<Rightarrow> path option \<Rightarrow> cover_target" where
  "target_of art dir = \<lparr>ct_art_url = art, ct_covers_dir = dir\<rparr>"

definition apply_of :: "string \<Rightarrow> path option \<Rightarrow> mode \<Rightarrow> desired" where
  "apply_of art dir m = \<lparr>d_target = Some (target_of art dir), d_mode = m\<rparr>"

definition revert_of :: "mode \<Rightarrow> desired" where
  "revert_of m = \<lparr>d_target = None, d_mode = m\<rparr>"

definition result_of :: "nat \<Rightarrow> outcome \<Rightarrow> string option \<Rightarrow> job_result" where
  "result_of g out cid = \<lparr>jr_generation = g, jr_outcome = out, jr_cover_id = cid\<rparr>"

definition submitted :: "test_coord \<Rightarrow> (nat \<times> desired) list" where
  "submitted h = fh_submitted (c_host h)"

definition last_of :: "test_coord \<Rightarrow> nat \<times> desired" where
  "last_of h = last (submitted h)"

definition last_gen :: "test_coord \<Rightarrow> nat" where
  "last_gen h = fst (last_of h)"

definition adopt_last :: "outcome \<Rightarrow> string option \<Rightarrow> test_coord \<Rightarrow> test_coord" where
  "adopt_last out cid h = adopt fake_ops (result_of (last_gen h) out cid) h"

definition commit :: "string \<Rightarrow> test_coord \<Rightarrow> test_coord" where
  "commit cid h = adopt_last Committed (Some cid) h"

text \<open>\<open>None\<close> is the failed assertion that a timer was armed.\<close>

definition fire_last_timer :: "test_coord \<Rightarrow> test_coord option" where
  "fire_last_timer h = (if fh_scheduled (c_host h) = [] then None else Some (fire_retry fake_ops h))"

text \<open>The loops of the tests: fire, then fail.\<close>

primrec fail_rounds :: "nat \<Rightarrow> test_coord \<Rightarrow> test_coord option" where
  "fail_rounds 0 h = Some h"
| "fail_rounds (Suc n) h =
     (case fire_last_timer h of None \<Rightarrow> None | Some h1 \<Rightarrow> fail_rounds n (adopt_last FailedRetryable None h1))"

text \<open>The same with the generations counted up from that of the first failure.\<close>

primrec fail_from :: "nat \<Rightarrow> nat \<Rightarrow> test_coord \<Rightarrow> test_coord option" where
  "fail_from g 0 h = Some h"
| "fail_from g (Suc n) h =
     (case fire_last_timer h of
        None \<Rightarrow> None
      | Some h1 \<Rightarrow> fail_from (g + 1) n (adopt fake_ops (result_of (g + 1) FailedRetryable None) h1))"

definition test_on_line :: "string \<Rightarrow> string \<Rightarrow> string \<Rightarrow> test_coord \<Rightarrow> test_coord" where
  "test_on_line name status art h = on_line fake_ops (test_line name status art) h"

definition fail_apply :: "string \<Rightarrow> test_coord \<Rightarrow> test_coord" where
  "fail_apply art h =
     (let h1 = test_on_line spotify ''Playing'' art h
      in adopt fake_ops (result_of (last_gen h1) FailedRetryable None) h1)"

primrec repeat_line :: "nat \<Rightarrow> string \<Rightarrow> string \<Rightarrow> string \<Rightarrow> test_coord \<Rightarrow> test_coord" where
  "repeat_line 0 name status art h = h"
| "repeat_line (Suc n) name status art h = repeat_line n name status art (test_on_line name status art h)"

primrec repeat_drop :: "nat \<Rightarrow> test_coord \<Rightarrow> test_coord" where
  "repeat_drop 0 h = h"
| "repeat_drop (Suc n) h = repeat_drop n (log_drop fake_ops ''oversize'' ''line exceeded the frame limit'' h)"

lemma backoff_one: "backoff_delay_ms n 1 = min (1000 * 2 ^ (n - 1)) 30000"
  using backoff_bounds [of 1 n] by simp

lemma string_facts [simp]:
  "spotify \<noteq> jellyfin" "jellyfin \<noteq> spotify" "url_a \<noteq> []" "url_b \<noteq> []" "url_s \<noteq> []" "url_j \<noteq> []"
  "url_a \<noteq> url_b" "url_b \<noteq> url_a" "url_bad \<noteq> url_good" "url_good \<noteq> url_bad" "url_bad \<noteq> []" "url_good \<noteq> []"
  "url_u \<noteq> []"
  by (simp_all add: string_defs)

definition plain :: "string \<Rightarrow> bool" where
  "plain s \<longleftrightarrow> CHR 0x09 \<notin> set s \<and> CHR 0x0A \<notin> set s"

lemma plain_facts [simp]:
  "plain spotify" "plain jellyfin" "plain url_a" "plain url_b" "plain url_s" "plain url_j" "plain []" "plain evilplayer"
  "plain url_bad" "plain url_good" "plain url_evil" "plain url_u" "plain spotify_instance" "plain spotifyevil" "plain onlythis"
  by (simp_all add: plain_def string_defs)

lemma raw_fields:
  "split_on (CHR 0x09) (trim_end_matches (CHR 0x0A) garbage_line) = [''garbage'']"
  "split_on (CHR 0x09) (trim_end_matches (CHR 0x0A) extra_line) = [spotify, ''Playing'', url_a, ''Playing'', ''https://evil'']"
  "split_on (CHR 0x09) (trim_end_matches (CHR 0x0A) short_line) = [spotify, ''Playing'']"
  "split_on (CHR 0x09) (trim_end_matches (CHR 0x0A) empty_art_line) = [jellyfin, ''Playing'', []]"
  "split_on (CHR 0x09) (trim_end_matches (CHR 0x0A) extra_u_line) = [spotify, ''Playing'', url_u, ''extra'']"
  by (simp_all add: garbage_line_def extra_line_def short_line_def empty_art_line_def extra_u_line_def string_defs trim_end_matches_def)

lemma plain_split: "CHR 0x09 \<notin> set s \<Longrightarrow> split_on (CHR 0x09) (s @ CHR 0x09 # r) = s # split_on (CHR 0x09) r"
  by (induction s) (auto split: list.split)

lemma plain_split_end: "CHR 0x09 \<notin> set s \<Longrightarrow> split_on (CHR 0x09) s = [s]"
  by (induction s) (auto split: list.split)

lemma test_line_fields:
  assumes "plain n" "plain st" "plain a"
  shows "split_on (CHR 0x09) (trim_end_matches (CHR 0x0A) (test_line n st a)) = [n, st, a]"
proof -
  have "trim_end_matches (CHR 0x0A) (test_line n st a) = n @ CHR 0x09 # st @ CHR 0x09 # a"
    using assms(3) by (cases a rule: rev_cases) (auto simp: test_line_def trim_end_matches_def plain_def)
  then show ?thesis using assms by (simp add: plain_split plain_split_end plain_def)
qed

lemma plain_status [simp]: "plain ''Playing''" "plain ''Paused''" "plain ''Stopped''" "plain ''Bogus''"
  by (simp_all add: plain_def)

text \<open>A line of three plain fields, by status.\<close>

lemma test_on_line_simps:
  assumes "plain n" "plain a"
  shows "test_on_line n ''Playing'' a h = (if allowed_name h n then accept_line fake_ops n Playing a h
       else log_drop fake_ops ''name'' ''line named a player we do not follow'' h)"
    and "test_on_line n ''Paused'' a h = (if allowed_name h n then accept_line fake_ops n Paused a h
       else log_drop fake_ops ''name'' ''line named a player we do not follow'' h)"
    and "test_on_line n ''Stopped'' a h = (if allowed_name h n then accept_line fake_ops n Stopped a h
       else log_drop fake_ops ''name'' ''line named a player we do not follow'' h)"
    and "test_on_line n ''Bogus'' a h = (if allowed_name h n then log_drop fake_ops ''status'' ''unrecognized playback status'' h
       else log_drop fake_ops ''name'' ''line named a player we do not follow'' h)"
  using assms by (simp_all add: test_on_line_def on_line_def test_line_fields status_from_str_def)

lemma allowed_PLAYERS: "parse_allowed PLAYERS_TEST = [jellyfin, spotify]"
  by (simp add: PLAYERS_TEST_def parse_allowed_def trim_def is_space_def string_defs)

lemma allowed_onlythis: "parse_allowed onlythis = [onlythis]"
  by (simp add: parse_allowed_def trim_def is_space_def string_defs)

lemma base_facts [simp]: "base_matches spotify spotify" "base_matches jellyfin jellyfin" "\<not> base_matches spotify jellyfin"
  "\<not> base_matches jellyfin spotify" "\<not> base_matches evilplayer spotify" "\<not> base_matches evilplayer jellyfin"
  "base_matches spotify_instance spotify" "\<not> base_matches spotify_instance jellyfin" "\<not> base_matches spotifyevil spotify"
  "\<not> base_matches spotifyevil jellyfin" "base_matches onlythis onlythis" "\<not> base_matches spotify onlythis"
  by (simp_all add: base_matches_def strip_prefix_def starts_with_def string_defs)

lemma bus_facts: "player_name_from_bus bus_spotify = Some spotify"
  "player_name_from_bus ''org.freedesktop.Notifications'' = None"
  "player_name_from_bus ''org.mpris.MediaPlayer2.firefox'' = Some ''firefox''"
  by (simp_all add: player_name_from_bus_def MPRIS_PREFIX_def strip_prefix_def string_defs)

lemma firefox_facts [simp]: "spotify \<noteq> ''firefox''" "jellyfin \<noteq> ''firefox''" "''firefox'' \<noteq> spotify"
  by (simp_all add: string_defs)

lemma drop_interval: "DROP_LOG_INTERVAL \<le> DROP_LOG_INTERVAL + t \<and> \<not> DROP_LOG_INTERVAL \<le> 0"
  by (simp add: DROP_LOG_INTERVAL_def from_secs_def)

lemmas harness_simps = harness_def harness_with_def coordinator_new_def allowed_PLAYERS allowed_onlythis fake_default_def
  test_on_line_simps target_of_def apply_of_def revert_of_def result_of_def submitted_def last_of_def
  last_gen_def adopt_last_def commit_def fire_last_timer_def fail_apply_def

text \<open>A second drop of the same category at the same time logs nothing.\<close>

lemma log_drop_again: "log_drop fake_ops cat det (log_drop fake_ops cat det h) = log_drop fake_ops cat det h"
  by (simp add: log_drop_def Let_def fake_ops_def DROP_LOG_INTERVAL_def from_secs_def)

lemma repeat_drop_again: "repeat_drop (Suc n) h = log_drop fake_ops ''oversize'' ''line exceeded the frame limit'' h"
  by (induction n arbitrary: h) (simp_all add: log_drop_again)

lemma repeat_evil: "\<not> allowed_name h evilplayer \<Longrightarrow>
     repeat_line (Suc n) evilplayer ''Playing'' url_evil h = log_drop fake_ops ''name'' ''line named a player we do not follow'' h"
proof (induction n arbitrary: h)
  case (Suc n)
  have "\<not> allowed_name (log_drop fake_ops ''name'' ''line named a player we do not follow'' h) evilplayer"
    using Suc.prems by (simp add: log_drop_def Let_def)
  with Suc show ?case by (simp add: test_on_line_simps log_drop_again)
qed (simp add: test_on_line_simps)

lemma repeat_drop_10: "repeat_drop 10 h = log_drop fake_ops ''oversize'' ''line exceeded the frame limit'' h"
  using repeat_drop_again [of 9 h] by (simp del: repeat_drop.simps)

lemma repeat_evil_50: "\<not> allowed_name h evilplayer \<Longrightarrow>
     repeat_line 50 evilplayer ''Playing'' url_evil h = log_drop fake_ops ''name'' ''line named a player we do not follow'' h"
  using repeat_evil [of h 49] by (simp del: repeat_line.simps)

lemma log_drop_views:
  "allowed_name (log_drop fake_ops cat det h) = allowed_name h"
  "fh_submitted (c_host (log_drop fake_ops cat det h)) = fh_submitted (c_host h)"
  by (simp_all add: log_drop_def Let_def fake_ops_def allowed_name_def fun_eq_iff)

lemma repeat_counts: "repeat_line 2 = repeat_line (Suc (Suc 0))"
  "fail_rounds 3 = fail_rounds (Suc (Suc (Suc 0)))"
  "fail_from g 3 = fail_from g (Suc (Suc (Suc 0)))"
  by (simp_all add: numeral_2_eq_2 numeral_3_eq_3)

lemma fake_ops_simps:
  "h_submit fake_ops g d f = f\<lparr>fh_submitted := fh_submitted f @ [(g, d)]\<rparr>"
  "h_schedule_retry fake_ops ms f = (fh_next_handle f + 1, f\<lparr>fh_next_handle := fh_next_handle f + 1, fh_scheduled := fh_scheduled f @ [ms]\<rparr>)"
  "h_cancel_retry fake_ops t f = f\<lparr>fh_cancelled := fh_cancelled f @ [t]\<rparr>"
  "h_jitter fake_ops f = (1, f)" "h_now fake_ops f = fh_clock f" "h_warn fake_ops w f = f\<lparr>fh_warnings := fh_warnings f @ [w]\<rparr>"
  by (simp_all add: fake_ops_def Let_def)

lemmas handler_simps = on_line_def raw_fields test_line_fields status_from_str_def repeat_evil_50 repeat_drop_10
  log_drop_views repeat_counts accept_line_def Let_def maintain_cover_def art_identity_def decide_and_submit_def
  coord_decide_def decide_def rank_key_def eligible_player_def maybe_submit_def cancel_retry_def stable_identity_def
  fake_ops_simps allowed_name_def adopt_def
  arm_retry_def set_cover_status_def fire_retry_def with_status_def demote_def RETRY_MAX_ATTEMPTS_def
  on_vanish_def bus_facts on_scheme_def mode_from_color_scheme_def begin_shutdown_def
  backoff_one drop_interval

subsection \<open>The tests\<close>

definition bus_names_map_to_player_names :: bool where
  "bus_names_map_to_player_names \<longleftrightarrow>
     player_name_from_bus bus_spotify = Some spotify \<and>
      player_name_from_bus ''org.mpris.MediaPlayer2.jellyfin-tui.instance7'' = Some ''jellyfin-tui.instance7'' \<and>
      player_name_from_bus ''org.freedesktop.Notifications'' = None \<and>
      player_name_from_bus '':1.42'' = None"

lemma bus_names_map_to_player_names_holds: bus_names_map_to_player_names
  by (simp add: bus_names_map_to_player_names_def harness_simps handler_simps player_name_from_bus_def MPRIS_PREFIX_def strip_prefix_def string_defs cong: let_weak_cong)

definition color_scheme_maps_light_only_for_2 :: bool where
  "color_scheme_maps_light_only_for_2 \<longleftrightarrow>
     mode_from_color_scheme 1 = Dark \<and>
      mode_from_color_scheme 2 = Light \<and>
      mode_from_color_scheme 0 = Dark \<and>
      mode_from_color_scheme 7 = Dark"

lemma color_scheme_maps_light_only_for_2_holds: color_scheme_maps_light_only_for_2
  by (simp add: color_scheme_maps_light_only_for_2_def harness_simps handler_simps cong: let_weak_cong)

definition playing_with_art_submits_an_apply :: bool where
  "playing_with_art_submits_an_apply \<longleftrightarrow>
     (let h = test_on_line spotify ''Playing'' url_a harness
      in submitted h = [(1, apply_of url_a None Dark)])"

lemma playing_with_art_submits_an_apply_holds: playing_with_art_submits_an_apply
  by (simp add: playing_with_art_submits_an_apply_def harness_simps handler_simps cong: let_weak_cong)

definition malformed_line_is_ignored :: bool where
  "malformed_line_is_ignored \<longleftrightarrow>
     (let h = on_line fake_ops garbage_line harness
      in submitted h = [])"

lemma malformed_line_is_ignored_holds: malformed_line_is_ignored
  by (simp add: malformed_line_is_ignored_def harness_simps handler_simps cong: let_weak_cong)

definition repeated_identical_line_is_deduped :: bool where
  "repeated_identical_line_is_deduped \<longleftrightarrow>
     (let h\<^sub>1 = test_on_line spotify ''Playing'' url_a harness;
          h = test_on_line spotify ''Playing'' url_a h\<^sub>1
      in length (submitted h) = 1)"

lemma repeated_identical_line_is_deduped_holds: repeated_identical_line_is_deduped
  by (simp add: repeated_identical_line_is_deduped_def harness_simps handler_simps cong: let_weak_cong)

definition newer_cover_supersedes_and_bumps_gen :: bool where
  "newer_cover_supersedes_and_bumps_gen \<longleftrightarrow>
     (let h\<^sub>1 = test_on_line spotify ''Playing'' url_a harness;
          h = test_on_line spotify ''Playing'' url_b h\<^sub>1
      in map fst (submitted h) = [1, 2])"

lemma newer_cover_supersedes_and_bumps_gen_holds: newer_cover_supersedes_and_bumps_gen
  by (simp add: newer_cover_supersedes_and_bumps_gen_def harness_simps handler_simps cong: let_weak_cong)

definition stop_submits_a_revert :: bool where
  "stop_submits_a_revert \<longleftrightarrow>
     (let h\<^sub>1 = test_on_line spotify ''Playing'' url_a harness;
          h = test_on_line spotify ''Stopped'' [] h\<^sub>1
      in snd (last_of h) = revert_of Dark)"

lemma stop_submits_a_revert_holds: stop_submits_a_revert
  by (simp add: stop_submits_a_revert_def harness_simps handler_simps cong: let_weak_cong)

definition playing_without_art_source_holds_no_submit :: bool where
  "playing_without_art_source_holds_no_submit \<longleftrightarrow>
     (let h = test_on_line spotify ''Playing'' [] harness
      in submitted h = [])"

lemma playing_without_art_source_holds_no_submit_holds: playing_without_art_source_holds_no_submit
  by (simp add: playing_without_art_source_holds_no_submit_def harness_simps handler_simps cong: let_weak_cong)

definition dir_scan_player_always_resubmits_reusing_gen :: bool where
  "dir_scan_player_always_resubmits_reusing_gen \<longleftrightarrow>
     (let h\<^sub>1 = test_on_line jellyfin ''Playing'' [] harness;
          h = test_on_line jellyfin ''Playing'' [] h\<^sub>1
      in map fst (submitted h) = [1, 1])"

lemma dir_scan_player_always_resubmits_reusing_gen_holds: dir_scan_player_always_resubmits_reusing_gen
  by (simp add: dir_scan_player_always_resubmits_reusing_gen_def harness_simps handler_simps cong: let_weak_cong)

definition last_player_vanishing_submits_revert_and_evicts :: bool where
  "last_player_vanishing_submits_revert_and_evicts \<longleftrightarrow>
     (let h\<^sub>1 = test_on_line spotify ''Playing'' url_a harness;
          h = on_vanish fake_ops bus_spotify h\<^sub>1
      in map_of (c_players h) spotify = None \<and>
      snd (last_of h) = revert_of Dark)"

lemma last_player_vanishing_submits_revert_and_evicts_holds: last_player_vanishing_submits_revert_and_evicts
  by (simp add: last_player_vanishing_submits_revert_and_evicts_def harness_simps handler_simps cong: let_weak_cong)

definition non_player_bus_name_is_ignored :: bool where
  "non_player_bus_name_is_ignored \<longleftrightarrow>
     (let h = test_on_line spotify ''Playing'' url_a harness
      in (let h' = on_vanish fake_ops ''org.freedesktop.Notifications'' h
        in length (submitted h') = length (submitted h) \<and> map_of (c_players h') spotify \<noteq> None))"

lemma non_player_bus_name_is_ignored_holds: non_player_bus_name_is_ignored
  by (simp add: non_player_bus_name_is_ignored_def harness_simps handler_simps cong: let_weak_cong)

definition unknown_player_vanishing_is_noop :: bool where
  "unknown_player_vanishing_is_noop \<longleftrightarrow>
     (let h = test_on_line spotify ''Playing'' url_a harness
      in length (submitted (on_vanish fake_ops ''org.mpris.MediaPlayer2.firefox'' h)) = length (submitted h))"

lemma unknown_player_vanishing_is_noop_holds: unknown_player_vanishing_is_noop
  by (simp add: unknown_player_vanishing_is_noop_def harness_simps handler_simps cong: let_weak_cong)

definition flip_retones_current_target_in_new_mode :: bool where
  "flip_retones_current_target_in_new_mode \<longleftrightarrow>
     (let h\<^sub>1 = test_on_line spotify ''Playing'' url_a harness;
          h = on_scheme fake_ops 2 h\<^sub>1
      in snd (last_of h) = apply_of url_a None Light)"

lemma flip_retones_current_target_in_new_mode_holds: flip_retones_current_target_in_new_mode
  by (simp add: flip_retones_current_target_in_new_mode_def harness_simps handler_simps cong: let_weak_cong)

definition same_mode_is_noop :: bool where
  "same_mode_is_noop \<longleftrightarrow>
     (let h = test_on_line spotify ''Playing'' url_a harness
      in length (submitted (on_scheme fake_ops 1 h)) = length (submitted h))"

lemma same_mode_is_noop_holds: same_mode_is_noop
  by (simp add: same_mode_is_noop_def harness_simps handler_simps cong: let_weak_cong)

definition flip_with_nothing_applied_updates_mode_only :: bool where
  "flip_with_nothing_applied_updates_mode_only \<longleftrightarrow>
     (let h = on_scheme fake_ops 2 harness
      in submitted h = [] \<and>
      c_mode h = Light)"

lemma flip_with_nothing_applied_updates_mode_only_holds: flip_with_nothing_applied_updates_mode_only
  by (simp add: flip_with_nothing_applied_updates_mode_only_def harness_simps handler_simps cong: let_weak_cong)

definition flip_after_revert_does_not_retone :: bool where
  "flip_after_revert_does_not_retone \<longleftrightarrow>
     (let h = test_on_line spotify ''Stopped'' [] harness
      in length (submitted (on_scheme fake_ops 2 h)) = length (submitted h))"

lemma flip_after_revert_does_not_retone_holds: flip_after_revert_does_not_retone
  by (simp add: flip_after_revert_does_not_retone_def harness_simps handler_simps cong: let_weak_cong)

definition committed_updates_applied_bookkeeping :: bool where
  "committed_updates_applied_bookkeeping \<longleftrightarrow>
     (let h\<^sub>1 = test_on_line spotify ''Playing'' url_a harness;
          h = commit id_a h\<^sub>1
      in c_applied h = Some id_a)"

lemma committed_updates_applied_bookkeeping_holds: committed_updates_applied_bookkeeping
  by (simp add: committed_updates_applied_bookkeeping_def harness_simps handler_simps cong: let_weak_cong)

definition stale_gen_result_is_dropped :: bool where
  "stale_gen_result_is_dropped \<longleftrightarrow>
     (let h\<^sub>1 = test_on_line spotify ''Playing'' url_a harness;
          h\<^sub>2 = test_on_line spotify ''Playing'' url_b h\<^sub>1;
          h = adopt fake_ops (result_of 1 Committed (Some id_a)) h\<^sub>2
      in c_applied h = None)"

lemma stale_gen_result_is_dropped_holds: stale_gen_result_is_dropped
  by (simp add: stale_gen_result_is_dropped_def harness_simps handler_simps cong: let_weak_cong)

definition slow_job_does_not_block_a_later_theme_flip :: bool where
  "slow_job_does_not_block_a_later_theme_flip \<longleftrightarrow>
     (let h\<^sub>1 = test_on_line spotify ''Playing'' url_a harness;
          h = on_scheme fake_ops 2 h\<^sub>1
      in d_mode (snd (last_of h)) = Light)"

lemma slow_job_does_not_block_a_later_theme_flip_holds: slow_job_does_not_block_a_later_theme_flip
  by (simp add: slow_job_does_not_block_a_later_theme_flip_def harness_simps handler_simps cong: let_weak_cong)

definition backoff_delay_math :: bool where
  "backoff_delay_math \<longleftrightarrow>
     backoff_delay_ms 1 1 = RETRY_BASE_MS \<and>
      backoff_delay_ms 2 1 = 2 * RETRY_BASE_MS \<and>
      backoff_delay_ms 3 1 = 4 * RETRY_BASE_MS \<and>
      backoff_delay_ms 30 1 = RETRY_CAP_MS \<and>
      backoff_delay_ms 200 1 = RETRY_CAP_MS \<and>
      backoff_delay_ms 1 (3 / 2) = real_as_u64 (3 / 2 * real RETRY_BASE_MS)"

lemma backoff_delay_math_holds: backoff_delay_math
  by (simp add: backoff_delay_math_def harness_simps handler_simps RETRY_CAP_MS_def backoff_delay_ms_def [of 1 "3 / 2"] backoff_delay_ms_def [of "Suc 0" "3 / 2"] checked_shl_one_def saturating_mul_def U64_MAX_def RETRY_BASE_MS_def cong: let_weak_cong)

definition retryable_failure_arms_timer_and_identical_line_dedups :: bool where
  "retryable_failure_arms_timer_and_identical_line_dedups \<longleftrightarrow>
     (let h = fail_apply url_a harness
      in fh_scheduled (c_host h) = [RETRY_BASE_MS] \<and>
      length (submitted (test_on_line spotify ''Playing'' url_a h)) = 1)"

lemma retryable_failure_arms_timer_and_identical_line_dedups_holds: retryable_failure_arms_timer_and_identical_line_dedups
  by (simp add: retryable_failure_arms_timer_and_identical_line_dedups_def harness_simps handler_simps RETRY_BASE_MS_def cong: let_weak_cong)

definition timer_fire_force_resubmits_with_fresh_gen :: bool where
  "timer_fire_force_resubmits_with_fresh_gen \<longleftrightarrow>
     (let h = fail_apply url_a harness
      in (case fire_last_timer h of
          None \<Rightarrow> False
        | Some h' \<Rightarrow> length (submitted h') = 2 \<and> last_gen h' = last_gen h + 1 \<and> snd (last_of h') = snd (submitted h' ! 0)))"

lemma timer_fire_force_resubmits_with_fresh_gen_holds: timer_fire_force_resubmits_with_fresh_gen
  by (simp add: timer_fire_force_resubmits_with_fresh_gen_def harness_simps handler_simps cong: let_weak_cong)

definition backoff_doubles_across_consecutive_failures :: bool where
  "backoff_doubles_across_consecutive_failures \<longleftrightarrow>
     (let h = fail_apply url_a harness
      in (case fail_from (last_gen h) 1 h of
          None \<Rightarrow> False
        | Some h' \<Rightarrow> fh_scheduled (c_host h') = [RETRY_BASE_MS, 2 * RETRY_BASE_MS]))"

lemma backoff_doubles_across_consecutive_failures_holds: backoff_doubles_across_consecutive_failures
  by (simp add: backoff_doubles_across_consecutive_failures_def harness_simps handler_simps RETRY_BASE_MS_def cong: let_weak_cong)

definition attempt_cap_exhausts_no_further_timer :: bool where
  "attempt_cap_exhausts_no_further_timer \<longleftrightarrow>
     (let h = fail_apply url_a harness
      in (case fail_from (last_gen h) RETRY_MAX_ATTEMPTS h of
          None \<Rightarrow> False
        | Some h' \<Rightarrow> length (fh_scheduled (c_host h')) = RETRY_MAX_ATTEMPTS \<and> length (fh_warnings (c_host h')) = 1))"

lemma attempt_cap_exhausts_no_further_timer_holds: attempt_cap_exhausts_no_further_timer
  by (simp add: attempt_cap_exhausts_no_further_timer_def harness_simps handler_simps cong: let_weak_cong)

definition gen_bump_cancels_armed_timer :: bool where
  "gen_bump_cancels_armed_timer \<longleftrightarrow>
     (let h = fail_apply url_a harness
      in fh_cancelled (c_host (test_on_line spotify ''Playing'' url_b h)) = [fh_next_handle (c_host h)])"

lemma gen_bump_cancels_armed_timer_holds: gen_bump_cancels_armed_timer
  by (simp add: gen_bump_cancels_armed_timer_def harness_simps handler_simps cong: let_weak_cong)

definition late_fire_after_desire_changed_is_dropped :: bool where
  "late_fire_after_desire_changed_is_dropped \<longleftrightarrow>
     (let h\<^sub>1 = fail_apply url_a harness;
          h = test_on_line spotify ''Playing'' url_b h\<^sub>1
      in length (submitted (fire_retry fake_ops h)) = length (submitted h))"

lemma late_fire_after_desire_changed_is_dropped_holds: late_fire_after_desire_changed_is_dropped
  by (simp add: late_fire_after_desire_changed_is_dropped_def harness_simps handler_simps cong: let_weak_cong)

definition rejected_arms_no_timer_and_identical_line_dedups :: bool where
  "rejected_arms_no_timer_and_identical_line_dedups \<longleftrightarrow>
     (let h\<^sub>1 = test_on_line spotify ''Playing'' url_a harness;
          h = adopt_last outcome.Rejected None h\<^sub>1
      in fh_scheduled (c_host h) = [] \<and>
      length (submitted (test_on_line spotify ''Playing'' url_a h)) = 1)"

lemma rejected_arms_no_timer_and_identical_line_dedups_holds: rejected_arms_no_timer_and_identical_line_dedups
  by (simp add: rejected_arms_no_timer_and_identical_line_dedups_def harness_simps handler_simps cong: let_weak_cong)

definition new_desire_restarts_backoff_from_base :: bool where
  "new_desire_restarts_backoff_from_base \<longleftrightarrow>
     (let h = fail_apply url_a harness
      in (case fail_from (last_gen h) 1 h of
          None \<Rightarrow> False
        | Some h' \<Rightarrow> last (fh_scheduled (c_host (adopt_last FailedRetryable None
            (test_on_line spotify ''Playing'' url_b h')))) = RETRY_BASE_MS))"

lemma new_desire_restarts_backoff_from_base_holds: new_desire_restarts_backoff_from_base
  by (simp add: new_desire_restarts_backoff_from_base_def harness_simps handler_simps RETRY_BASE_MS_def cong: let_weak_cong)

definition shutdown_cancels_armed_timer_and_late_fire_is_noop :: bool where
  "shutdown_cancels_armed_timer_and_late_fire_is_noop \<longleftrightarrow>
     (let h = fail_apply url_a harness
      in (let h' = begin_shutdown fake_ops h
        in fh_next_handle (c_host h) \<in> set (fh_cancelled (c_host h')) \<and>
           length (submitted (fire_retry fake_ops h')) = length (submitted h')))"

lemma shutdown_cancels_armed_timer_and_late_fire_is_noop_holds: shutdown_cancels_armed_timer_and_late_fire_is_noop
  by (simp add: shutdown_cancels_armed_timer_and_late_fire_is_noop_def harness_simps handler_simps cong: let_weak_cong)

definition rejected_newest_falls_back_to_older_ready_without_new_event :: bool where
  "rejected_newest_falls_back_to_older_ready_without_new_event \<longleftrightarrow>
     (let h\<^sub>1 = test_on_line jellyfin ''Playing'' url_j harness;
          h\<^sub>2 = commit id_j h\<^sub>1;
          h\<^sub>3 = test_on_line spotify ''Playing'' url_s h\<^sub>2;
          h = adopt_last outcome.Rejected None h\<^sub>3
      in d_target (snd (last_of h)) = Some (target_of url_j (Some JF_DIR)))"

lemma rejected_newest_falls_back_to_older_ready_without_new_event_holds: rejected_newest_falls_back_to_older_ready_without_new_event
  by (simp add: rejected_newest_falls_back_to_older_ready_without_new_event_def harness_simps handler_simps cong: let_weak_cong)

definition own_event_of_applied_player_does_not_flap_to_other_ready :: bool where
  "own_event_of_applied_player_does_not_flap_to_other_ready \<longleftrightarrow>
     (let h\<^sub>1 = test_on_line jellyfin ''Playing'' url_j harness;
          h\<^sub>2 = commit id_j h\<^sub>1;
          h\<^sub>3 = test_on_line spotify ''Playing'' url_s h\<^sub>2;
          h = commit id_s h\<^sub>3
      in length (submitted (test_on_line spotify ''Playing'' url_s h)) = length (submitted h))"

lemma own_event_of_applied_player_does_not_flap_to_other_ready_holds: own_event_of_applied_player_does_not_flap_to_other_ready
  by (simp add: own_event_of_applied_player_does_not_flap_to_other_ready_def harness_simps handler_simps cong: let_weak_cong)

definition retrying_newest_stays_selected_and_timer_survives :: bool where
  "retrying_newest_stays_selected_and_timer_survives \<longleftrightarrow>
     (let h\<^sub>1 = test_on_line jellyfin ''Playing'' url_j harness;
          h\<^sub>2 = commit id_j h\<^sub>1;
          h = test_on_line spotify ''Playing'' url_s h\<^sub>2
      in (let h' = adopt_last FailedRetryable None h
        in length (submitted h') = length (submitted h) \<and> fh_cancelled (c_host h') = [] \<and> length (fh_scheduled (c_host h')) = 1))"

lemma retrying_newest_stays_selected_and_timer_survives_holds: retrying_newest_stays_selected_and_timer_survives
  by (simp add: retrying_newest_stays_selected_and_timer_survives_def harness_simps handler_simps cong: let_weak_cong)

definition exhausted_newest_falls_back_to_older_ready :: bool where
  "exhausted_newest_falls_back_to_older_ready \<longleftrightarrow>
     (let h\<^sub>1 = test_on_line jellyfin ''Playing'' url_j harness;
          h\<^sub>2 = commit id_j h\<^sub>1;
          h\<^sub>3 = test_on_line spotify ''Playing'' url_s h\<^sub>2;
          h = adopt_last FailedRetryable None h\<^sub>3
      in (case fail_rounds RETRY_MAX_ATTEMPTS h of
          None \<Rightarrow> False
        | Some h' \<Rightarrow> d_target (snd (last_of h')) = Some (target_of url_j (Some JF_DIR))))"

lemma exhausted_newest_falls_back_to_older_ready_holds: exhausted_newest_falls_back_to_older_ready
  by (simp add: exhausted_newest_falls_back_to_older_ready_def harness_simps handler_simps cong: let_weak_cong)

definition transient_failure_retries_and_eventually_applies :: bool where
  "transient_failure_retries_and_eventually_applies \<longleftrightarrow>
     (let h\<^sub>1 = test_on_line spotify ''Playing'' url_a harness;
          h = adopt_last FailedRetryable None h\<^sub>1
      in (case fire_last_timer h of None \<Rightarrow> False | Some h' \<Rightarrow> c_applied (commit id_a h') = Some id_a))"

lemma transient_failure_retries_and_eventually_applies_holds: transient_failure_retries_and_eventually_applies
  by (simp add: transient_failure_retries_and_eventually_applies_def harness_simps handler_simps cong: let_weak_cong)

definition retone_anchors_on_applied_cover_not_retrying_winner :: bool where
  "retone_anchors_on_applied_cover_not_retrying_winner \<longleftrightarrow>
     (let h\<^sub>1 = test_on_line jellyfin ''Playing'' url_j harness;
          h\<^sub>2 = commit id_j h\<^sub>1;
          h\<^sub>3 = test_on_line spotify ''Playing'' url_s h\<^sub>2;
          h\<^sub>4 = adopt_last FailedRetryable None h\<^sub>3;
          h = on_scheme fake_ops 2 h\<^sub>4
      in snd (last_of h) = apply_of url_j (Some JF_DIR) Light)"

lemma retone_anchors_on_applied_cover_not_retrying_winner_holds: retone_anchors_on_applied_cover_not_retrying_winner
  by (simp add: retone_anchors_on_applied_cover_not_retrying_winner_def harness_simps handler_simps cong: let_weak_cong)

definition retone_commit_restarts_the_superseded_retry_chain :: bool where
  "retone_commit_restarts_the_superseded_retry_chain \<longleftrightarrow>
     (let h\<^sub>1 = test_on_line jellyfin ''Playing'' url_j harness;
          h\<^sub>2 = commit id_j h\<^sub>1;
          h\<^sub>3 = test_on_line spotify ''Playing'' url_s h\<^sub>2;
          h\<^sub>4 = adopt_last FailedRetryable None h\<^sub>3;
          h = on_scheme fake_ops 2 h\<^sub>4
      in length (fh_cancelled (c_host h)) = 1 \<and>
      snd (last_of (commit id_j h)) = apply_of url_s None Light)"

lemma retone_commit_restarts_the_superseded_retry_chain_holds: retone_commit_restarts_the_superseded_retry_chain
  by (simp add: retone_commit_restarts_the_superseded_retry_chain_def harness_simps handler_simps cong: let_weak_cong)

definition exhausted_dir_player_recovers_on_its_next_line :: bool where
  "exhausted_dir_player_recovers_on_its_next_line \<longleftrightarrow>
     (let h\<^sub>1 = test_on_line jellyfin ''Playing'' [] harness;
          h = adopt_last FailedRetryable None h\<^sub>1
      in (case fail_rounds RETRY_MAX_ATTEMPTS h of
          None \<Rightarrow> False
        | Some h' \<Rightarrow> length (submitted (test_on_line jellyfin ''Playing'' [] h')) = length (submitted h') + 1))"

lemma exhausted_dir_player_recovers_on_its_next_line_holds: exhausted_dir_player_recovers_on_its_next_line
  by (simp add: exhausted_dir_player_recovers_on_its_next_line_def harness_simps handler_simps cong: let_weak_cong)

definition exhausted_url_player_recovers_on_its_next_line :: bool where
  "exhausted_url_player_recovers_on_its_next_line \<longleftrightarrow>
     (let h\<^sub>1 = test_on_line spotify ''Playing'' url_a harness;
          h = adopt_last FailedRetryable None h\<^sub>1
      in (case fail_rounds RETRY_MAX_ATTEMPTS h of
          None \<Rightarrow> False
        | Some h' \<Rightarrow>
            (let h'' = test_on_line spotify ''Playing'' url_a h'; n = length (submitted h'')
             in n = length (submitted h') + 1 \<and> fst (submitted h'' ! (n - 1)) > fst (submitted h'' ! (n - 2)))))"

lemma exhausted_url_player_recovers_on_its_next_line_holds: exhausted_url_player_recovers_on_its_next_line
  by (simp add: exhausted_url_player_recovers_on_its_next_line_def harness_simps handler_simps cong: let_weak_cong)

definition rejected_player_recovers_on_identity_change :: bool where
  "rejected_player_recovers_on_identity_change \<longleftrightarrow>
     (let h\<^sub>1 = test_on_line spotify ''Playing'' url_bad harness;
          h\<^sub>2 = adopt_last outcome.Rejected None h\<^sub>1;
          h = test_on_line spotify ''Playing'' url_good h\<^sub>2
      in d_target (snd (last_of h)) = Some (target_of url_good None))"

lemma rejected_player_recovers_on_identity_change_holds: rejected_player_recovers_on_identity_change
  by (simp add: rejected_player_recovers_on_identity_change_def harness_simps handler_simps cong: let_weak_cong)

definition line_with_extra_fields_is_rejected :: bool where
  "line_with_extra_fields_is_rejected \<longleftrightarrow>
     (let h = on_line fake_ops extra_line harness
      in submitted h = [])"

lemma line_with_extra_fields_is_rejected_holds: line_with_extra_fields_is_rejected
  by (simp add: line_with_extra_fields_is_rejected_def harness_simps handler_simps cong: let_weak_cong)

definition line_with_too_few_fields_is_rejected :: bool where
  "line_with_too_few_fields_is_rejected \<longleftrightarrow>
     (let h = on_line fake_ops short_line harness
      in c_players h = [])"

lemma line_with_too_few_fields_is_rejected_holds: line_with_too_few_fields_is_rejected
  by (simp add: line_with_too_few_fields_is_rejected_def harness_simps handler_simps cong: let_weak_cong)

definition empty_art_url_is_still_three_fields_and_accepted :: bool where
  "empty_art_url_is_still_three_fields_and_accepted \<longleftrightarrow>
     (let h = on_line fake_ops empty_art_line harness
      in length (submitted h) = 1 \<and>
      d_target (snd (last_of h)) = Some (target_of [] (Some JF_DIR)))"

lemma empty_art_url_is_still_three_fields_and_accepted_holds: empty_art_url_is_still_three_fields_and_accepted
  by (simp add: empty_art_url_is_still_three_fields_and_accepted_def harness_simps handler_simps cong: let_weak_cong)

definition forged_line_naming_an_unfollowed_player_is_rejected :: bool where
  "forged_line_naming_an_unfollowed_player_is_rejected \<longleftrightarrow>
     (let h = test_on_line evilplayer ''Playing'' url_evil harness
      in submitted h = [] \<and>
      c_players h = [])"

lemma forged_line_naming_an_unfollowed_player_is_rejected_holds: forged_line_naming_an_unfollowed_player_is_rejected
  by (simp add: forged_line_naming_an_unfollowed_player_is_rejected_def harness_simps handler_simps cong: let_weak_cong)

definition instance_suffixed_name_is_accepted :: bool where
  "instance_suffixed_name_is_accepted \<longleftrightarrow>
     (let h = test_on_line spotify_instance ''Playing'' url_a harness
      in length (submitted h) = 1)"

lemma instance_suffixed_name_is_accepted_holds: instance_suffixed_name_is_accepted
  by (simp add: instance_suffixed_name_is_accepted_def harness_simps handler_simps cong: let_weak_cong)

definition lookalike_prefixed_name_is_rejected :: bool where
  "lookalike_prefixed_name_is_rejected \<longleftrightarrow>
     (let h = test_on_line spotifyevil ''Playing'' url_a harness
      in submitted h = [])"

lemma lookalike_prefixed_name_is_rejected_holds: lookalike_prefixed_name_is_rejected
  by (simp add: lookalike_prefixed_name_is_rejected_def harness_simps handler_simps cong: let_weak_cong)

definition allowlist_comes_from_the_configured_player_set :: bool where
  "allowlist_comes_from_the_configured_player_set \<longleftrightarrow>
     (let h = test_on_line spotify ''Playing'' url_a (harness_with Dark onlythis)
      in submitted h = [] \<and>
      length (submitted (test_on_line onlythis ''Playing'' url_a h)) = 1)"

lemma allowlist_comes_from_the_configured_player_set_holds: allowlist_comes_from_the_configured_player_set
  by (simp add: allowlist_comes_from_the_configured_player_set_def harness_simps handler_simps cong: let_weak_cong)

definition unknown_status_is_rejected_not_treated_as_stopped :: bool where
  "unknown_status_is_rejected_not_treated_as_stopped \<longleftrightarrow>
     (let h\<^sub>1 = test_on_line spotify ''Playing'' url_a harness;
          h = test_on_line spotify ''Bogus'' url_a h\<^sub>1
      in length (submitted h) = 1 \<and>
      map_option ps_status (map_of (c_players h) spotify) = Some Playing)"

lemma unknown_status_is_rejected_not_treated_as_stopped_holds: unknown_status_is_rejected_not_treated_as_stopped
  by (simp add: unknown_status_is_rejected_not_treated_as_stopped_def harness_simps handler_simps cong: let_weak_cong)

definition rejected_line_mutates_nothing :: bool where
  "rejected_line_mutates_nothing \<longleftrightarrow>
     (let h = test_on_line spotify ''Playing'' url_a harness
      in (let h' = fold (\<lambda>bad. on_line fake_ops bad)
          [garbage_line, short_line, test_line evilplayer ''Playing'' url_u, test_line spotify ''Bogus'' url_u, extra_u_line] h
        in c_players h' = c_players h \<and> c_seq h' = c_seq h \<and> c_covers h' = c_covers h \<and> length (submitted h') = 1))"

lemma rejected_line_mutates_nothing_holds: rejected_line_mutates_nothing
  by (simp add: rejected_line_mutates_nothing_def harness_simps handler_simps cong: let_weak_cong)

definition pause_never_submits_a_cover_bearing_job :: bool where
  "pause_never_submits_a_cover_bearing_job \<longleftrightarrow>
     (let h\<^sub>1 = test_on_line spotify ''Playing'' url_a harness;
          h = test_on_line spotify ''Paused'' url_a h\<^sub>1
      in snd (last_of h) = revert_of Dark \<and>
      map (\<lambda>s. d_target (snd s)) (tl (submitted h)) = [None])"

lemma pause_never_submits_a_cover_bearing_job_holds: pause_never_submits_a_cover_bearing_job
  by (simp add: pause_never_submits_a_cover_bearing_job_def harness_simps handler_simps cong: let_weak_cong)

definition stop_never_submits_a_cover_bearing_job :: bool where
  "stop_never_submits_a_cover_bearing_job \<longleftrightarrow>
     (let h\<^sub>1 = test_on_line spotify ''Playing'' url_a harness;
          h = test_on_line spotify ''Stopped'' url_a h\<^sub>1
      in map (\<lambda>s. d_target (snd s)) (tl (submitted h)) = [None])"

lemma stop_never_submits_a_cover_bearing_job_holds: stop_never_submits_a_cover_bearing_job
  by (simp add: stop_never_submits_a_cover_bearing_job_def harness_simps handler_simps cong: let_weak_cong)

definition resume_does_submit_the_cover :: bool where
  "resume_does_submit_the_cover \<longleftrightarrow>
     (let h\<^sub>1 = test_on_line spotify ''Playing'' url_a harness;
          h\<^sub>2 = test_on_line spotify ''Paused'' url_a h\<^sub>1;
          h = test_on_line spotify ''Playing'' url_a h\<^sub>2
      in d_target (snd (last_of h)) = Some (target_of url_a None))"

lemma resume_does_submit_the_cover_holds: resume_does_submit_the_cover
  by (simp add: resume_does_submit_the_cover_def harness_simps handler_simps cong: let_weak_cong)

definition paused_dir_scan_player_does_not_trigger_a_dir_resubmit :: bool where
  "paused_dir_scan_player_does_not_trigger_a_dir_resubmit \<longleftrightarrow>
     (let h\<^sub>1 = test_on_line jellyfin ''Playing'' [] harness;
          h = test_on_line jellyfin ''Paused'' [] h\<^sub>1
      in length (submitted (repeat_line 2 jellyfin ''Paused'' [] h)) = length (submitted h))"

lemma paused_dir_scan_player_does_not_trigger_a_dir_resubmit_holds: paused_dir_scan_player_does_not_trigger_a_dir_resubmit
  by (simp add: paused_dir_scan_player_does_not_trigger_a_dir_resubmit_def harness_simps handler_simps cong: let_weak_cong)

definition repeated_drops_in_one_category_log_once_per_interval :: bool where
  "repeated_drops_in_one_category_log_once_per_interval \<longleftrightarrow>
     (let h = repeat_line 50 evilplayer ''Playing'' url_evil harness
      in length (fh_warnings (c_host h)) = 1)"

lemma repeated_drops_in_one_category_log_once_per_interval_holds: repeated_drops_in_one_category_log_once_per_interval
  by (simp add: repeated_drops_in_one_category_log_once_per_interval_def harness_simps handler_simps log_drop_def cong: let_weak_cong)

definition a_category_logs_again_after_the_interval :: bool where
  "a_category_logs_again_after_the_interval \<longleftrightarrow>
     (let h\<^sub>1 = test_on_line evilplayer ''Playing'' url_u harness;
          h\<^sub>2 = (\<lambda>h. h\<lparr>c_host := (c_host h)\<lparr>fh_clock := fh_clock (c_host h) + DROP_LOG_INTERVAL\<rparr>\<rparr>) h\<^sub>1;
          h = test_on_line evilplayer ''Playing'' url_u h\<^sub>2
      in length (fh_warnings (c_host h)) = 2)"

lemma a_category_logs_again_after_the_interval_holds: a_category_logs_again_after_the_interval
  by (simp add: a_category_logs_again_after_the_interval_def harness_simps handler_simps log_drop_def cong: let_weak_cong)

definition categories_are_limited_independently :: bool where
  "categories_are_limited_independently \<longleftrightarrow>
     (let h\<^sub>1 = test_on_line evilplayer ''Playing'' url_u harness;
          h\<^sub>2 = test_on_line spotify ''Bogus'' url_u h\<^sub>1;
          h = on_line fake_ops short_line h\<^sub>2
      in length (fh_warnings (c_host h)) = 3)"

lemma categories_are_limited_independently_holds: categories_are_limited_independently
  by (simp add: categories_are_limited_independently_def harness_simps handler_simps log_drop_def cong: let_weak_cong)

definition framer_drops_share_the_same_limiter :: bool where
  "framer_drops_share_the_same_limiter \<longleftrightarrow>
     (let h = repeat_drop 10 harness
      in length (fh_warnings (c_host h)) = 1)"

lemma framer_drops_share_the_same_limiter_holds: framer_drops_share_the_same_limiter
  by (simp add: framer_drops_share_the_same_limiter_def harness_simps handler_simps log_drop_def cong: let_weak_cong)

end
