(* ===== verification/Worker_Tests.thy ===== *)
theory Worker_Tests
  imports Worker
begin

text \<open>
  The unit tests of \<open>src/worker.rs\<close>, replayed on the model. A test's closures log their calls in the environment; the
  four tests of a real thread's lifecycle are left to \<open>System\<close>, where the thread is a process.
\<close>

subsection \<open>The fake stages\<close>

datatype call = CallExtract content_id | CallApply colors | CallRevert

text \<open>What the closures capture: the log, and the content ids a resolver hands out.\<close>

record test_env =
  te_calls :: "call list"
  te_ids :: "content_id list"

type_synonym test_shared = "test_env shared"

definition log_call :: "call \<Rightarrow> test_shared \<Rightarrow> test_shared" where
  "log_call x sh = sh\<lparr>sh_env := (sh_env sh)\<lparr>te_calls := te_calls (sh_env sh) @ [x]\<rparr>\<rparr>"

definition cover_path :: path where "cover_path = [''covers'', ''a.jpg'']"
definition hexes :: colors where "hexes = (''#aa0000'', ''#00bb00'', ''#0000cc'')"

definition ready_at :: "path \<Rightarrow> content_id \<Rightarrow> resolution" where
  "ready_at p cid = Ready p cid"

definition fake_stages :: "test_env stages" where
  "fake_stages =
     \<lparr>st_resolve = (\<lambda>_ _ sh. (Some (ready_at cover_path (10, 100)), sh)),
      st_extract = (\<lambda>_ _ _ sh. (Some hexes, sh)),
      st_apply = (\<lambda>_ sh. (Some (Inr ()), sh)),
      st_revert = (\<lambda>sh. (Some (Inr ()), sh))\<rparr>"

text \<open>The overrides the tests share: stages that log, and stages that fail.\<close>

definition logs_extract :: "test_env stages \<Rightarrow> test_env stages" where
  "logs_extract S = S\<lparr>st_extract := \<lambda>_ _ cid sh. (Some hexes, log_call (CallExtract cid) sh)\<rparr>"

definition logs_apply :: "test_env stages \<Rightarrow> test_env stages" where
  "logs_apply S = S\<lparr>st_apply := \<lambda>c sh. (Some (Inr ()), log_call (CallApply c) sh)\<rparr>"

definition logs_revert :: "test_env stages \<Rightarrow> test_env stages" where
  "logs_revert S = S\<lparr>st_revert := \<lambda>sh. (Some (Inr ()), log_call CallRevert sh)\<rparr>"

definition resolves :: "resolution \<Rightarrow> test_env stages \<Rightarrow> test_env stages" where
  "resolves r S = S\<lparr>st_resolve := \<lambda>_ _ sh. (Some r, sh)\<rparr>"

definition test_shared0 :: "mailbox \<Rightarrow> test_shared" where
  "test_shared0 slot = \<lparr>sh_slot = slot, sh_stop = False, sh_env = \<lparr>te_calls = [], te_ids = []\<rparr>\<rparr>"

definition apply_job :: "nat \<Rightarrow> string \<Rightarrow> mode \<Rightarrow> job" where
  "apply_job g art m =
     \<lparr>j_generation = g, j_desired = \<lparr>d_target = Some \<lparr>ct_art_url = art, ct_covers_dir = None\<rparr>, d_mode = m\<rparr>\<rparr>"

definition revert_job :: "nat \<Rightarrow> mode \<Rightarrow> job" where
  "revert_job g m = \<lparr>j_generation = g, j_desired = \<lparr>d_target = None, d_mode = m\<rparr>\<rparr>"

text \<open>\<open>outcome\<close>: \<open>None\<close> where the test would panic for want of a result.\<close>

definition outcome_of :: "test_env run_result \<Rightarrow> outcome option" where
  "outcome_of out = (case fst out of Some (Some r) \<Rightarrow> Some (jr_outcome r) | _ \<Rightarrow> None)"

definition calls_of :: "test_env run_result \<Rightarrow> call list" where
  "calls_of out = te_calls (sh_env (snd (snd out)))"

text \<open>A second job of the same worker.\<close>

definition then_job :: "test_env stages \<Rightarrow> job \<Rightarrow> test_env run_result \<Rightarrow> test_env run_result" where
  "then_job S j out = run_once S j (fst (snd out)) (snd (snd out))"

definition first_job :: "test_env stages \<Rightarrow> job \<Rightarrow> test_env run_result" where
  "first_job S j = run_once S j None (test_shared0 None)"

lemmas worker_test_simps = fake_stages_def logs_extract_def logs_apply_def logs_revert_def resolves_def test_shared0_def
  apply_job_def revert_job_def outcome_of_def calls_of_def then_job_def first_job_def log_call_def ready_at_def
  run_once_def run_cover_def run_revert_def job_done_def superseded_def Let_def

subsection \<open>Mailbox\<close>

definition put_then_get_returns_item :: bool where
  "put_then_get_returns_item \<longleftrightarrow>
     fst (mailbox_get False (mailbox_put (revert_job 1 Dark) mailbox_new)) = Return (Some (revert_job 1 Dark))"

lemma put_then_get_returns_item_holds: put_then_get_returns_item
  by (simp add: put_then_get_returns_item_def mailbox_get_def mailbox_put_def)

definition superseded_only_by_a_strictly_newer_pending_job :: bool where
  "superseded_only_by_a_strictly_newer_pending_job \<longleftrightarrow>
     \<not> superseded 0 mailbox_new \<and>
     (let mb = mailbox_put (revert_job 5 Dark) mailbox_new in superseded 3 mb \<and> \<not> superseded 5 mb)"

lemma superseded_only_by_a_strictly_newer_pending_job_holds: superseded_only_by_a_strictly_newer_pending_job
  by (simp add: superseded_only_by_a_strictly_newer_pending_job_def mailbox_new_def revert_job_def)

definition get_with_stop_set_returns_none_and_discards_pending :: bool where
  "get_with_stop_set_returns_none_and_discards_pending \<longleftrightarrow>
     (case mailbox_get True (mailbox_put (revert_job 1 Dark) mailbox_new) of
        (r, mb) \<Rightarrow> r = Return None \<and> \<not> superseded 0 mb)"

lemma get_with_stop_set_returns_none_and_discards_pending_holds: get_with_stop_set_returns_none_and_discards_pending
  by (simp add: get_with_stop_set_returns_none_and_discards_pending_def mailbox_get_def)

definition clear_drops_pending_item :: bool where
  "clear_drops_pending_item \<longleftrightarrow> \<not> superseded 0 (mailbox_clear (mailbox_put (revert_job 7 Dark) mailbox_new))"

lemma clear_drops_pending_item_holds: clear_drops_pending_item
  by (simp add: clear_drops_pending_item_def mailbox_clear_def)

definition put_replaces_unconsumed_item :: bool where
  "put_replaces_unconsumed_item \<longleftrightarrow>
     fst (mailbox_get False (mailbox_put (revert_job 2 Light) (mailbox_put (revert_job 1 Dark) mailbox_new))) =
       Return (Some (revert_job 2 Light))"

lemma put_replaces_unconsumed_item_holds: put_replaces_unconsumed_item
  by (simp add: put_replaces_unconsumed_item_def mailbox_get_def mailbox_put_def)

subsection \<open>One job\<close>

definition apply_job_resolves_extracts_applies_and_commits :: bool where
  "apply_job_resolves_extracts_applies_and_commits \<longleftrightarrow>
     (let out = first_job (logs_apply fake_stages) (apply_job 5 ''http://x'' Dark)
      in (case fst out of Some (Some r) \<Rightarrow> jr_generation r = 5 \<and> jr_outcome r = Committed | _ \<Rightarrow> False) \<and>
         calls_of out = [CallApply hexes])"

lemma apply_job_resolves_extracts_applies_and_commits_holds: apply_job_resolves_extracts_applies_and_commits
  by (simp add: apply_job_resolves_extracts_applies_and_commits_def worker_test_simps)

definition extract_receives_the_resolved_content_id :: bool where
  "extract_receives_the_resolved_content_id \<longleftrightarrow>
     calls_of (first_job (logs_extract (resolves (ready_at cover_path (42, 4242)) fake_stages)) (apply_job 5 ''http://x'' Dark)) =
       [CallExtract (42, 4242)]"

lemma extract_receives_the_resolved_content_id_holds: extract_receives_the_resolved_content_id
  by (simp add: extract_receives_the_resolved_content_id_def worker_test_simps)

definition retryable_resolution_is_failed_retryable_and_skips_work :: bool where
  "retryable_resolution_is_failed_retryable_and_skips_work \<longleftrightarrow>
     (let out = first_job (logs_apply (logs_extract (resolves (Retryable ''network'') fake_stages))) (apply_job 5 ''http://x'' Dark)
      in (case fst out of Some (Some r) \<Rightarrow> jr_outcome r = FailedRetryable \<and> jr_cover_id r = None | _ \<Rightarrow> False) \<and>
         calls_of out = [])"

lemma retryable_resolution_is_failed_retryable_and_skips_work_holds:
  retryable_resolution_is_failed_retryable_and_skips_work
  by (simp add: retryable_resolution_is_failed_retryable_and_skips_work_def worker_test_simps)

definition rejected_resolution_is_rejected_and_skips_work :: bool where
  "rejected_resolution_is_rejected_and_skips_work \<longleftrightarrow>
     (let out = first_job (logs_apply (resolves (resolution.Rejected ''ssrf'') fake_stages)) (apply_job 5 ''http://x'' Dark)
      in outcome_of out = Some outcome.Rejected \<and> calls_of out = [])"

lemma rejected_resolution_is_rejected_and_skips_work_holds: rejected_resolution_is_rejected_and_skips_work
  by (simp add: rejected_resolution_is_rejected_and_skips_work_def worker_test_simps)

definition ctl_error_on_apply_is_failed_retryable :: "ctl_error \<Rightarrow> bool" where
  "ctl_error_on_apply_is_failed_retryable err \<longleftrightarrow>
     outcome_of (first_job (fake_stages\<lparr>st_apply := \<lambda>_ sh. (Some (Inl err), sh)\<rparr>) (apply_job 5 ''http://x'' Dark)) =
       Some FailedRetryable"

lemma ctl_error_on_apply_is_failed_retryable_holds: "ctl_error_on_apply_is_failed_retryable err"
  by (simp add: ctl_error_on_apply_is_failed_retryable_def worker_test_simps)

subsection \<open>Superseded jobs\<close>

definition superseded_before_ctl_aborts_apply :: bool where
  "superseded_before_ctl_aborts_apply \<longleftrightarrow>
     (let out = run_once (logs_apply fake_stages) (apply_job 5 ''http://x'' Dark) None
            (test_shared0 (mailbox_put (apply_job 9 ''http://y'' Dark) mailbox_new))
      in fst out = Some None \<and> calls_of out = [])"

lemma superseded_before_ctl_aborts_apply_holds: superseded_before_ctl_aborts_apply
  by (simp add: superseded_before_ctl_aborts_apply_def worker_test_simps mailbox_put_def)

definition superseded_before_revert_aborts_revert :: bool where
  "superseded_before_revert_aborts_revert \<longleftrightarrow>
     (let out = run_once (logs_revert fake_stages) (revert_job 5 Dark) None
            (test_shared0 (mailbox_put (revert_job 9 Dark) mailbox_new))
      in fst out = Some None \<and> calls_of out = [])"

lemma superseded_before_revert_aborts_revert_holds: superseded_before_revert_aborts_revert
  by (simp add: superseded_before_revert_aborts_revert_def worker_test_simps mailbox_put_def)

definition superseded_during_extract_aborts_before_ctl :: bool where
  "superseded_during_extract_aborts_before_ctl \<longleftrightarrow>
     (let S = logs_apply (fake_stages\<lparr>st_extract := \<lambda>_ _ _ sh.
            (Some hexes, sh\<lparr>sh_slot := mailbox_put (apply_job 9 ''http://z'' Dark) (sh_slot sh)\<rparr>)\<rparr>);
          out = first_job S (apply_job 5 ''http://x'' Dark)
      in fst out = Some None \<and> calls_of out = [])"

lemma superseded_during_extract_aborts_before_ctl_holds: superseded_during_extract_aborts_before_ctl
  by (simp add: superseded_during_extract_aborts_before_ctl_def worker_test_simps mailbox_put_def)

subsection \<open>Serving and the pump\<close>

definition served_outcomes :: "test_env stages \<Rightarrow> mailbox \<Rightarrow> outcome list" where
  "served_outcomes S mb =
     map jr_outcome (wk_reported (serve S (apply_job 5 ''http://x'' Dark) (worker_new None (test_shared0 mb))))"

lemmas serve_simps = served_outcomes_def serve_def worker_new_def worker_test_simps

definition serve_reports_the_result :: bool where
  "serve_reports_the_result \<longleftrightarrow> served_outcomes fake_stages mailbox_new = [Committed]"

lemma serve_reports_the_result_holds: serve_reports_the_result
  by (simp add: serve_reports_the_result_def serve_simps mailbox_new_def)

definition serve_does_not_report_when_superseded :: bool where
  "serve_does_not_report_when_superseded \<longleftrightarrow>
     served_outcomes fake_stages (mailbox_put (apply_job 9 ''http://y'' Dark) mailbox_new) = []"

lemma serve_does_not_report_when_superseded_holds: serve_does_not_report_when_superseded
  by (simp add: serve_does_not_report_when_superseded_def serve_simps mailbox_put_def)

definition serve_backstops_a_panic_as_failed_retryable :: bool where
  "serve_backstops_a_panic_as_failed_retryable \<longleftrightarrow>
     served_outcomes (fake_stages\<lparr>st_extract := \<lambda>_ _ _ sh. (None, sh)\<rparr>) mailbox_new = [FailedRetryable]"

lemma serve_backstops_a_panic_as_failed_retryable_holds: serve_backstops_a_panic_as_failed_retryable
  by (simp add: serve_backstops_a_panic_as_failed_retryable_def serve_simps mailbox_new_def)

text \<open>The report of job 1 queues job 2, that of job 2 sets the stop flag; a report is the last act of serving.\<close>

definition queue_job :: "job \<Rightarrow> 'e worker \<Rightarrow> 'e worker" where
  "queue_job j w = w\<lparr>wk_shared := (wk_shared w)\<lparr>sh_slot := mailbox_put j (sh_slot (wk_shared w))\<rparr>\<rparr>"

definition set_stop :: "'e worker \<Rightarrow> 'e worker" where
  "set_stop w = w\<lparr>wk_shared := (wk_shared w)\<lparr>sh_stop := True\<rparr>\<rparr>"

definition run_serves_each_item_until_stopped :: bool where
  "run_serves_each_item_until_stopped \<longleftrightarrow>
     (let w1 = snd (pump_once fake_stages (worker_new None (test_shared0 (mailbox_put (apply_job 1 ''http://a'' Dark) mailbox_new))));
          w2 = snd (pump_once fake_stages (queue_job (apply_job 2 ''http://b'' Dark) w1));
          (p, w3) = pump_once fake_stages (set_stop w2)
      in p = Finished \<and> map jr_generation (wk_reported w3) = [1, 2])"

lemma run_serves_each_item_until_stopped_holds: run_serves_each_item_until_stopped
  by (simp add: run_serves_each_item_until_stopped_def pump_once_def mailbox_get_def mailbox_put_def queue_job_def
      set_stop_def serve_simps cong: let_weak_cong)

subsection \<open>Reverts and the dedup key\<close>

definition revert_job_calls_revert_and_commits_with_no_cover :: bool where
  "revert_job_calls_revert_and_commits_with_no_cover \<longleftrightarrow>
     (let out = first_job (logs_apply (logs_revert fake_stages)) (revert_job 5 Dark)
      in (case fst out of Some (Some r) \<Rightarrow> jr_outcome r = Committed \<and> jr_cover_id r = None | _ \<Rightarrow> False) \<and>
         calls_of out = [CallRevert])"

lemma revert_job_calls_revert_and_commits_with_no_cover_holds: revert_job_calls_revert_and_commits_with_no_cover
  by (simp add: revert_job_calls_revert_and_commits_with_no_cover_def worker_test_simps)

definition revert_ctl_error_is_failed_retryable :: "ctl_error \<Rightarrow> bool" where
  "revert_ctl_error_is_failed_retryable err \<longleftrightarrow>
     outcome_of (first_job (fake_stages\<lparr>st_revert := \<lambda>sh. (Some (Inl err), sh)\<rparr>) (revert_job 5 Dark)) = Some FailedRetryable"

lemma revert_ctl_error_is_failed_retryable_holds: "revert_ctl_error_is_failed_retryable err"
  by (simp add: revert_ctl_error_is_failed_retryable_def worker_test_simps)

definition identical_apply_second_time_is_skipped_duplicate :: bool where
  "identical_apply_second_time_is_skipped_duplicate \<longleftrightarrow>
     (let S = logs_apply (logs_extract fake_stages);
          r1 = first_job S (apply_job 5 ''http://x'' Dark);
          r2 = then_job S (apply_job 6 ''http://x'' Dark) r1
      in outcome_of r1 = Some Committed \<and> outcome_of r2 = Some SkippedDuplicate \<and>
         (case fst r2 of Some (Some r) \<Rightarrow> jr_cover_id r = Some (path_display cover_path) | _ \<Rightarrow> False) \<and>
         calls_of r2 = [CallExtract (10, 100), CallApply hexes])"

lemma identical_apply_second_time_is_skipped_duplicate_holds: identical_apply_second_time_is_skipped_duplicate
  by (simp add: identical_apply_second_time_is_skipped_duplicate_def worker_test_simps cong: let_weak_cong)

definition different_mode_reextracts :: bool where
  "different_mode_reextracts \<longleftrightarrow>
     (let S = logs_apply fake_stages;
          r2 = then_job S (apply_job 6 ''http://x'' Light) (first_job S (apply_job 5 ''http://x'' Dark))
      in outcome_of r2 = Some Committed \<and> length (calls_of r2) = 2)"

lemma different_mode_reextracts_holds: different_mode_reextracts
  by (simp add: different_mode_reextracts_def worker_test_simps cong: let_weak_cong)

text \<open>Same size, new modification time: the resolver hands out the next id at each call.\<close>

definition next_id :: "string \<Rightarrow> path option \<Rightarrow> test_shared \<Rightarrow> resolution option \<times> test_shared" where
  "next_id u d sh =
     (case te_ids (sh_env sh) of
        [] \<Rightarrow> (None, sh)
      | cid # ids \<Rightarrow> (Some (ready_at cover_path cid), sh\<lparr>sh_env := (sh_env sh)\<lparr>te_ids := ids\<rparr>\<rparr>))"

definition same_path_new_content_id_reextracts :: bool where
  "same_path_new_content_id_reextracts \<longleftrightarrow>
     (let S = logs_apply (fake_stages\<lparr>st_resolve := next_id\<rparr>);
          sh = (test_shared0 None)\<lparr>sh_env := \<lparr>te_calls = [], te_ids = [(10, 100), (10, 200)]\<rparr>\<rparr>;
          r1 = run_once S (apply_job 5 ''http://x'' Dark) None sh;
          r2 = then_job S (apply_job 6 ''http://x'' Dark) r1
      in outcome_of r1 = Some Committed \<and> outcome_of r2 = Some Committed \<and> length (calls_of r2) = 2)"

lemma same_path_new_content_id_reextracts_holds: same_path_new_content_id_reextracts
  by (simp add: same_path_new_content_id_reextracts_def worker_test_simps next_id_def cong: let_weak_cong)

definition repeat_revert_is_skipped_duplicate :: bool where
  "repeat_revert_is_skipped_duplicate \<longleftrightarrow>
     (let S = logs_revert fake_stages;
          r1 = first_job S (revert_job 5 Dark);
          r2 = then_job S (revert_job 6 Dark) r1
      in outcome_of r1 = Some Committed \<and> outcome_of r2 = Some SkippedDuplicate \<and> length (calls_of r2) = 1)"

lemma repeat_revert_is_skipped_duplicate_holds: repeat_revert_is_skipped_duplicate
  by (simp add: repeat_revert_is_skipped_duplicate_def worker_test_simps cong: let_weak_cong)

definition initial_committed_seed_skips_matching_first_revert :: bool where
  "initial_committed_seed_skips_matching_first_revert \<longleftrightarrow>
     (let out = run_once (logs_revert fake_stages) (revert_job 5 Dark) (Some (RevertTo Dark)) (test_shared0 None)
      in outcome_of out = Some SkippedDuplicate \<and> calls_of out = [])"

lemma initial_committed_seed_skips_matching_first_revert_holds: initial_committed_seed_skips_matching_first_revert
  by (simp add: initial_committed_seed_skips_matching_first_revert_def worker_test_simps)

end
