(* ===== verification/Input_Tests.thy ===== *)
theory Input_Tests
  imports Framing Select
begin

text \<open>
  The unit tests of \<open>src/state.rs\<close>, \<open>src/select.rs\<close> and \<open>src/framing.rs\<close>, replayed on the model: each test is a
  definition with the test's own steps and assertions, and a lemma that evaluates it.
\<close>

subsection \<open>State\<close>

definition only_the_three_mpris_statuses_parse :: bool where
  "only_the_three_mpris_statuses_parse \<longleftrightarrow>
     status_from_str ''Playing'' = Some Playing \<and> status_from_str ''Paused'' = Some Paused \<and>
     status_from_str ''Stopped'' = Some Stopped \<and>
     list_all (\<lambda>bad. status_from_str bad = None) [''playing'', ''Playing '', [], ''Buffering'']"

lemma only_the_three_mpris_statuses_parse_holds: only_the_three_mpris_statuses_parse
  by (simp add: only_the_three_mpris_statuses_parse_def status_from_str_def)

definition mode_round_trips_through_its_name :: bool where
  "mode_round_trips_through_its_name \<longleftrightarrow>
     list_all (\<lambda>m. mode_from_str (mode_as_str m) = Some m) [Dark, Light] \<and> mode_from_str ''Dark'' = None"

lemma mode_round_trips_through_its_name_holds: mode_round_trips_through_its_name
  by (simp add: mode_round_trips_through_its_name_def mode_from_str_def)

subsection \<open>Selection\<close>

definition select_jf_dir :: path where "select_jf_dir = [''covers'', ''jf'']"

definition select_dirs :: "string \<Rightarrow> path option" where
  "select_dirs name = (if name = ''jellyfin-tui'' then Some select_jf_dir else None)"

definition test_players :: "(string \<times> playback_status \<times> string \<times> nat) list \<Rightarrow> players" where
  "test_players entries =
     map (\<lambda>(name, status, art, sq). (name, \<lparr>ps_status = status, ps_art_url = art, ps_seq = sq\<rparr>)) entries"

definition decided :: "(string \<times> playback_status \<times> string \<times> nat) list \<Rightarrow> mode \<Rightarrow> string list \<Rightarrow> selection" where
  "decided entries m ineligible = decide (test_players entries) m select_dirs (\<lambda>n. n \<notin> set ineligible)"

definition applies :: "string \<Rightarrow> path option \<Rightarrow> mode \<Rightarrow> string \<Rightarrow> selection" where
  "applies art dir m winner =
     Apply \<lparr>d_target = Some \<lparr>ct_art_url = art, ct_covers_dir = dir\<rparr>, d_mode = m\<rparr> winner"

definition reverts :: "mode \<Rightarrow> selection" where
  "reverts m = Revert \<lparr>d_target = None, d_mode = m\<rparr>"

lemmas select_test_simps = decided_def test_players_def select_dirs_def applies_def reverts_def decide_def rank_key_def

definition single_playing_with_art_applies_that_cover :: bool where
  "single_playing_with_art_applies_that_cover \<longleftrightarrow>
     decided [(''spotify'', Playing, ''https://x/a'', 1)] Dark [] = applies ''https://x/a'' None Dark ''spotify''"

lemma single_playing_with_art_applies_that_cover_holds: single_playing_with_art_applies_that_cover
  by (simp add: single_playing_with_art_applies_that_cover_def select_test_simps)

definition two_playing_most_recent_seq_wins :: bool where
  "two_playing_most_recent_seq_wins \<longleftrightarrow>
     decided [(''spotify'', Playing, ''https://x/s'', 2), (''jellyfin-tui'', Playing, ''https://x/j'', 1)] Dark [] =
       applies ''https://x/s'' None Dark ''spotify''"

lemma two_playing_most_recent_seq_wins_holds: two_playing_most_recent_seq_wins
  by (simp add: two_playing_most_recent_seq_wins_def select_test_simps)

definition paused_and_playing_switches_to_playing :: bool where
  "paused_and_playing_switches_to_playing \<longleftrightarrow>
     decided [(''spotify'', Paused, ''https://x/s'', 3), (''jellyfin-tui'', Playing, ''https://x/j'', 2)] Dark [] =
       applies ''https://x/j'' (Some select_jf_dir) Dark ''jellyfin-tui''"

lemma paused_and_playing_switches_to_playing_holds: paused_and_playing_switches_to_playing
  by (simp add: paused_and_playing_switches_to_playing_def select_test_simps)

definition all_paused_reverts :: bool where
  "all_paused_reverts \<longleftrightarrow>
     decided [(''spotify'', Paused, ''https://x/s'', 2), (''jellyfin-tui'', Paused, ''https://x/j'', 1)] Dark [] = reverts Dark"

lemma all_paused_reverts_holds: all_paused_reverts
  by (simp add: all_paused_reverts_def select_test_simps)

definition all_stopped_reverts :: bool where
  "all_stopped_reverts \<longleftrightarrow> decided [(''spotify'', Stopped, [], 4)] Dark [] = reverts Dark"

lemma all_stopped_reverts_holds: all_stopped_reverts
  by (simp add: all_stopped_reverts_def select_test_simps)

definition empty_reverts :: bool where
  "empty_reverts \<longleftrightarrow> decided [] Dark [] = reverts Dark"

lemma empty_reverts_holds: empty_reverts
  by (simp add: empty_reverts_def select_test_simps)

definition playing_without_art_source_holds :: bool where
  "playing_without_art_source_holds \<longleftrightarrow> decided [(''spotify'', Playing, [], 5)] Dark [] = Hold"

lemma playing_without_art_source_holds_holds: playing_without_art_source_holds
  by (simp add: playing_without_art_source_holds_def select_test_simps)

definition playing_jellyfin_empty_art_still_resolves_via_dir :: bool where
  "playing_jellyfin_empty_art_still_resolves_via_dir \<longleftrightarrow>
     decided [(''jellyfin-tui'', Playing, [], 5)] Dark [] = applies [] (Some select_jf_dir) Dark ''jellyfin-tui''"

lemma playing_jellyfin_empty_art_still_resolves_via_dir_holds: playing_jellyfin_empty_art_still_resolves_via_dir
  by (simp add: playing_jellyfin_empty_art_still_resolves_via_dir_def select_test_simps)

definition mode_is_carried_into_the_desired :: bool where
  "mode_is_carried_into_the_desired \<longleftrightarrow>
     decided [(''spotify'', Playing, ''https://x/a'', 1)] Light [] = applies ''https://x/a'' None Light ''spotify''"

lemma mode_is_carried_into_the_desired_holds: mode_is_carried_into_the_desired
  by (simp add: mode_is_carried_into_the_desired_def select_test_simps)

definition newest_ineligible_falls_back_to_older_eligible :: bool where
  "newest_ineligible_falls_back_to_older_eligible \<longleftrightarrow>
     decided [(''spotify'', Playing, ''https://x/s'', 2), (''jellyfin-tui'', Playing, ''https://x/j'', 1)] Dark [''spotify''] =
       applies ''https://x/j'' (Some select_jf_dir) Dark ''jellyfin-tui''"

lemma newest_ineligible_falls_back_to_older_eligible_holds: newest_ineligible_falls_back_to_older_eligible
  by (simp add: newest_ineligible_falls_back_to_older_eligible_def select_test_simps)

definition all_playing_ineligible_holds :: bool where
  "all_playing_ineligible_holds \<longleftrightarrow>
     decided [(''spotify'', Playing, ''https://x/s'', 1)] Dark [''spotify''] = Hold"

lemma all_playing_ineligible_holds_holds: all_playing_ineligible_holds
  by (simp add: all_playing_ineligible_holds_def select_test_simps)

definition newest_without_art_source_falls_back_to_older_with_source :: bool where
  "newest_without_art_source_falls_back_to_older_with_source \<longleftrightarrow>
     decided [(''spotify'', Playing, [], 3), (''jellyfin-tui'', Playing, ''https://x/j'', 2)] Dark [] =
       applies ''https://x/j'' (Some select_jf_dir) Dark ''jellyfin-tui''"

lemma newest_without_art_source_falls_back_to_older_with_source_holds:
  newest_without_art_source_falls_back_to_older_with_source
  by (simp add: newest_without_art_source_falls_back_to_older_with_source_def select_test_simps)

subsection \<open>Framing\<close>

definition TAB :: byte where "TAB = CHR 0x09"

definition a_bytes :: "nat \<Rightarrow> byte list" where
  "a_bytes n = replicate n (CHR ''a'')"

definition fed :: "byte list \<Rightarrow> line_framer \<Rightarrow> byte list list" where
  "fed data f = fst (feed data f)"

definition drops :: "byte list \<Rightarrow> line_framer \<Rightarrow> nat list" where
  "drops data f = fst (snd (feed data f))"

definition after :: "byte list \<Rightarrow> line_framer \<Rightarrow> line_framer" where
  "after data f = snd (snd (feed data f))"

primrec after_times :: "nat \<Rightarrow> byte list \<Rightarrow> line_framer \<Rightarrow> nat list \<times> line_framer" where
  "after_times 0 data f = ([], f)"
| "after_times (Suc n) data f = (case after_times n data (after data f) of (ds, f') \<Rightarrow> (drops data f @ ds, f'))"

definition complete_line_is_returned_without_its_newline :: bool where
  "complete_line_is_returned_without_its_newline \<longleftrightarrow>
     fed (''spotify'' @ [TAB] @ ''Playing'' @ [TAB] @ ''https://x/a'' @ [NL]) framer_default =
       [''spotify'' @ [TAB] @ ''Playing'' @ [TAB] @ ''https://x/a'']"

definition multiple_lines_in_one_chunk :: bool where
  "multiple_lines_in_one_chunk \<longleftrightarrow>
     fed (''one'' @ [NL] @ ''two'' @ [NL] @ ''three'' @ [NL]) framer_default = [''one'', ''two'', ''three'']"

definition line_split_across_feeds_is_reassembled :: bool where
  "line_split_across_feeds_is_reassembled \<longleftrightarrow>
     (let f1 = after ''spot'' framer_default; f2 = after (''ify'' @ [TAB] @ ''Play'') f1
      in fed ''spot'' framer_default = [] \<and> fed (''ify'' @ [TAB] @ ''Play'') f1 = [] \<and>
         fed (''ing'' @ [TAB] @ [NL]) f2 = [''spotify'' @ [TAB] @ ''Playing'' @ [TAB]])"

definition partial_line_is_withheld_until_its_newline :: bool where
  "partial_line_is_withheld_until_its_newline \<longleftrightarrow>
     fed (''spotify'' @ [TAB] @ ''Playing'' @ [TAB] @ ''https://x/a'') framer_default = []"

definition line_of_exactly_max_bytes_is_accepted :: bool where
  "line_of_exactly_max_bytes_is_accepted \<longleftrightarrow>
     fed (a_bytes MAX_LINE_BYTES @ [NL]) framer_default = [a_bytes MAX_LINE_BYTES] \<and>
     drops (a_bytes MAX_LINE_BYTES @ [NL]) framer_default = []"

definition line_one_byte_over_max_is_dropped :: bool where
  "line_one_byte_over_max_is_dropped \<longleftrightarrow>
     fed (a_bytes (MAX_LINE_BYTES + 1) @ [NL]) framer_default = [] \<and>
     length (drops (a_bytes (MAX_LINE_BYTES + 1) @ [NL]) framer_default) = 1"

definition oversize_line_does_not_stop_the_next_line :: bool where
  "oversize_line_does_not_stop_the_next_line \<longleftrightarrow>
     fed (a_bytes (MAX_LINE_BYTES + 1) @ [NL] @ ''spotify'' @ [TAB] @ ''Playing'' @ [TAB] @ [NL]) framer_default =
       [''spotify'' @ [TAB] @ ''Playing'' @ [TAB]]"

definition tail_of_an_oversize_line_never_surfaces :: bool where
  "tail_of_an_oversize_line_never_surfaces \<longleftrightarrow>
     fed (a_bytes (MAX_LINE_BYTES + 1)) framer_default = [] \<and>
     fed (''jellyfin-tui'' @ [TAB] @ ''Playing'' @ [TAB] @ ''https://evil/a'' @ [NL])
       (after (a_bytes (MAX_LINE_BYTES + 1)) framer_default) = []"

definition framing_resumes_on_the_line_after_the_resync :: bool where
  "framing_resumes_on_the_line_after_the_resync \<longleftrightarrow>
     fed (''good'' @ [NL]) (after (''tail'' @ [NL]) (after (a_bytes (MAX_LINE_BYTES + 1)) framer_default)) = [''good'']"

definition oversize_spanning_many_feeds_does_not_accumulate :: bool where
  "oversize_spanning_many_feeds_does_not_accumulate \<longleftrightarrow>
     buffered_bytes (snd (after_times 100 (a_bytes MAX_LINE_BYTES) framer_default)) \<le> MAX_LINE_BYTES"

definition oversize_reports_exactly_one_drop_per_line :: bool where
  "oversize_reports_exactly_one_drop_per_line \<longleftrightarrow>
     (case after_times 10 (a_bytes MAX_LINE_BYTES) framer_default of
        (ds, f) \<Rightarrow> length (ds @ drops [NL] f) = 1)"

text \<open>What one feed does, by whether the framer is resynchronising and whether the data has a newline.\<close>

lemma a_bytes_facts [simp]: "NL \<notin> set (a_bytes n)" "length (a_bytes n) = n"
  by (simp_all add: a_bytes_def NL_def)

lemma feed_plain:
  "feed data \<lparr>lf_buf = buf, lf_max = mx, lf_discarding = False\<rparr> =
     (let s = buf @ data; big = mx < length (tail_line s)
      in (accepted_lines mx s,
          map length (filter (\<lambda>l. mx < length l) (complete_lines s)) @ (if big then [length (tail_line s)] else []),
          \<lparr>lf_buf = (if big then [] else tail_line s), lf_max = mx, lf_discarding = big\<rparr>))"
  by (simp add: feed_def frame_loop_clear Let_def)

lemma feed_discarding:
  "feed data \<lparr>lf_buf = [], lf_max = mx, lf_discarding = True\<rparr> =
     (if NL \<in> set data then
        (let big = mx < length (tail_line data)
         in (filter (\<lambda>l. length l \<le> mx) (tl (complete_lines data)),
             map length (filter (\<lambda>l. mx < length l) (tl (complete_lines data))) @ (if big then [length (tail_line data)] else []),
             \<lparr>lf_buf = (if big then [] else tail_line data), lf_max = mx, lf_discarding = big\<rparr>))
      else ([], [], \<lparr>lf_buf = [], lf_max = mx, lf_discarding = True\<rparr>))"
  by (simp add: feed_def frame_loop_discarding Let_def)

lemma split_a_bytes: "split_on NL (a_bytes n) = [a_bytes n]"
  by (simp add: split_on_no_sep)

text \<open>A framer with the default cap that is not resynchronising, and one that is.\<close>

definition clear :: "byte list \<Rightarrow> line_framer" where
  "clear buf = \<lparr>lf_buf = buf, lf_max = MAX_LINE_BYTES, lf_discarding = False\<rparr>"

definition resync :: line_framer where
  "resync = \<lparr>lf_buf = [], lf_max = MAX_LINE_BYTES, lf_discarding = True\<rparr>"

lemma default_clear: "framer_default = clear []"
  by (simp add: framer_default_def framer_new_def clear_def)

lemma feed_nothing: "feed [] (clear []) = ([], [], clear [])"
  by (simp add: clear_def feed_plain Let_def accepted_lines_def complete_lines_def tail_line_def)

lemma feed_part:
  assumes "NL \<notin> set buf" "NL \<notin> set p" "length buf + length p \<le> MAX_LINE_BYTES"
  shows "feed p (clear buf) = ([], [], clear (buf @ p))"
proof -
  have "split_on NL (buf @ p) = [buf @ p]" using assms by (intro split_on_no_sep) simp
  then show ?thesis
    using assms(3) by (simp add: clear_def feed_plain Let_def accepted_lines_def complete_lines_def tail_line_def)
qed

lemma feed_first:
  assumes "NL \<notin> set buf" "NL \<notin> set l"
  shows "feed (l @ NL # rest) (clear buf) =
     (case feed rest (clear []) of
        (ls, ds, f) \<Rightarrow>
          if length buf + length l \<le> MAX_LINE_BYTES then ((buf @ l) # ls, ds, f)
          else (ls, (length buf + length l) # ds, f))"
proof -
  have "split_on NL ((buf @ l) @ NL # rest) = (buf @ l) # split_on NL rest"
    using assms by (intro split_on_append_sep) simp
  then show ?thesis
    by (simp add: clear_def feed_plain Let_def accepted_lines_def complete_lines_def tail_line_def)
qed

lemma feed_over:
  "MAX_LINE_BYTES < n \<Longrightarrow> feed (a_bytes n) (clear []) = ([], [n], resync)"
  by (simp add: clear_def resync_def feed_plain Let_def accepted_lines_def complete_lines_def tail_line_def split_a_bytes)

lemma feed_resync:
  assumes "NL \<notin> set l" shows "feed (l @ [NL]) resync = ([], [], clear [])"
  using assms
  by (simp add: resync_def clear_def feed_discarding Let_def complete_lines_def tail_line_def split_on_append_sep)

text \<open>The lines of the tests.\<close>

definition line_a :: "byte list" where "line_a = ''spotify'' @ [TAB] @ ''Playing'' @ [TAB] @ ''https://x/a''"
definition line_empty :: "byte list" where "line_empty = ''spotify'' @ [TAB] @ ''Playing'' @ [TAB]"
definition line_evil :: "byte list" where "line_evil = ''jellyfin-tui'' @ [TAB] @ ''Playing'' @ [TAB] @ ''https://evil/a''"

lemma test_lines [simp]:
  "NL \<notin> set line_a" "NL \<notin> set line_empty" "NL \<notin> set line_evil" "length line_a \<le> MAX_LINE_BYTES"
  "length line_empty \<le> MAX_LINE_BYTES"
  by (simp_all add: line_a_def line_empty_def line_evil_def TAB_def NL_def MAX_LINE_BYTES_def)

lemma complete_line_is_returned_without_its_newline_holds: complete_line_is_returned_without_its_newline
proof -
  have "fed (line_a @ [NL]) framer_default = [line_a]"
    using feed_first [of "[]" line_a "[]"] by (simp add: fed_def default_clear feed_nothing)
  then show ?thesis by (simp add: complete_line_is_returned_without_its_newline_def line_a_def)
qed

lemma multiple_lines_in_one_chunk_holds: multiple_lines_in_one_chunk
proof -
  have 3: "feed (''three'' @ NL # []) (clear []) = ([''three''], [], clear [])"
    by (subst feed_first) (simp_all add: feed_nothing MAX_LINE_BYTES_def NL_def)
  have 2: "feed (''two'' @ NL # (''three'' @ NL # [])) (clear []) = ([''two'', ''three''], [], clear [])"
    by (subst feed_first, simp add: NL_def, simp add: NL_def, subst 3) (simp add: MAX_LINE_BYTES_def)
  have "feed (''one'' @ NL # (''two'' @ NL # (''three'' @ NL # []))) (clear []) = ([''one'', ''two'', ''three''], [], clear [])"
    by (subst feed_first, simp add: NL_def, simp add: NL_def, subst 2) (simp add: MAX_LINE_BYTES_def)
  then show ?thesis by (simp add: multiple_lines_in_one_chunk_def fed_def default_clear)
qed

lemma line_split_across_feeds_is_reassembled_holds: line_split_across_feeds_is_reassembled
proof -
  let ?p = "''ify'' @ [TAB] @ ''Play''"
  have 1: "feed ''spot'' (clear []) = ([], [], clear ''spot'')"
    using feed_part [of "[]" "''spot''"] by (simp add: MAX_LINE_BYTES_def NL_def)
  have 2: "feed ?p (clear ''spot'') = ([], [], clear (''spot'' @ ?p))"
    by (rule feed_part) (simp_all add: MAX_LINE_BYTES_def TAB_def NL_def)
  have 3: "feed ((''ing'' @ [TAB]) @ NL # []) (clear (''spot'' @ ?p)) = ([(''spot'' @ ?p) @ ''ing'' @ [TAB]], [], clear [])"
    by (subst feed_first) (simp_all add: feed_nothing MAX_LINE_BYTES_def TAB_def NL_def)
  show ?thesis
    unfolding line_split_across_feeds_is_reassembled_def Let_def fed_def after_def default_clear
    using 1 2 3 by simp
qed

lemma partial_line_is_withheld_until_its_newline_holds: partial_line_is_withheld_until_its_newline
proof -
  have "fed line_a framer_default = []" using feed_part [of "[]" line_a] by (simp add: fed_def default_clear)
  then show ?thesis by (simp add: partial_line_is_withheld_until_its_newline_def line_a_def)
qed

lemma line_of_exactly_max_bytes_is_accepted_holds: line_of_exactly_max_bytes_is_accepted
  using feed_first [of "[]" "a_bytes MAX_LINE_BYTES" "[]"]
  by (simp add: line_of_exactly_max_bytes_is_accepted_def fed_def drops_def default_clear feed_nothing)

lemma line_one_byte_over_max_is_dropped_holds: line_one_byte_over_max_is_dropped
  using feed_first [of "[]" "a_bytes (MAX_LINE_BYTES + 1)" "[]"]
  by (simp add: line_one_byte_over_max_is_dropped_def fed_def drops_def default_clear feed_nothing)

lemma oversize_line_does_not_stop_the_next_line_holds: oversize_line_does_not_stop_the_next_line
proof -
  have "feed (line_empty @ [NL]) (clear []) = ([line_empty], [], clear [])"
    using feed_first [of "[]" line_empty "[]"] by (simp add: feed_nothing)
  then have "fed (a_bytes (MAX_LINE_BYTES + 1) @ NL # (line_empty @ [NL])) framer_default = [line_empty]"
    using feed_first [of "[]" "a_bytes (MAX_LINE_BYTES + 1)" "line_empty @ [NL]"] by (simp add: fed_def default_clear)
  then show ?thesis by (simp add: oversize_line_does_not_stop_the_next_line_def line_empty_def)
qed

lemma tail_of_an_oversize_line_never_surfaces_holds: tail_of_an_oversize_line_never_surfaces
proof -
  have "fed (line_evil @ [NL]) (after (a_bytes (MAX_LINE_BYTES + 1)) framer_default) = []"
    by (simp add: fed_def after_def default_clear feed_over feed_resync)
  then show ?thesis
    by (simp add: tail_of_an_oversize_line_never_surfaces_def fed_def default_clear feed_over line_evil_def)
qed

lemma framing_resumes_on_the_line_after_the_resync_holds: framing_resumes_on_the_line_after_the_resync
proof -
  have 1: "feed (a_bytes (MAX_LINE_BYTES + 1)) (clear []) = ([], [MAX_LINE_BYTES + 1], resync)"
    by (rule feed_over) simp
  have 2: "feed (''tail'' @ [NL]) resync = ([], [], clear [])" by (rule feed_resync) (simp add: NL_def)
  have 3: "feed (''good'' @ NL # []) (clear []) = ([''good''], [], clear [])"
    by (subst feed_first) (simp_all add: feed_nothing MAX_LINE_BYTES_def NL_def)
  show ?thesis
    unfolding framing_resumes_on_the_line_after_the_resync_def fed_def after_def default_clear
    using 1 2 3 by simp
qed

lemma after_times_discarding:
  "after_times n (a_bytes k) \<lparr>lf_buf = [], lf_max = mx, lf_discarding = True\<rparr> =
     ([], \<lparr>lf_buf = [], lf_max = mx, lf_discarding = True\<rparr>)"
  by (induction n) (simp_all add: after_def drops_def feed_discarding)

lemma after_times_big:
  "after_times (Suc (Suc n)) (a_bytes MAX_LINE_BYTES) framer_default =
     ([2 * MAX_LINE_BYTES], \<lparr>lf_buf = [], lf_max = MAX_LINE_BYTES, lf_discarding = True\<rparr>)"
proof -
  have "split_on NL (a_bytes n @ a_bytes m) = [a_bytes n @ a_bytes m]" for n m
    by (simp add: split_on_no_sep)
  then show ?thesis
    by (simp add: after_def drops_def framer_default_def framer_new_def feed_plain Let_def accepted_lines_def
        complete_lines_def tail_line_def split_a_bytes after_times_discarding) (simp add: MAX_LINE_BYTES_def)
qed

lemma spanning_tests: oversize_spanning_many_feeds_does_not_accumulate oversize_reports_exactly_one_drop_per_line
proof -
  have "(100 :: nat) = Suc (Suc 98)" "(10 :: nat) = Suc (Suc 8)" by simp_all
  then show oversize_spanning_many_feeds_does_not_accumulate oversize_reports_exactly_one_drop_per_line
    unfolding oversize_spanning_many_feeds_does_not_accumulate_def oversize_reports_exactly_one_drop_per_line_def
    by (simp_all only: after_times_big)
      (simp_all add: buffered_bytes_def drops_def feed_discarding complete_lines_def tail_line_def Let_def)
qed

end
