(* ===== verification/Policy_Tests.thy ===== *)
theory Policy_Tests
  imports Policy
begin

text \<open>
  The unit tests of \<open>src/cover/policy.rs\<close>, replayed on the model. Addresses are written as the numbers their textual
  form stands for, URLs as the records of accessors the \<open>url\<close> crate gives for them.
\<close>

subsection \<open>The fixtures\<close>

definition GLOBAL_ADDR :: ip_addr where "GLOBAL_ADDR = V4 (u32_from_octets [23, 192, 228, 84])"

definition fake_dns :: "ip_addr list \<Rightarrow> unit dns" where
  "fake_dns addrs = (\<lambda>_ w. (Inr addrs, w))"

definition domains :: "string list" where
  "domains = art_domains_from None"

definition check :: "url \<Rightarrow> ip_addr list \<Rightarrow> cover_error + socket_addr list" where
  "check u addrs = fst (check_destination u domains (fake_dns addrs) ())"

definition is_refused :: "cover_error + socket_addr list \<Rightarrow> bool" where
  "is_refused r = (case r of Inl (Refused _) \<Rightarrow> True | _ \<Rightarrow> False)"

text \<open>\<open>https://i.scdn.co/x\<close>, and the variations of it the tests use.\<close>

definition scdn_url :: url where
  "scdn_url = \<lparr>url_scheme = ''https'', url_username = [], url_password = None, url_port = None,
     url_host = Some (HostDomain ''i.scdn.co''), url_host_str = Some ''i.scdn.co'', url_to_file_path = None,
     url_as_str = ''https://i.scdn.co/x''\<rparr>"

lemma domains_eq: "domains = [''scdn.co'', ''spotifycdn.com'']"
  by (simp add: domains_def art_domains_from_def DEFAULT_ART_DOMAINS_def add_domain_def trim_def to_lowercase_def)

lemma scdn_allowed: "host_allowed ''i.scdn.co'' domains"
  unfolding domains_eq by code_simp

lemma global_addr: "is_global GLOBAL_ADDR"
  by (simp add: GLOBAL_ADDR_def u32_from_octets_def special_v4 V4_SPECIAL_def in_interval_def)

subsection \<open>Destinations\<close>

text \<open>An explicit default port is no port for the parser.\<close>

definition accepts_allowlisted_https_url_and_returns_the_checked_addresses :: bool where
  "accepts_allowlisted_https_url_and_returns_the_checked_addresses \<longleftrightarrow>
     check scdn_url [GLOBAL_ADDR] = Inr [(GLOBAL_ADDR, 443)]"

lemma accepts_allowlisted_https_url_and_returns_the_checked_addresses_holds:
  accepts_allowlisted_https_url_and_returns_the_checked_addresses
  by (simp add: accepts_allowlisted_https_url_and_returns_the_checked_addresses_def check_def check_destination_def
      scdn_url_def scdn_allowed fake_dns_def global_addr HTTPS_PORT_def)

definition rejects_non_https_userinfo_port_and_foreign_hosts :: bool where
  "rejects_non_https_userinfo_port_and_foreign_hosts \<longleftrightarrow>
     list_all (\<lambda>u. is_refused (check u [GLOBAL_ADDR]))
       [scdn_url\<lparr>url_scheme := ''http''\<rparr>, scdn_url\<lparr>url_scheme := ''ftp''\<rparr>,
        scdn_url\<lparr>url_username := ''user'', url_password := Some ''pw''\<rparr>, scdn_url\<lparr>url_username := ''user''\<rparr>,
        scdn_url\<lparr>url_port := Some 8080\<rparr>, scdn_url\<lparr>url_host := Some (HostDomain ''evil.example'')\<rparr>,
        scdn_url\<lparr>url_host := Some (HostV4 (u32_from_octets [23, 192, 228, 84]))\<rparr>,
        scdn_url\<lparr>url_host := Some (HostV6 (u128_from_segments [0x2600, 0, 0, 0, 0, 0, 0, 1]))\<rparr>]"

lemma evil_not_allowed: "\<not> host_allowed ''evil.example'' domains"
  unfolding domains_eq by code_simp

lemma rejects_non_https_userinfo_port_and_foreign_hosts_holds: rejects_non_https_userinfo_port_and_foreign_hosts
  by (simp add: rejects_non_https_userinfo_port_and_foreign_hosts_def is_refused_def check_def check_destination_def
      scdn_url_def evil_not_allowed)

definition rejects_non_global_addresses :: bool where
  "rejects_non_global_addresses \<longleftrightarrow>
     list_all (\<lambda>addr. is_refused (check scdn_url [addr]))
       (map (\<lambda>o4. V4 (u32_from_octets o4))
          [[127, 0, 0, 1], [10, 0, 0, 1], [192, 168, 1, 1], [172, 16, 0, 1], [169, 254, 1, 1], [224, 0, 0, 1], [240, 0, 0, 1],
           [0, 0, 0, 0], [100, 64, 0, 1], [192, 0, 2, 1], [198, 18, 0, 1], [255, 255, 255, 255]] @
        map (\<lambda>s8. V6 (u128_from_segments s8))
          [[0, 0, 0, 0, 0, 0, 0, 1], [0xfe80, 0, 0, 0, 0, 0, 0, 1], [0, 0, 0, 0, 0, 0, 0, 0], [0xfc00, 0, 0, 0, 0, 0, 0, 1],
           [0xfd12, 0, 0, 0, 0, 0, 0, 1], [0, 0, 0, 0, 0, 0xffff, 0x7f00, 1], [0, 0, 0, 0, 0, 0xffff, 0x17c0, 0xe454],
           [0x64, 0xff9b, 0, 0, 0, 0, 0x7f00, 1], [0x2001, 0xdb8, 0, 0, 0, 0, 0, 1], [0x2002, 0x7f00, 1, 0, 0, 0, 0, 1],
           [0xff02, 0, 0, 0, 0, 0, 0, 1], [0xfec0, 0, 0, 0, 0, 0, 0, 1]])"

lemma refused_if_not_global: "\<not> is_global a \<Longrightarrow> is_refused (check scdn_url [a])"
  by (simp add: is_refused_def check_def check_destination_def scdn_url_def scdn_allowed fake_dns_def)

lemmas address_simps = is_global_v4 is_global_v6 u32_from_octets_def u128_from_segments_def V4_SPECIAL_def V6_SPECIAL_def
  in_interval_def

lemma rejects_non_global_addresses_holds: rejects_non_global_addresses
  unfolding rejects_non_global_addresses_def list.map append.simps list.pred_inject
  by (intro conjI TrueI refused_if_not_global; simp add: address_simps del: is_global.simps)

definition rejects_when_any_resolved_address_is_non_global :: bool where
  "rejects_when_any_resolved_address_is_non_global \<longleftrightarrow>
     is_refused (check scdn_url [GLOBAL_ADDR, V4 (u32_from_octets [127, 0, 0, 1])])"

lemma rejects_when_any_resolved_address_is_non_global_holds: rejects_when_any_resolved_address_is_non_global
proof -
  have "\<not> is_global (V4 (u32_from_octets [127, 0, 0, 1]))"
    by (simp add: u32_from_octets_def special_v4 V4_SPECIAL_def in_interval_def)
  then show ?thesis
    by (simp add: rejects_when_any_resolved_address_is_non_global_def is_refused_def check_def check_destination_def
        scdn_url_def scdn_allowed fake_dns_def global_addr del: is_global.simps)
qed

definition rejects_when_nothing_resolves :: bool where
  "rejects_when_nothing_resolves \<longleftrightarrow> is_refused (check scdn_url [])"

lemma rejects_when_nothing_resolves_holds: rejects_when_nothing_resolves
  by (simp add: rejects_when_nothing_resolves_def is_refused_def check_def check_destination_def scdn_url_def
      scdn_allowed fake_dns_def)

definition global_addresses_pass :: bool where
  "global_addresses_pass \<longleftrightarrow>
     list_all is_global
       [V4 (u32_from_octets [23, 192, 228, 84]), V4 (u32_from_octets [8, 8, 8, 8]), V4 (u32_from_octets [151, 101, 1, 1]),
        V6 (u128_from_segments [0x2600, 0x1406, 0, 0, 0, 0, 0, 1]), V6 (u128_from_segments [0x2a00, 0x1450, 0, 0, 0, 0, 0, 1])]"

lemma global_addresses_pass_holds: global_addresses_pass
  unfolding global_addresses_pass_def list.pred_inject
  by (intro conjI TrueI; simp add: address_simps del: is_global.simps)

subsection \<open>The host allowlist\<close>

definition provider_domain_and_subdomains_allowed :: bool where
  "provider_domain_and_subdomains_allowed \<longleftrightarrow>
     list_all (\<lambda>h. host_allowed h domains) [''scdn.co'', ''i.scdn.co'', ''mosaic.scdn.co'', ''image-cdn-fa.spotifycdn.com'']"

lemma provider_domain_and_subdomains_allowed_holds: provider_domain_and_subdomains_allowed
  unfolding provider_domain_and_subdomains_allowed_def domains_eq by code_simp

definition suffix_confusion_rejected :: bool where
  "suffix_confusion_rejected \<longleftrightarrow>
     list_all (\<lambda>h. \<not> host_allowed h domains)
       [''evilscdn.co'', ''scdn.co.attacker.com'', ''notspotifycdn.com'', ''i.scdn.co.evil.com'', ''example.com'', ''.scdn.co.'']"

lemma suffix_confusion_rejected_holds: suffix_confusion_rejected
  unfolding suffix_confusion_rejected_def domains_eq by code_simp

definition host_match_is_case_insensitive :: bool where
  "host_match_is_case_insensitive \<longleftrightarrow> host_allowed ''I.SCDN.CO'' domains"

lemma host_match_is_case_insensitive_holds: host_match_is_case_insensitive
  unfolding host_match_is_case_insensitive_def domains_eq by code_simp

definition defaults_present_and_env_extends_them :: bool where
  "defaults_present_and_env_extends_them \<longleftrightarrow>
     art_domains_from None = [''scdn.co'', ''spotifycdn.com''] \<and>
     art_domains_from (Some ''art.example.net, CDN.foo.org,,scdn.co'') =
       [''scdn.co'', ''spotifycdn.com'', ''art.example.net'', ''cdn.foo.org'']"

lemma defaults_present_and_env_extends_them_holds: defaults_present_and_env_extends_them
  by code_simp

end
