(* ===== verification/Fetch_Tests.thy ===== *)
theory Fetch_Tests
  imports Fetch Policy_Tests
begin

text \<open>
  The unit tests of \<open>src/cover/fetch.rs\<close>, replayed on the model, the two of the real transport excepted: they need a
  socket. The world of a test holds what its closures capture; the \<open>url\<close> crate is a table of the URLs the tests parse.
\<close>

subsection \<open>The world of a test\<close>

record test_net =
  tn_chunks :: "byte list list"
  tn_was_read :: bool
  tn_ticks :: nat
  tn_checks :: nat
  tn_calls :: "(string \<times> socket_addr list) list"

definition net_with :: "byte list list \<Rightarrow> test_net" where
  "net_with cs = \<lparr>tn_chunks = cs, tn_was_read = False, tn_ticks = 0, tn_checks = 0, tn_calls = []\<rparr>"

text \<open>A read yields the next chunk; those of the tests fit the buffer.\<close>

definition chunks_read :: "test_net reader" where
  "chunks_read n w =
     (let w' = w\<lparr>tn_was_read := True\<rparr>
      in case tn_chunks w of [] \<Rightarrow> (Inr [], w') | c # cs \<Rightarrow> (Inr c, w'\<lparr>tn_chunks := cs\<rparr>))"

definition ok_response :: "string option \<Rightarrow> response" where
  "ok_response declared = \<lparr>rs_status = 200, rs_location = None, rs_content_length = declared\<rparr>"

definition still :: "test_net \<Rightarrow> instant \<times> test_net" where "still w = (0, w)"

definition never :: "test_net \<Rightarrow> bool \<times> test_net" where "never w = (False, w)"

definition body_of :: "string option \<Rightarrow> (test_net \<Rightarrow> instant \<times> test_net) \<Rightarrow> (test_net \<Rightarrow> bool \<times> test_net) \<Rightarrow>
    byte list list \<Rightarrow> ((cover_error + byte list) \<times> test_net) option" where
  "body_of declared now stop cs = read_body chunks_read (ok_response declared) DOWNLOAD_DEADLINE now stop (net_with cs)"

lemma read_step:
  "read_loop chunks_read still never d out \<lparr>tn_chunks = cs, tn_was_read = b, tn_ticks = t, tn_checks = k, tn_calls = l\<rparr> =
     (case cs of
        [] \<Rightarrow> Some (Inr out, \<lparr>tn_chunks = [], tn_was_read = True, tn_ticks = t, tn_checks = k, tn_calls = l\<rparr>)
      | c # cs' \<Rightarrow>
          let w = \<lparr>tn_chunks = cs', tn_was_read = True, tn_ticks = t, tn_checks = k, tn_calls = l\<rparr>
          in if c = [] then Some (Inr out, w)
             else if MAX_COVER_BYTES < length out + length c then Some (Inl TooLarge, w)
             else read_loop chunks_read still never d (out @ c) w)"
  by (simp add: read_loop.simps [of chunks_read still never d out] still_def never_def chunks_read_def Let_def
      split: list.split)

text \<open>A declared length that prints a number below \<open>2 ^ 64\<close> is read as that number.\<close>

lemma digit_not_space: "is_digit c \<Longrightarrow> \<not> is_space c"
  by (auto simp: is_digit_def is_space_def)

lemma trim_digits:
  assumes "list_all is_digit s" shows "trim s = s"
proof -
  have "dropWhile is_space s = s" "dropWhile is_space (rev s) = rev s"
    using assms digit_not_space by (auto simp: dropWhile_eq_self_iff list_all_iff hd_rev)
  then show ?thesis by (simp add: trim_def)
qed

lemma show_nat_plain: "show_nat n \<noteq> [] \<and> \<not> starts_with (show_nat n) ''+''"
proof -
  have ne: "show_nat n \<noteq> []" by (simp add: show_nat.simps [of n])
  then have "is_digit (hd (show_nat n))" using is_digit_show [of n] by (simp add: list_all_iff)
  then have "hd (show_nat n) \<noteq> CHR ''+''" by (auto simp: is_digit_def)
  with ne show ?thesis by (cases "show_nat n") (auto simp: starts_with_def)
qed

lemma parse_u64_show: "n < 2 ^ 64 \<Longrightarrow> parse_u64 (trim (show_nat n)) = Some n"
  using show_nat_plain [of n] by (simp add: trim_digits is_digit_show parse_u64_def Let_def)

subsection \<open>Body bounds\<close>

definition oversized_declared_length_is_refused_before_reading_the_body :: bool where
  "oversized_declared_length_is_refused_before_reading_the_body \<longleftrightarrow>
     (case body_of (Some (show_nat (MAX_COVER_BYTES + 1))) still never [''x''] of
        Some (Inl TooLarge, w) \<Rightarrow> \<not> tn_was_read w | _ \<Rightarrow> False)"

lemma oversized_declared_length_is_refused_before_reading_the_body_holds:
  oversized_declared_length_is_refused_before_reading_the_body
proof -
  have "declared_too_large (ok_response (Some (show_nat (MAX_COVER_BYTES + 1))))"
    by (simp add: declared_too_large_def ok_response_def parse_u64_show MAX_COVER_BYTES_def)
  then show ?thesis
    by (simp add: oversized_declared_length_is_refused_before_reading_the_body_def body_of_def read_body_def net_with_def)
qed

definition malformed_declared_length_is_ignored :: bool where
  "malformed_declared_length_is_ignored \<longleftrightarrow> map_option fst (body_of (Some ''lots'') still never [''IMG'']) = Some (Inr ''IMG'')"

lemma malformed_declared_length_is_ignored_holds: malformed_declared_length_is_ignored
proof -
  have "\<not> declared_too_large (ok_response (Some ''lots''))" by code_simp
  then show ?thesis
    by (simp add: malformed_declared_length_is_ignored_def body_of_def read_body_def net_with_def read_step MAX_COVER_BYTES_def)
qed

text \<open>One chunk short of the cap passes; the chunk that crosses it fails.\<close>

definition undeclared_oversized_body_is_stopped_at_the_cap :: bool where
  "undeclared_oversized_body_is_stopped_at_the_cap \<longleftrightarrow>
     map_option fst (body_of None still never (replicate (MAX_COVER_BYTES div CHUNK + 1) (replicate CHUNK (CHR 0x00)))) =
       Some (Inl TooLarge)"

lemma read_chunks_over_cap:
  assumes "MAX_COVER_BYTES < length out + k * n" and "length out \<le> MAX_COVER_BYTES" and "0 < n"
  shows "map_option fst (read_loop chunks_read still never d out
     \<lparr>tn_chunks = replicate k (replicate n c), tn_was_read = b, tn_ticks = t, tn_checks = j, tn_calls = l\<rparr>) = Some (Inl TooLarge)"
  using assms by (induction k arbitrary: out b) (simp_all add: read_step Let_def algebra_simps)

lemma undeclared_oversized_body_is_stopped_at_the_cap_holds: undeclared_oversized_body_is_stopped_at_the_cap
proof -
  have "MAX_COVER_BYTES < 0 + (MAX_COVER_BYTES div CHUNK + 1) * CHUNK" "0 < CHUNK"
    by (simp_all add: MAX_COVER_BYTES_def CHUNK_def)
  then show ?thesis
    unfolding undeclared_oversized_body_is_stopped_at_the_cap_def body_of_def read_body_def net_with_def
    by (simp add: declared_too_large_def ok_response_def read_chunks_over_cap del: replicate_Suc map_option_eq_Some)
qed

text \<open>The clock passes the deadline at its second reading.\<close>

definition slow_clock :: "test_net \<Rightarrow> instant \<times> test_net" where
  "slow_clock w =
     (let w' = w\<lparr>tn_ticks := tn_ticks w + 1\<rparr>
      in (if tn_ticks w' > 1 then DOWNLOAD_DEADLINE + from_secs 1 else 0, w'))"

definition total_deadline_aborts_a_slow_drip :: bool where
  "total_deadline_aborts_a_slow_drip \<longleftrightarrow>
     map_option fst (body_of None slow_clock never (replicate 1000 ''a'')) = Some (Inl Timeout)"

lemma replicate_1000: "replicate 1000 x = x # replicate 999 x"
proof -
  have "replicate (Suc 999) x = x # replicate 999 x" by (rule replicate_Suc)
  then show ?thesis by simp
qed

lemma total_deadline_aborts_a_slow_drip_holds: total_deadline_aborts_a_slow_drip
  unfolding total_deadline_aborts_a_slow_drip_def body_of_def read_body_def net_with_def replicate_1000
  by (simp add: declared_too_large_def ok_response_def read_loop.simps [of chunks_read slow_clock never] slow_clock_def
      never_def chunks_read_def MAX_COVER_BYTES_def from_secs_def)

definition normal_image_is_returned_whole :: bool where
  "normal_image_is_returned_whole \<longleftrightarrow>
     map_option fst (body_of (Some ''7'') still never [''IMG'', ''DATA'']) = Some (Inr ''IMGDATA'')"

lemma normal_image_is_returned_whole_holds: normal_image_is_returned_whole
proof -
  have "\<not> declared_too_large (ok_response (Some ''7''))"
    by (simp add: declared_too_large_def ok_response_def parse_u64_def trim_digits is_digit_def digits_value_def
        starts_with_def MAX_COVER_BYTES_def)
  then show ?thesis
    by (simp add: normal_image_is_returned_whole_def body_of_def read_body_def net_with_def read_step MAX_COVER_BYTES_def)
qed

text \<open>The first chunk goes through, then the flag is up.\<close>

definition stop_after_first :: "test_net \<Rightarrow> bool \<times> test_net" where
  "stop_after_first w = (let w' = w\<lparr>tn_checks := tn_checks w + 1\<rparr> in (tn_checks w' > 1, w'))"

definition should_stop_aborts_mid_stream :: bool where
  "should_stop_aborts_mid_stream \<longleftrightarrow>
     map_option fst (body_of None still stop_after_first (replicate 1000 ''a'')) = Some (Inl Aborted)"

lemma should_stop_aborts_mid_stream_holds: should_stop_aborts_mid_stream
  unfolding should_stop_aborts_mid_stream_def body_of_def read_body_def net_with_def replicate_1000
  by (simp add: declared_too_large_def ok_response_def read_loop.simps [of chunks_read still stop_after_first] still_def
      stop_after_first_def chunks_read_def MAX_COVER_BYTES_def)

subsection \<open>The fetch loop: policy on every hop\<close>

text \<open>The URLs of the tests, and what \<open>Url::parse\<close> and \<open>Url::join\<close> make of them.\<close>

definition https_at :: "url_host \<Rightarrow> string \<Rightarrow> string \<Rightarrow> url" where
  "https_at h name text =
     \<lparr>url_scheme = ''https'', url_username = [], url_password = None, url_port = None, url_host = Some h,
      url_host_str = Some name, url_to_file_path = None, url_as_str = text\<rparr>"

definition i_scdn :: "string \<Rightarrow> url" where
  "i_scdn path = https_at (HostDomain ''i.scdn.co'') ''i.scdn.co'' (''https://i.scdn.co/'' @ path)"

definition url_table :: "(string \<times> url) list" where
  "url_table =
     [(''https://i.scdn.co/a'', i_scdn ''a''), (''/a'', i_scdn ''a''), (''/b'', i_scdn ''b''),
      (''https://127.0.0.1/evil'', https_at (HostV4 (u32_from_octets [127, 0, 0, 1])) ''127.0.0.1'' ''https://127.0.0.1/evil''),
      (''https://evil.example/x'', https_at (HostDomain ''evil.example'') ''evil.example'' ''https://evil.example/x''),
      (''http://i.scdn.co/x'', (i_scdn ''x'')\<lparr>url_scheme := ''http'', url_as_str := ''http://i.scdn.co/x''\<rparr>)]"

text \<open>
  The scripted transport: a route has a status, a location and a body, which becomes the body of the open response; it
  records the call. A request with no route is an error here where the test's transport panics.
\<close>

type_synonym route = "string \<times> nat \<times> string option \<times> byte list"

definition fake_get :: "route list \<Rightarrow> url \<Rightarrow> socket_addr list \<Rightarrow> test_net \<Rightarrow> (cover_error + response) \<times> test_net" where
  "fake_get routes u addrs w =
     (let w' = w\<lparr>tn_calls := tn_calls w @ [(url_as_str u, addrs)]\<rparr>
      in case map_of routes (url_as_str u) of
           None \<Rightarrow> (Inl (Io ''unexpected request''), w')
         | Some (status, location, data) \<Rightarrow>
             (Inr \<lparr>rs_status = status, rs_location = location, rs_content_length = None\<rparr>, w'\<lparr>tn_chunks := [data]\<rparr>))"

definition env_of :: "route list \<Rightarrow> ip_addr list \<Rightarrow> test_net fetch_env" where
  "env_of routes ips =
     \<lparr>fe_domains = domains, fe_dns = (\<lambda>_ w. (Inr ips, w)), fe_get = fake_get routes, fe_read = chunks_read,
      fe_now = still, fe_should_stop = never, fe_parse = map_of url_table, fe_join = (\<lambda>_. map_of url_table)\<rparr>"

lemma env_simps:
  "fe_domains (env_of routes ips) = domains" "fe_dns (env_of routes ips) = (\<lambda>_ w. (Inr ips, w))"
  "fe_get (env_of routes ips) = fake_get routes" "fe_read (env_of routes ips) = chunks_read"
  "fe_now (env_of routes ips) = still" "fe_should_stop (env_of routes ips) = never"
  "fe_parse (env_of routes ips) = map_of url_table" "fe_join (env_of routes ips) = (\<lambda>_. map_of url_table)"
  by (simp_all add: env_of_def)

definition run_fetch :: "route list \<Rightarrow> ip_addr list \<Rightarrow> ((cover_error + byte list) \<times> test_net) option" where
  "run_fetch routes ips = fetch ''https://i.scdn.co/a'' (env_of routes ips) (net_with [])"

definition refused_with :: "nat \<Rightarrow> ((cover_error + byte list) \<times> test_net) option \<Rightarrow> bool" where
  "refused_with calls out =
     (case out of Some (Inl (Refused _), w) \<Rightarrow> length (tn_calls w) = calls | _ \<Rightarrow> False)"

definition io_failed :: "((cover_error + byte list) \<times> test_net) option \<Rightarrow> bool" where
  "io_failed out = (case out of Some (Inl (Io _), _) \<Rightarrow> True | _ \<Rightarrow> False)"

text \<open>The checks of the tests' destinations.\<close>

lemma check_i_scdn:
  "check_destination (i_scdn path) domains (\<lambda>_ w. (Inr [GLOBAL_ADDR], w)) w = (Inr [(GLOBAL_ADDR, 443)], w)"
  by (simp add: check_destination_def i_scdn_def https_at_def scdn_allowed global_addr HTTPS_PORT_def del: is_global.simps)

lemma url_of_path: "url_as_str (i_scdn path) = ''https://i.scdn.co/'' @ path"
  by (simp add: i_scdn_def https_at_def)

text \<open>One hop to an allowed URL: the transport is asked once, pinned to the checked address.\<close>

lemma hop_get:
  "fetch_hops (Suc n) (env_of routes [GLOBAL_ADDR]) DOWNLOAD_DEADLINE (i_scdn path) w =
     (case fake_get routes (i_scdn path) [(GLOBAL_ADDR, 443)] w of
        (Inl e, w3) \<Rightarrow> Some (Inl e, w3)
      | (Inr resp, w3) \<Rightarrow>
          (let s = rs_status resp in
           if 200 \<le> s \<and> s \<le> 299 then read_body chunks_read resp DOWNLOAD_DEADLINE still never w3
           else if is_redirect s then
             (case rs_location resp of
                None \<Rightarrow> Some (Inl (Io (''HTTP '' @ show_nat s @ '' without Location'')), w3)
              | Some loc \<Rightarrow>
                  (case map_of url_table loc of
                     None \<Rightarrow> Some (Inl (Refused BadRedirect), w3)
                   | Some u' \<Rightarrow> fetch_hops n (env_of routes [GLOBAL_ADDR]) DOWNLOAD_DEADLINE u' w3))
           else Some (Inl (Io (''HTTP '' @ show_nat s)), w3)))"
  by (simp add: env_simps check_i_scdn still_def Let_def split: prod.split sum.split option.split)

lemma run_fetch_hops:
  "run_fetch routes ips = fetch_hops (Suc MAX_REDIRECTS) (env_of routes ips) DOWNLOAD_DEADLINE (i_scdn ''a'') (net_with [])"
  by (simp add: run_fetch_def fetch_def env_of_def still_def url_table_def)

definition fetch_pins_the_transport_to_the_checked_addresses :: bool where
  "fetch_pins_the_transport_to_the_checked_addresses \<longleftrightarrow>
     (case run_fetch [(''https://i.scdn.co/a'', 200, None, ''IMG'')] [GLOBAL_ADDR] of
        Some (Inr body, w) \<Rightarrow> body = ''IMG'' \<and> tn_calls w = [(''https://i.scdn.co/a'', [(GLOBAL_ADDR, 443)])]
      | _ \<Rightarrow> False)"

lemmas fetch_test_simps = run_fetch_hops hop_get fake_get_def url_of_path read_body_def declared_too_large_def net_with_def
  read_step is_redirect_def Let_def

lemma fetch_pins_the_transport_to_the_checked_addresses_holds: fetch_pins_the_transport_to_the_checked_addresses
  by (simp add: fetch_pins_the_transport_to_the_checked_addresses_def fetch_test_simps MAX_COVER_BYTES_def
      del: fetch_hops.simps)

definition a_rejected_destination_never_reaches_the_transport :: bool where
  "a_rejected_destination_never_reaches_the_transport \<longleftrightarrow> refused_with 0 (run_fetch [] [V4 (u32_from_octets [127, 0, 0, 1])])"

lemma a_rejected_destination_never_reaches_the_transport_holds: a_rejected_destination_never_reaches_the_transport
proof -
  have "\<not> is_global (V4 (u32_from_octets [127, 0, 0, 1]))" by (simp add: address_simps del: is_global.simps)
  then show ?thesis
    by (simp add: a_rejected_destination_never_reaches_the_transport_def refused_with_def run_fetch_hops env_of_def
        check_destination_def i_scdn_def https_at_def scdn_allowed net_with_def del: is_global.simps)
qed

definition redirect_to_loopback_is_rejected_before_it_is_requested :: bool where
  "redirect_to_loopback_is_rejected_before_it_is_requested \<longleftrightarrow>
     refused_with 1 (run_fetch [(''https://i.scdn.co/a'', 302, Some ''https://127.0.0.1/evil'', [])] [GLOBAL_ADDR])"

text \<open>A destination that is refused ends the loop before the transport is asked.\<close>

definition forbidden :: "url \<Rightarrow> bool" where
  "forbidden u \<longleftrightarrow> url_scheme u \<noteq> ''https'' \<or>
     (case url_host u of Some (HostDomain d) \<Rightarrow> \<not> host_allowed d domains | _ \<Rightarrow> True)"

lemma hop_refused:
  "forbidden u \<Longrightarrow> \<exists>why. fetch_hops (Suc n) (env_of routes ips) d u w = Some (Inl (Refused why), w)"
  by (simp add: forbidden_def env_simps check_destination_def split: option.splits url_host.splits) auto

lemma redirect_refused:
  assumes "map_of url_table loc = Some u" and "forbidden u" and "is_redirect status"
  shows "refused_with 1 (run_fetch [(''https://i.scdn.co/a'', status, Some loc, [])] [GLOBAL_ADDR])"
proof -
  let ?w = "\<lparr>tn_chunks = [[]], tn_was_read = False, tn_ticks = 0, tn_checks = 0,
    tn_calls = [(''https://i.scdn.co/a'', [(GLOBAL_ADDR, 443)])]\<rparr>"
  obtain why where "fetch_hops (Suc 9) (env_of [(''https://i.scdn.co/a'', status, Some loc, [])] [GLOBAL_ADDR])
      DOWNLOAD_DEADLINE u ?w = Some (Inl (Refused why), ?w)"
    using hop_refused [OF assms(2)] by blast
  moreover have "\<not> status \<le> 299" using assms(3) by (auto simp: is_redirect_def)
  moreover have "MAX_REDIRECTS = Suc 9" by (simp add: MAX_REDIRECTS_def)
  ultimately show ?thesis
    using assms(1,3)
    by (simp add: refused_with_def run_fetch_hops hop_get fake_get_def url_of_path net_with_def Let_def
        del: fetch_hops.simps)
qed

lemma redirect_to_loopback_is_rejected_before_it_is_requested_holds:
  redirect_to_loopback_is_rejected_before_it_is_requested
  unfolding redirect_to_loopback_is_rejected_before_it_is_requested_def
  by (rule redirect_refused, simp add: url_table_def)
    (simp_all add: is_redirect_def forbidden_def https_at_def)

definition redirect_to_a_foreign_host_or_plain_http_is_rejected :: bool where
  "redirect_to_a_foreign_host_or_plain_http_is_rejected \<longleftrightarrow>
     list_all (\<lambda>target. refused_with 1 (run_fetch [(''https://i.scdn.co/a'', 301, Some target, [])] [GLOBAL_ADDR]))
       [''https://evil.example/x'', ''http://i.scdn.co/x'']"

lemma redirect_to_a_foreign_host_or_plain_http_is_rejected_holds: redirect_to_a_foreign_host_or_plain_http_is_rejected
  unfolding redirect_to_a_foreign_host_or_plain_http_is_rejected_def list.pred_inject(2)
  by (intro conjI list.pred_inject(1); rule redirect_refused, simp add: url_table_def)
    (simp_all add: is_redirect_def forbidden_def https_at_def i_scdn_def evil_not_allowed)

definition allowed_relative_redirect_is_followed :: bool where
  "allowed_relative_redirect_is_followed \<longleftrightarrow>
     map_option fst (run_fetch [(''https://i.scdn.co/a'', 307, Some ''/b'', []), (''https://i.scdn.co/b'', 200, None, ''IMG'')]
       [GLOBAL_ADDR]) = Some (Inr ''IMG'')"

lemma allowed_relative_redirect_is_followed_holds: allowed_relative_redirect_is_followed
proof -
  obtain m where m: "MAX_REDIRECTS = Suc m" using not0_implies_Suc [of MAX_REDIRECTS] by (auto simp: MAX_REDIRECTS_def)
  have "map_of url_table ''/b'' = Some (i_scdn ''b'')" by (simp add: url_table_def)
  then show ?thesis
    by (simp add: hop_get [of m, folded m] allowed_relative_redirect_is_followed_def fetch_test_simps MAX_COVER_BYTES_def del: fetch_hops.simps)
qed

definition redirect_loops_are_bounded :: bool where
  "redirect_loops_are_bounded \<longleftrightarrow>
     (case run_fetch [(''https://i.scdn.co/a'', 302, Some ''/a'', [])] [GLOBAL_ADDR] of
        Some (Inl (Io _), w) \<Rightarrow> length (tn_calls w) = MAX_REDIRECTS + 1 | _ \<Rightarrow> False)"

lemma redirect_loop:
  "\<exists>w'. fetch_hops n (env_of [(''https://i.scdn.co/a'', 302, Some ''/a'', [])] [GLOBAL_ADDR]) DOWNLOAD_DEADLINE (i_scdn ''a'') w =
     Some (Inl (Io ''too many redirects''), w') \<and> length (tn_calls w') = length (tn_calls w) + n"
proof (induction n arbitrary: w)
  case (Suc n)
  have "map_of url_table ''/a'' = Some (i_scdn ''a'')" by (simp add: url_table_def)
  then show ?case
    using Suc [of "w\<lparr>tn_calls := tn_calls w @ [(''https://i.scdn.co/a'', [(GLOBAL_ADDR, 443)])], tn_chunks := [[]]\<rparr>"]
    by (simp add: hop_get fake_get_def url_of_path is_redirect_def Let_def del: fetch_hops.simps)
qed simp

lemma redirect_loops_are_bounded_holds: redirect_loops_are_bounded
  using redirect_loop [of "Suc MAX_REDIRECTS" "net_with []"]
  by (auto simp: redirect_loops_are_bounded_def run_fetch_hops net_with_def simp del: fetch_hops.simps)

definition http_errors_and_location_less_redirects_are_io_errors :: bool where
  "http_errors_and_location_less_redirects_are_io_errors \<longleftrightarrow>
     list_all (\<lambda>status. io_failed (run_fetch [(''https://i.scdn.co/a'', status, None, [])] [GLOBAL_ADDR])) [404, 500, 302, 304]"

lemma http_errors_and_location_less_redirects_are_io_errors_holds: http_errors_and_location_less_redirects_are_io_errors
  by (simp add: http_errors_and_location_less_redirects_are_io_errors_def io_failed_def fetch_test_simps
      del: fetch_hops.simps)

end
