(* ===== verification/Cache_Tests.thy ===== *)
theory Cache_Tests
  imports Cache
begin

text \<open>
  The unit tests of \<open>src/cover/cache.rs\<close>, replayed on the file system of \<open>Fs\<close>: a test's temporary directory is
  \<open>/t\<close>, what it writes beforehand are nodes. Permission bits are not part of that file system.
\<close>

subsection \<open>The temporary directory\<close>

definition PNG :: "char list" where
  "PNG = PNG_MAGIC @ replicate 16 (CHR 0x00)"

definition at_sec :: "nat \<Rightarrow> int" where "at_sec n = int (from_secs n)"

definition in_tmp :: "string \<Rightarrow> path" where "in_tmp name = [''t'', name]"

definition tmp_dir :: "(string \<times> node) list \<Rightarrow> fs" where
  "tmp_dir files =
     \<lparr>fs_nodes = ([''t''], Directory 0) # map (\<lambda>(name, n). (in_tmp name, n)) files,
      fs_denied = [], fs_faults = [], fs_now = at_sec 2000000000\<rparr>"

definition temps :: "fs \<Rightarrow> string list" where
  "temps s = (case fs_read_dir s [''t''] of Inl _ \<Rightarrow> [] | Inr names \<Rightarrow> filter (\<lambda>n. starts_with n ''.tmp-'') names)"

definition contents :: "fs \<Rightarrow> path \<Rightarrow> char list option" where
  "contents s p = (case node_at s p of Some (File data _) \<Rightarrow> Some data | _ \<Rightarrow> None)"

definition present :: "fs \<Rightarrow> string \<Rightarrow> bool" where
  "present s name \<longleftrightarrow> node_at s (in_tmp name) \<noteq> None"

subsection \<open>Signatures and names\<close>

definition signatures :: bool where
  "signatures \<longleftrightarrow>
     looks_like_image ([CHR 0xFF, CHR 0xD8, CHR 0xFF, CHR 0xE0] @ ''JFIF'') \<and> looks_like_image (PNG_MAGIC @ ''data'') \<and>
     looks_like_image (''RIFF'' @ replicate 4 (CHR 0x00) @ ''WEBPvp'') \<and>
     list_all (\<lambda>blob. \<not> looks_like_image blob)
       [''<html>'', ''%PDF-1.4'', ''GIF89a...'', [], ''just text'', ''RIFF'' @ replicate 4 (CHR 0x00) @ ''WAVE'']"

lemma signatures_holds: signatures
  by code_simp

text \<open>For any digest of 32 bytes.\<close>

definition cache_path_is_the_url_digest :: "(string \<Rightarrow> nat list) \<Rightarrow> bool" where
  "cache_path_is_the_url_digest digest \<longleftrightarrow>
     (let name = last (cache_path digest [''c''] ''https://i.scdn.co/image/abc'')
      in length name = 64 + 4 \<and> ends_with name ''.img'' \<and> \<not> list_ex (\<lambda>k. take 4 (drop k name) = ''scdn'') [0..<length name])"

lemma hex_digit_not_s: "n < 16 \<Longrightarrow> hex_digit n \<noteq> CHR ''s''"
  by (auto simp: hex_digit_def char_of_eq_iff take_bit_eq_mod)

lemma cache_path_is_the_url_digest_holds:
  assumes "\<And>u. length (digest u) = 32" and "\<And>u b. b \<in> set (digest u) \<Longrightarrow> b < 256"
  shows "cache_path_is_the_url_digest digest"
proof -
  let ?d = "digest ''https://i.scdn.co/image/abc''" and ?hex = "\<lambda>d. concat (map hex_byte d)"
  have len: "length (?hex d) = 2 * length d" for d by (induction d) (simp_all add: hex_byte_def)
  have "CHR ''s'' \<notin> set (hex_byte b)" if "b < 256" for b
  proof -
    have "b div 16 < 16" "b mod 16 < 16" using that by auto
    from this [THEN hex_digit_not_s] show ?thesis by (auto simp: hex_byte_def)
  qed
  then have s: "CHR ''s'' \<notin> set (?hex ?d @ ''.img'')" using assms(2) by auto
  have "take 4 (drop k xs) \<noteq> ''scdn''" if "CHR ''s'' \<notin> set xs" for k :: nat and xs
  proof
    assume "take 4 (drop k xs) = ''scdn''"
    then have "CHR ''s'' \<in> set (take 4 (drop k xs))" by simp
    then show False using that in_set_takeD in_set_dropD by fast
  qed
  note no = this [OF s]
  have "last (cache_path digest [''c''] ''https://i.scdn.co/image/abc'') = ?hex ?d @ ''.img''" by (simp add: cache_path_def)
  then show ?thesis
    unfolding cache_path_is_the_url_digest_def Let_def
    using len assms(1) no by (auto simp: ends_with_iff list_ex_iff simp del: take_append drop_append)
qed

subsection \<open>Publishing\<close>

definition published :: "fs \<Rightarrow> path \<Rightarrow> char list \<Rightarrow> bool" where
  "published s dest data \<longleftrightarrow> is_real_file s dest \<and> contents s dest = Some data \<and> temps s = []"

definition publish_writes_atomically_and_privately :: bool where
  "publish_writes_atomically_and_privately \<longleftrightarrow>
     (case publish 7 (in_tmp ''abc.img'') PNG 0 (tmp_dir []) of
        Some (Inr _, _, s) \<Rightarrow> published s (in_tmp ''abc.img'') PNG
      | _ \<Rightarrow> False)"

lemma temp_name_7: "temp_name 7 0 0 = ''.tmp-7-0-00000000.img''"
  by code_simp

lemma at_sec_nanos: "at_sec n mod 1000000000 = 0" "\<not> at_sec n < 0"
  by (simp_all add: at_sec_def from_secs_def)

lemmas fs_simps = fs_create_new_def take_fault_def key_of_def dir_of_def dirlink_def node_at_def set_node_def
  write_and_rename_def and_then_def fs_write_all_def fs_sync_def fs_rename_def del_node_def fs_remove_file_def
  fs_read_dir_def is_real_file_def fs_symlink_metadata_def meta_at_def contents_def temps_def present_def in_tmp_def

lemmas publish_simps = publish_def create_temp.simps [of 7] subsec_nanos_def at_sec_nanos temp_name_7 published_def
  fs_simps tmp_dir_def starts_with_def Let_def

lemma publish_writes_atomically_and_privately_holds: publish_writes_atomically_and_privately
  by (simp add: publish_writes_atomically_and_privately_def publish_simps)

text \<open>Renaming a file onto a directory fails.\<close>

definition publish_failure_leaves_no_hit_or_temp :: bool where
  "publish_failure_leaves_no_hit_or_temp \<longleftrightarrow>
     (let s0 = tmp_dir [(''abc.img'', Directory 0)];
          s1 = s0\<lparr>fs_nodes := fs_nodes s0 @ [(in_tmp ''abc.img'' @ [''keep''], File ''x'' 0)]\<rparr>
      in case publish 7 (in_tmp ''abc.img'') PNG 0 s1 of
           Some (Inl _, _, s) \<Rightarrow> \<not> is_real_file s (in_tmp ''abc.img'') \<and> temps s = []
         | _ \<Rightarrow> False)"

lemma publish_failure_leaves_no_hit_or_temp_holds: publish_failure_leaves_no_hit_or_temp
  by (simp add: publish_failure_leaves_no_hit_or_temp_def publish_simps)

definition publish_over_a_symlink_replaces_it_and_leaves_the_target_untouched :: bool where
  "publish_over_a_symlink_replaces_it_and_leaves_the_target_untouched \<longleftrightarrow>
     (case publish 7 (in_tmp ''planted.img'') PNG 0
             (tmp_dir [(''target.txt'', File ''ORIGINAL'' 0), (''planted.img'', Link True (in_tmp ''target.txt''))]) of
        Some (Inr _, _, s) \<Rightarrow>
          published s (in_tmp ''planted.img'') PNG \<and> contents s (in_tmp ''target.txt'') = Some ''ORIGINAL''
      | _ \<Rightarrow> False)"

lemma publish_over_a_symlink_replaces_it_and_leaves_the_target_untouched_holds:
  publish_over_a_symlink_replaces_it_and_leaves_the_target_untouched
  by (simp add: publish_over_a_symlink_replaces_it_and_leaves_the_target_untouched_def publish_simps)

definition republish_overwrites_atomically :: bool where
  "republish_overwrites_atomically \<longleftrightarrow>
     (case publish 7 (in_tmp ''abc.img'') PNG 0 (tmp_dir []) of
        Some (Inr _, sq, s1) \<Rightarrow>
          (case publish 7 (in_tmp ''abc.img'') (PNG_MAGIC @ ''SECOND'') sq s1 of
             Some (Inr _, _, s) \<Rightarrow> contents s (in_tmp ''abc.img'') = Some (PNG_MAGIC @ ''SECOND'') \<and> temps s = []
           | _ \<Rightarrow> False)
      | _ \<Rightarrow> False)"

lemma temp_name_7_1: "temp_name 7 (Suc 0) 0 = ''.tmp-7-1-00000000.img''"
  by code_simp

lemma republish_overwrites_atomically_holds: republish_overwrites_atomically
  by (simp add: republish_overwrites_atomically_def publish_simps temp_name_7_1)

subsection \<open>Eviction\<close>

definition aged_entries_are_removed :: bool where
  "aged_entries_are_removed \<longleftrightarrow>
     (let s = evict [''t''] (at_sec 2000000000) CACHE_LIMITS
        (tmp_dir [(''old.img'', File PNG (at_sec 1)), (''new.img'', File PNG (at_sec 2000000000))])
      in \<not> present s ''old.img'' \<and> present s ''new.img'')"

lemmas evict_simps = evict_def CACHE_LIMITS_def evict_age_def fs_simps tmp_dir_def starts_with_def at_sec_def from_secs_def
  Let_def

lemma length_PNG [simp]: "length PNG = 24"
  by (simp add: PNG_def PNG_MAGIC_def)

lemma aged_entries_are_removed_holds: aged_entries_are_removed
  by (simp add: aged_entries_are_removed_def evict_simps)

text \<open>\<open>f0\<close> is the oldest, \<open>f4\<close> the newest.\<close>

definition total_size_is_bounded_lru :: bool where
  "total_size_is_bounded_lru \<longleftrightarrow>
     (let s = evict [''t''] (at_sec 1000) (CACHE_LIMITS\<lparr>max_bytes := 500\<rparr>)
        (tmp_dir (map (\<lambda>(name, b, t). (name, File (PNG_MAGIC @ replicate 200 b) (at_sec t)))
          [(''f0.img'', CHR 0x00, 1), (''f1.img'', CHR 0x01, 2), (''f2.img'', CHR 0x02, 3), (''f3.img'', CHR 0x03, 4),
           (''f4.img'', CHR 0x04, 5)]))
      in present s ''f4.img'' \<and> \<not> present s ''f0.img'' \<and>
         (case fs_read_dir s [''t''] of
            Inl _ \<Rightarrow> False
          | Inr names \<Rightarrow>
              sum_list (map (\<lambda>n. case fs_metadata s (in_tmp n) of Inl _ \<Rightarrow> 0 | Inr m \<Rightarrow> md_len m) names) \<le> 500))"

definition cover_data :: "char \<Rightarrow> char list" where "cover_data b = PNG_MAGIC @ replicate 200 b"

lemma length_cover_data [simp]: "length (cover_data b) = 208"
  by (simp add: cover_data_def PNG_MAGIC_def)

lemma total_size_is_bounded_lru_holds: total_size_is_bounded_lru
  unfolding total_size_is_bounded_lru_def cover_data_def [symmetric]
  by (simp add: evict_simps fs_metadata_def canonicalize_def follow_file.simps)

definition entry_count_is_bounded_and_symlinks_and_temps_are_left_alone :: bool where
  "entry_count_is_bounded_and_symlinks_and_temps_are_left_alone \<longleftrightarrow>
     (let s = evict [''t''] (at_sec 1000) (CACHE_LIMITS\<lparr>max_entries := 3\<rparr>)
        (tmp_dir [(''f0.img'', File PNG (at_sec 1)), (''f1.img'', File PNG (at_sec 2)), (''f2.img'', File PNG (at_sec 3)),
           (''f3.img'', File PNG (at_sec 4)), (''outside.txt'', File ''x'' (at_sec 500)),
           (''link.img'', Link True (in_tmp ''outside.txt'')), (''.tmp-inflight.img'', File PNG (at_sec 2000000000))])
      in \<not> present s ''f0.img'' \<and> \<not> present s ''f1.img'' \<and> present s ''f3.img'' \<and>
         present s ''link.img'' \<and> present s ''.tmp-inflight.img'')"

lemma entry_count_is_bounded_and_symlinks_and_temps_are_left_alone_holds:
  entry_count_is_bounded_and_symlinks_and_temps_are_left_alone
  by (simp add: entry_count_is_bounded_and_symlinks_and_temps_are_left_alone_def evict_simps)

end
