(* ===== verification/Apply_Tests.thy ===== *)
theory Apply_Tests
  imports Apply
begin

text \<open>
  The unit tests of \<open>src/apply.rs\<close>, replayed on the model. The runner records its calls and returns a scripted result;
  a config is its bytes together with the tree the \<open>toml\<close> crate reads from them; the children of the process runner
  are described by what their scripts do.
\<close>

subsection \<open>The recording runner\<close>

record rec_world =
  rw_calls :: "string list list"
  rw_timeouts :: "duration list"

definition rec0 :: rec_world where "rec0 = \<lparr>rw_calls = [], rw_timeouts = []\<rparr>"

type_synonym reply = "run_error + run_output"

definition ok_reply :: reply where "ok_reply = Inr \<lparr>ro_code = Some 0, ro_stderr = []\<rparr>"

definition rec_run :: "reply \<Rightarrow> string list \<Rightarrow> duration \<Rightarrow> rec_world \<Rightarrow> reply \<times> rec_world" where
  "rec_run reply argv timeout w =
     (reply, w\<lparr>rw_calls := rw_calls w @ [argv], rw_timeouts := rw_timeouts w @ [timeout]\<rparr>)"

text \<open>The config file: \<open>None\<close> when it cannot be read, else its bytes and what they parse to.\<close>

type_synonym test_config = "(char list \<times> toml option) option"

definition ctl_with :: "reply \<Rightarrow> test_config \<Rightarrow> rec_world ctl" where
  "ctl_with reply config =
     \<lparr>ctl_program = ''CTL'', ctl_runner = rec_run reply, ctl_config = (\<lambda>_. map_option fst config),
      ctl_parse_toml = (\<lambda>_. Option.bind config snd), ctl_fade_ms = FADE_MS\<rparr>"

definition ctl_of :: "reply \<Rightarrow> rec_world ctl" where
  "ctl_of reply = ctl_with reply None"

definition red_green_blue :: "string \<times> string \<times> string" where
  "red_green_blue = (''#aa0000'', ''#00bb00'', ''#0000bb'')"

text \<open>The document the tests write, around a palette.\<close>

definition document :: "toml \<Rightarrow> test_config" where
  "document palette =
     Some (''version = 2'',
       Some (TTable [(''version'', TOther),
         (''effect'', TTable [(''name'', TString ''colormix''), (''settings'', TTable [(''palette'', palette)])])]))"

definition CONFIG :: test_config where
  "CONFIG = document (TArray [TString ''#120C14'', TString ''#4A2F5C'', TString ''#6D8F4F''])"

definition is_ok :: "(ctl_error + unit) \<times> rec_world \<Rightarrow> bool" where
  "is_ok out = (case fst out of Inl _ \<Rightarrow> False | Inr _ \<Rightarrow> True)"

definition calls_were :: "string list list \<Rightarrow> (ctl_error + unit) \<times> rec_world \<Rightarrow> bool" where
  "calls_were calls out \<longleftrightarrow> is_ok out \<and> rw_calls (snd out) = calls"

lemma show_2000: "show_nat 2000 = ''2000''"
  by (subst show_nat.simps, simp, subst show_nat.simps, simp, subst show_nat.simps, simp, subst show_nat.simps) code_simp

lemma hexes_valid [simp]:
  "valid_hex ''#aa0000''" "valid_hex ''#00bb00''" "valid_hex ''#0000bb''" "valid_hex ''#0000cc''" "valid_hex ''#120C14''"
  "valid_hex ''#4A2F5C''" "valid_hex ''#6D8F4F''" "valid_utf8 ''version = 2''"
  by code_simp+

declare valid_utf8.simps [simp del]

lemmas apply_test_simps = ctl_of_def ctl_with_def rec0_def rec_run_def ok_reply_def red_green_blue_def is_ok_def calls_were_def
  ctl_apply_def ctl_run_def ctl_revert_def FADE_MS_def show_2000 config_palette_def document_def CONFIG_def toml_hex_def
  FALLBACK_PALETTE_def

subsection \<open>Apply and revert\<close>

definition apply_calls_set_colors_with_fade :: bool where
  "apply_calls_set_colors_with_fade \<longleftrightarrow>
     calls_were [[''CTL'', ''set-colors'', ''#aa0000'', ''#00bb00'', ''#0000bb'', ''2000'']]
       (ctl_apply (ctl_of ok_reply) red_green_blue rec0)"

lemma apply_calls_set_colors_with_fade_holds: apply_calls_set_colors_with_fade
  by (simp add: apply_calls_set_colors_with_fade_def apply_test_simps)

definition zero_fade_omits_the_arg :: bool where
  "zero_fade_omits_the_arg \<longleftrightarrow>
     calls_were [[''CTL'', ''set-colors'', ''#aa0000'', ''#00bb00'', ''#0000bb'']]
       (ctl_apply ((ctl_of ok_reply)\<lparr>ctl_fade_ms := 0\<rparr>) red_green_blue rec0)"

lemma zero_fade_omits_the_arg_holds: zero_fade_omits_the_arg
  by (simp add: zero_fade_omits_the_arg_def apply_test_simps)

definition revert_fades_to_config_palette :: bool where
  "revert_fades_to_config_palette \<longleftrightarrow>
     calls_were [[''CTL'', ''set-colors'', ''#120C14'', ''#4A2F5C'', ''#6D8F4F'', ''2000'']]
       (ctl_revert (ctl_with ok_reply CONFIG) rec0)"

lemma revert_fades_to_config_palette_holds: revert_fades_to_config_palette
  by (simp add: revert_fades_to_config_palette_def apply_test_simps)

definition revert_falls_back_to_witch_hour_when_config_unreadable :: bool where
  "revert_falls_back_to_witch_hour_when_config_unreadable \<longleftrightarrow>
     calls_were [[''CTL'', ''set-palette'', ''witch_hour'']] (ctl_revert (ctl_of ok_reply) rec0)"

lemma revert_falls_back_to_witch_hour_when_config_unreadable_holds: revert_falls_back_to_witch_hour_when_config_unreadable
  by (simp add: revert_falls_back_to_witch_hour_when_config_unreadable_def apply_test_simps)

definition revert_falls_back_when_a_palette_element_is_invalid :: bool where
  "revert_falls_back_when_a_palette_element_is_invalid \<longleftrightarrow>
     calls_were [[''CTL'', ''set-palette'', ''witch_hour'']]
       (ctl_revert (ctl_with ok_reply (document (TArray [TOther, TOther, TOther]))) rec0)"

lemma revert_falls_back_when_a_palette_element_is_invalid_holds: revert_falls_back_when_a_palette_element_is_invalid
  by (simp add: revert_falls_back_when_a_palette_element_is_invalid_def apply_test_simps)

subsection \<open>The config palette\<close>

definition palette_from :: "toml \<Rightarrow> (string \<times> string \<times> string) option" where
  "palette_from palette = config_palette (ctl_parse_toml (ctl_with ok_reply (document palette))) (map_option fst (document palette))"

definition strings :: "string list \<Rightarrow> toml" where "strings xs = TArray (map TString xs)"

lemmas palette_simps = palette_from_def strings_def apply_test_simps

definition valid_hex_accepted_and_case_preserved :: bool where
  "valid_hex_accepted_and_case_preserved \<longleftrightarrow>
     palette_from (strings [''#aa0000'', ''#00bb00'', ''#0000cc'']) = Some (''#aa0000'', ''#00bb00'', ''#0000cc'') \<and>
     palette_from (strings [''#120C14'', ''#4A2F5C'', ''#6D8F4F'']) = Some (''#120C14'', ''#4A2F5C'', ''#6D8F4F'')"

lemma valid_hex_accepted_and_case_preserved_holds: valid_hex_accepted_and_case_preserved
  by (simp add: valid_hex_accepted_and_case_preserved_def palette_simps)

definition malformed_palettes_are_rejected :: bool where
  "malformed_palettes_are_rejected \<longleftrightarrow>
     list_all (\<lambda>bad. palette_from bad = None)
       [TArray [TOther, TOther, TOther], TArray [TOther, TOther, TOther],
        TArray [TString ''#aa0000'', TString ''#00bb00'', TTable [(''x'', TOther)]],
        TArray [TString ''#aa0000'', TString ''#00bb00'', TArray [TString ''#0000cc'']],
        strings [''#aa000'', ''#00bb00'', ''#0000cc''], strings [''#aa00000'', ''#00bb00'', ''#0000cc''],
        strings [''aa0000'', ''#00bb00'', ''#0000cc''], strings [''#gg0000'', ''#00bb00'', ''#0000cc''],
        strings [''#aa0000 '', ''#00bb00'', ''#0000cc''], strings [''#aa0000'' @ [CHR 0x0A], ''#00bb00'', ''#0000cc''],
        strings [''#aa0000'', ''#00bb00''], strings [''#aa0000'', ''#00bb00'', ''#0000cc'', ''#111111''], TString ''#aa0000'']"

lemma hexes_invalid [simp]:
  "\<not> valid_hex ''#aa000''" "\<not> valid_hex ''#aa00000''" "\<not> valid_hex ''aa0000''" "\<not> valid_hex ''#gg0000''"
  "\<not> valid_hex ''#aa0000 ''" "\<not> valid_hex (''#aa0000'' @ [CHR 0x0A])" "\<not> valid_hex ''red''" "\<not> valid_hex ''#aa0000 evil''"
  "\<not> valid_hex (''#aa0000'' @ CHR 0x0A # ''set-palette evil'')"
  by code_simp+

lemma malformed_palettes_are_rejected_holds: malformed_palettes_are_rejected
  using hexes_invalid by (simp add: malformed_palettes_are_rejected_def palette_simps)

definition invalid_utf8_returns_none_without_crashing :: bool where
  "invalid_utf8_returns_none_without_crashing \<longleftrightarrow>
     config_palette (\<lambda>_. Some (TTable [])) (Some (''palette = '' @ [CHR 0xFF, CHR 0xFF, CHR 0x0A])) = None"

lemma invalid_utf8_returns_none_without_crashing_holds: invalid_utf8_returns_none_without_crashing
  by (simp add: invalid_utf8_returns_none_without_crashing_def config_palette_def valid_utf8.simps in_range_def)

definition missing_keys_return_none :: bool where
  "missing_keys_return_none \<longleftrightarrow>
     config_palette (\<lambda>_. Some (TTable [(''version'', TOther), (''effect'', TTable [(''name'', TString ''x'')])]))
       (Some ''version = 2'') = None"

lemma missing_keys_return_none_holds: missing_keys_return_none
  by (simp add: missing_keys_return_none_def config_palette_def)

subsection \<open>Reliability\<close>

definition every_call_is_bounded_by_the_timeout :: bool where
  "every_call_is_bounded_by_the_timeout \<longleftrightarrow>
     (let w1 = snd (ctl_apply (ctl_of ok_reply) red_green_blue rec0)
      in rw_timeouts (snd (ctl_revert (ctl_of ok_reply) w1)) = [CTL_TIMEOUT, CTL_TIMEOUT])"

lemma every_call_is_bounded_by_the_timeout_holds: every_call_is_bounded_by_the_timeout
  by (simp add: every_call_is_bounded_by_the_timeout_def apply_test_simps)

definition hang_is_a_ctl_error :: bool where
  "hang_is_a_ctl_error \<longleftrightarrow> \<not> is_ok (ctl_apply (ctl_of (Inl RunTimeout)) red_green_blue rec0)"

lemma hang_is_a_ctl_error_holds: hang_is_a_ctl_error
  by (simp add: hang_is_a_ctl_error_def apply_test_simps)

definition spawn_failure_is_a_ctl_error :: bool where
  "spawn_failure_is_a_ctl_error \<longleftrightarrow>
     \<not> is_ok (ctl_apply (ctl_of (Inl (Spawn \<lparr>io_kind = OtherKind, io_text = ''not found''\<rparr>))) red_green_blue rec0)"

lemma spawn_failure_is_a_ctl_error_holds: spawn_failure_is_a_ctl_error
  by (simp add: spawn_failure_is_a_ctl_error_def apply_test_simps)

definition fails_with_boom :: reply where "fails_with_boom = Inr \<lparr>ro_code = Some 1, ro_stderr = ''boom''\<rparr>"

definition nonzero_exit_is_a_ctl_error_on_apply_and_both_reverts :: bool where
  "nonzero_exit_is_a_ctl_error_on_apply_and_both_reverts \<longleftrightarrow>
     fst (ctl_apply (ctl_of fails_with_boom) red_green_blue rec0) = Inl (CtlExited (Some 1) ''boom'') \<and>
     \<not> is_ok (ctl_revert (ctl_of fails_with_boom) rec0) \<and> \<not> is_ok (ctl_revert (ctl_with fails_with_boom CONFIG) rec0)"

lemma boom_diag: "take_chars MAX_DIAG (trim ''boom'') = ''boom''"
proof -
  have "trim ''boom'' = ''boom''" by code_simp
  moreover have "take_chars MAX_DIAG ''boom'' = ''boom''"
    by (simp add: MAX_DIAG_def cont_def in_range_def numeral_eq_Suc)
  ultimately show ?thesis by simp
qed

lemma nonzero_exit_is_a_ctl_error_on_apply_and_both_reverts_holds:
  nonzero_exit_is_a_ctl_error_on_apply_and_both_reverts
  by (simp add: nonzero_exit_is_a_ctl_error_on_apply_and_both_reverts_def fails_with_boom_def apply_test_simps boom_diag)

text \<open>The message is kept as data: what it quotes of the child's stderr is what can be long.\<close>

definition diagnostic_is_bounded :: bool where
  "diagnostic_is_bounded \<longleftrightarrow>
     (case fst (ctl_apply (ctl_of (Inr \<lparr>ro_code = Some 1, ro_stderr = replicate 10000 (CHR ''x'')\<rparr>)) red_green_blue rec0) of
        Inl (CtlExited _ diag) \<Rightarrow> length diag < 1000 - 100
      | _ \<Rightarrow> False)"

lemma take_chars_ascii: "\<forall>b \<in> set bs. \<not> cont b \<Longrightarrow> take_chars n bs = take n bs"
  by (induction bs arbitrary: n) (auto split: nat.split)

lemma trim_x: "trim (replicate n (CHR ''x'')) = replicate n (CHR ''x'')"
  by (cases n) (simp_all add: trim_def is_space_def dropWhile_eq_self_iff hd_rev del: replicate_Suc)

lemma diagnostic_is_bounded_holds: diagnostic_is_bounded
  by (simp add: diagnostic_is_bounded_def apply_test_simps trim_x take_chars_ascii cont_def in_range_def MAX_DIAG_def)

subsection \<open>Arguments\<close>

definition malformed_colours_are_refused_before_ctl_runs :: bool where
  "malformed_colours_are_refused_before_ctl_runs \<longleftrightarrow>
     list_all (\<lambda>bad. case ctl_apply (ctl_of ok_reply) (bad, ''#00bb00'', ''#0000cc'') rec0 of
         (Inl _, w) \<Rightarrow> rw_calls w = [] | _ \<Rightarrow> False)
       [''#aa0000'' @ CHR 0x0A # ''set-palette evil'', ''#aa0000 evil'', ''red'', ''#aa0000 '']"

lemma malformed_colours_are_refused_before_ctl_runs_holds: malformed_colours_are_refused_before_ctl_runs
  using hexes_invalid by (simp add: malformed_colours_are_refused_before_ctl_runs_def apply_test_simps)

text \<open>The last string begins with the full-width number sign, three bytes.\<close>

definition valid_hex_is_exact :: bool where
  "valid_hex_is_exact \<longleftrightarrow>
     valid_hex ''#aA09fF'' \<and>
     list_all (\<lambda>bad. \<not> valid_hex bad)
       [''#aa000'', ''#aa00000'', ''aa00000'', ''#gg0000'', ''#aa000'' @ [CHR 0x0A], ''#aa00 0'',
        [CHR 0xEF, CHR 0xBC, CHR 0x83] @ ''aa0000'']"

lemma valid_hex_is_exact_holds: valid_hex_is_exact
  by code_simp

subsection \<open>The process runner\<close>

text \<open>What the scripts of the tests do. Diagnostics are plain ASCII, so lossy decoding is the identity.\<close>

definition script :: "duration \<Rightarrow> int \<Rightarrow> char list \<Rightarrow> duration \<Rightarrow> child" where
  "script exits code err closes =
     \<lparr>ch_exits_after = Some exits, ch_code = Some code, ch_stderr = err, ch_pipe_closes_after = Some closes,
      ch_wait_error = None\<rparr>"

definition process_runner_reports_exit_code_and_stderr :: bool where
  "process_runner_reports_exit_code_and_stderr \<longleftrightarrow>
     (case fst (process_run id CTL_TIMEOUT (Inr (script 0 3 (''oops'' @ [CHR 0x0A]) 0))) of
        Inr out \<Rightarrow> ro_code out = Some 3 \<and> trim (ro_stderr out) = ''oops''
      | Inl _ \<Rightarrow> False)"

lemma trim_oops: "trim (''oops'' @ [CHR 0x0A]) = ''oops''"
  by code_simp

lemmas process_simps = process_run_def script_def CTL_TIMEOUT_def STDERR_GRACE_def from_secs_def from_millis_def
  MAX_STDERR_READ_def

lemma process_runner_reports_exit_code_and_stderr_holds: process_runner_reports_exit_code_and_stderr
  using trim_oops by (simp add: process_runner_reports_exit_code_and_stderr_def process_simps)

definition process_runner_kills_a_hung_child_at_the_timeout :: bool where
  "process_runner_kills_a_hung_child_at_the_timeout \<longleftrightarrow>
     (case process_run id (from_millis 200) (Inr (script (from_secs 30) 0 [] (from_secs 30))) of
        (r, _, elapsed) \<Rightarrow> r = Inl RunTimeout \<and> elapsed < from_secs 5)"

lemma process_runner_kills_a_hung_child_at_the_timeout_holds: process_runner_kills_a_hung_child_at_the_timeout
  by (simp add: process_runner_kills_a_hung_child_at_the_timeout_def process_simps)

text \<open>The child exits at once, a grandchild holds the pipe.\<close>

definition process_runner_does_not_wait_on_a_grandchild_holding_stderr :: bool where
  "process_runner_does_not_wait_on_a_grandchild_holding_stderr \<longleftrightarrow>
     (case process_run id (from_millis 300) (Inr (script 0 0 [] (from_secs 30))) of
        (Inr out, _, elapsed) \<Rightarrow> ro_code out = Some 0 \<and> elapsed < from_secs 5
      | _ \<Rightarrow> False)"

lemma process_runner_does_not_wait_on_a_grandchild_holding_stderr_holds:
  process_runner_does_not_wait_on_a_grandchild_holding_stderr
  by (simp add: process_runner_does_not_wait_on_a_grandchild_holding_stderr_def process_simps)

definition process_runner_survives_a_stderr_flood :: bool where
  "process_runner_survives_a_stderr_flood \<longleftrightarrow>
     (case fst (process_run id CTL_TIMEOUT (Inr (script 0 0 (replicate 1000000 (CHR ''x'')) 0))) of
        Inr out \<Rightarrow> ro_code out = Some 0 \<and> length (ro_stderr out) \<le> MAX_STDERR_READ
      | Inl _ \<Rightarrow> False)"

lemma process_runner_survives_a_stderr_flood_holds: process_runner_survives_a_stderr_flood
  by (simp add: process_runner_survives_a_stderr_flood_def process_simps)

definition process_runner_spawn_failure_is_reported :: bool where
  "process_runner_spawn_failure_is_reported \<longleftrightarrow>
     (case fst (process_run id CTL_TIMEOUT (Inl \<lparr>io_kind = OtherKind, io_text = ''not found''\<rparr>)) of
        Inl (Spawn _) \<Rightarrow> True | _ \<Rightarrow> False)"

lemma process_runner_spawn_failure_is_reported_holds: process_runner_spawn_failure_is_reported
  by (simp add: process_runner_spawn_failure_is_reported_def process_run_def)

end
