(* ===== verification/Sources_Tests.thy ===== *)
theory Sources_Tests
  imports Sources Input_Tests
begin

text \<open>
  The unit tests of \<open>src/sources/playerctl.rs\<close> and \<open>src/sources/dbus.rs\<close>, replayed on the model. A child is described
  by the reads of its output and by how it takes a SIGTERM; a private bus is the list of signals on it and passes
  through those a match rule asks for.
\<close>

subsection \<open>playerctl\<close>

definition arg_index :: "string \<Rightarrow> string list \<Rightarrow> nat" where
  "arg_index a xs = length (takeWhile (\<lambda>x. x \<noteq> a) xs)"

definition follow_cmd_watches_both_players_with_names :: bool where
  "follow_cmd_watches_both_players_with_names \<longleftrightarrow>
     (let s = follow_cmd ''/usr/bin/playerctl'' PLAYERS; metadata = arg_index ''metadata'' s; format = arg_index ''--format'' s
      in s ! 0 = ''/usr/bin/playerctl'' \<and> List.member s ''--follow'' \<and> List.member s ''-a'' \<and>
         List.member s ''--player=jellyfin-tui,spotify'' \<and> metadata < format \<and> format < length s \<and>
         starts_with (s ! (format + 1)) ''{{playerName}}'')"

lemma follow_cmd_watches_both_players_with_names_holds: follow_cmd_watches_both_players_with_names
  by code_simp

text \<open>The directory of the test with an executable and a plain file.\<close>

definition which_stat :: "string \<Rightarrow> (bool \<times> nat) option" where
  "which_stat = map_of [(''/tmp/which/playerctl'', (True, 493)), (''/tmp/which/notexec'', (True, 420))]"

definition which_finds_executables_only_on_absolute_path_entries :: bool where
  "which_finds_executables_only_on_absolute_path_entries \<longleftrightarrow>
     (let path_var = ''relative/dir:/tmp/which''
      in which which_stat ''playerctl'' path_var = Some ''/tmp/which/playerctl'' \<and>
         which which_stat ''notexec'' path_var = None \<and> which which_stat ''missing'' path_var = None)"

lemma which_dirs: "filter (\<lambda>dir. starts_with dir ''/'') (split_on (CHR '':'') ''relative/dir:/tmp/which'') = [''/tmp/which'']"
  by code_simp

lemma modes: "(493::nat) AND 73 = 73" "(420::nat) AND 73 = 0"
  by simp_all

lemma which_finds_executables_only_on_absolute_path_entries_holds: which_finds_executables_only_on_absolute_path_entries
  by (simp add: which_finds_executables_only_on_absolute_path_entries_def which_def which_dirs is_executable_def
      which_stat_def join_path_def ends_with_def starts_with_def modes)

definition reader_sends_framed_lines_then_a_hangup :: bool where
  "reader_sends_framed_lines_then_a_hangup \<longleftrightarrow>
     start_reader id [Inr (''spotify'' @ [TAB] @ ''Playing'' @ [TAB] @ ''https://x/a'' @ [NL] @ ''partial''), Inr []] =
       [Line (''spotify'' @ [TAB] @ ''Playing'' @ [TAB] @ ''https://x/a''), Hangup]"

lemma new_clear: "framer_new MAX_LINE_BYTES = clear []"
  by (simp add: framer_new_def clear_def)

lemma reader_sends_framed_lines_then_a_hangup_holds: reader_sends_framed_lines_then_a_hangup
proof -
  have "feed ''partial'' (clear []) = ([], [], clear ''partial'')"
    using feed_part [of "[]" "''partial''"] by (simp add: NL_def MAX_LINE_BYTES_def)
  then have "feed (line_a @ NL # ''partial'') (clear []) = ([line_a], [], clear ''partial'')"
    using feed_first [of "[]" line_a "''partial''"] by simp
  then have "start_reader id [Inr (line_a @ NL # ''partial''), Inr []] = [Line line_a, Hangup]"
    by (simp add: start_reader_def new_clear)
  then show ?thesis by (simp add: reader_sends_framed_lines_then_a_hangup_def line_a_def)
qed

definition reader_reports_an_oversize_line_and_keeps_going :: bool where
  "reader_reports_an_oversize_line_and_keeps_going \<longleftrightarrow>
     (case start_reader id [Inr (a_bytes (MAX_LINE_BYTES + 10) @ [NL] @ ''good'' @ [NL]), Inr []] of
        e0 # e1 # _ \<Rightarrow> is_oversize e0 \<and> e1 = Line ''good''
      | _ \<Rightarrow> False)"

lemma reader_reports_an_oversize_line_and_keeps_going_holds: reader_reports_an_oversize_line_and_keeps_going
proof -
  have "feed (''good'' @ NL # []) (clear []) = ([''good''], [], clear [])"
    by (subst feed_first) (simp_all add: feed_nothing MAX_LINE_BYTES_def NL_def)
  then have "feed (a_bytes (MAX_LINE_BYTES + 10) @ NL # (''good'' @ NL # [])) (clear []) =
      ([''good''], [MAX_LINE_BYTES + 10], clear [])"
    by (subst feed_first) simp_all
  then show ?thesis
    by (simp add: reader_reports_an_oversize_line_and_keeps_going_def start_reader_def new_clear)
qed

definition cooperative_child_is_terminated_without_kill :: bool where
  "cooperative_child_is_terminated_without_kill \<longleftrightarrow> terminate_child False (Some 0) (from_secs 5) = [SigTerm, Wait]"

lemma cooperative_child_is_terminated_without_kill_holds: cooperative_child_is_terminated_without_kill
  by (simp add: cooperative_child_is_terminated_without_kill_def terminate_child_def)

definition child_ignoring_sigterm_is_killed_and_reaped :: bool where
  "child_ignoring_sigterm_is_killed_and_reaped \<longleftrightarrow>
     terminate_child False None (from_millis 200) = [SigTerm, SigKill, Wait]"

lemma child_ignoring_sigterm_is_killed_and_reaped_holds: child_ignoring_sigterm_is_killed_and_reaped
  by (simp add: child_ignoring_sigterm_is_killed_and_reaped_def terminate_child_def)

definition already_exited_child_is_tolerated :: bool where
  "already_exited_child_is_tolerated \<longleftrightarrow>
     terminate_child True None (from_secs 1) @ terminate_child True None (from_secs 1) = [Wait, Wait]"

lemma already_exited_child_is_tolerated_holds: already_exited_child_is_tolerated
  by (simp add: already_exited_child_is_tolerated_def terminate_child_def)

subsection \<open>D-Bus payloads\<close>

definition portal_event :: "string \<Rightarrow> string \<Rightarrow> dbus_value \<Rightarrow> event option" where
  "portal_event = scheme_event (\<lambda>_. ''value'')"

definition accepts_a_valid_portal_value_in_any_integer_type :: bool where
  "accepts_a_valid_portal_value_in_any_integer_type \<longleftrightarrow>
     list_all (\<lambda>v. portal_event APPEARANCE_NS SCHEME_KEY v = Some (Scheme 2)) [VU32 2, VI32 2, VU8 2, VI64 2] \<and>
     scheme_value (VVariant (VU32 1)) = Some 1"

lemmas portal_simps = portal_event_def scheme_event_def u32_or_zero_def u32_try_from_def

lemma accepts_a_valid_portal_value_in_any_integer_type_holds: accepts_a_valid_portal_value_in_any_integer_type
  by (simp add: accepts_a_valid_portal_value_in_any_integer_type_def portal_simps)

definition ignores_other_settings :: bool where
  "ignores_other_settings \<longleftrightarrow>
     portal_event ''org.gnome.desktop.interface'' SCHEME_KEY (VU32 2) = None \<and>
     portal_event APPEARANCE_NS ''accent-color'' (VU32 2) = None"

lemma ignores_other_settings_holds: ignores_other_settings
  by (simp add: ignores_other_settings_def portal_simps APPEARANCE_NS_def SCHEME_KEY_def)

definition malformed_values_are_reported_not_raised :: bool where
  "malformed_values_are_reported_not_raised \<longleftrightarrow>
     list_all (\<lambda>v. case portal_event APPEARANCE_NS SCHEME_KEY v of Some (SchemeMalformed _) \<Rightarrow> True | _ \<Rightarrow> False)
       [VOther ''dark'', VOther ''2.0'', VOther ''true'']"

lemma malformed_values_are_reported_not_raised_holds: malformed_values_are_reported_not_raised
  by (simp add: malformed_values_are_reported_not_raised_def portal_simps)

definition out_of_range_integers_map_to_not_light :: bool where
  "out_of_range_integers_map_to_not_light \<longleftrightarrow>
     scheme_value (VI32 (- 1)) = Some 0 \<and> scheme_value (VU64 0xFFFFFFFFFFFFFFFF) = Some 0"

lemma out_of_range_integers_map_to_not_light_holds: out_of_range_integers_map_to_not_light
  by (simp add: out_of_range_integers_map_to_not_light_def u32_or_zero_def u32_try_from_def)

subsection \<open>A private bus\<close>

record 'm signal =
  sg_sender :: string
  sg_path :: string
  sg_interface :: string
  sg_member :: string
  sg_body :: 'm

text \<open>The bus delivers the signals a rule matches; a sender is known by a name it owns.\<close>

definition bus_deliver :: "'m signal list \<Rightarrow> match_rule \<Rightarrow> (io_error + 'm) list" where
  "bus_deliver signals rule =
     map (Inr \<circ> sg_body)
       (filter (\<lambda>s. sg_sender s = mr_sender rule \<and> (mr_path rule = None \<or> mr_path rule = Some (sg_path s)) \<and>
          sg_interface s = mr_interface rule \<and> sg_member s = mr_member rule) signals)"

definition emit_setting :: "string \<Rightarrow> 32 word \<Rightarrow> (string \<times> string \<times> dbus_value) option signal" where
  "emit_setting sender v =
     \<lparr>sg_sender = sender, sg_path = PORTAL_OBJECT_PATH, sg_interface = PORTAL_INTERFACE, sg_member = ''SettingChanged'',
      sg_body = Some (APPEARANCE_NS, SCHEME_KEY, VU32 v)\<rparr>"

text \<open>The impostor owns no name but its unique one.\<close>

definition scheme_receiver_is_pinned_to_the_portal_bus_name :: bool where
  "scheme_receiver_is_pinned_to_the_portal_bus_name \<longleftrightarrow>
     watch_scheme (\<lambda>_. ''value'') (bus_deliver [emit_setting '':1.2'' 2, emit_setting PORTAL_BUS_NAME 1]) = [Scheme 1]"

lemma scheme_receiver_is_pinned_to_the_portal_bus_name_holds: scheme_receiver_is_pinned_to_the_portal_bus_name
  by (simp add: scheme_receiver_is_pinned_to_the_portal_bus_name_def watch_scheme_def listener_def bus_deliver_def
      emit_setting_def scheme_rule_def handle_scheme_def portal_simps PORTAL_BUS_NAME_def List.map_filter_def)

definition owner_changed :: "string \<Rightarrow> string \<Rightarrow> string \<Rightarrow> (string \<times> string \<times> string) option signal" where
  "owner_changed name old new =
     \<lparr>sg_sender = ''org.freedesktop.DBus'', sg_path = ''/org/freedesktop/DBus'', sg_interface = ''org.freedesktop.DBus'',
      sg_member = ''NameOwnerChanged'', sg_body = Some (name, old, new)\<rparr>"

definition a_lost_player_name_is_reported_as_vanished :: bool where
  "a_lost_player_name_is_reported_as_vanished \<longleftrightarrow>
     List.member
       (watch_vanish (bus_deliver
          [owner_changed '':1.3'' [] '':1.3'', owner_changed ''org.mpris.MediaPlayer2.spotify'' [] '':1.3'',
           owner_changed '':1.3'' '':1.3'' [], owner_changed ''org.mpris.MediaPlayer2.spotify'' '':1.3'' []]))
       (Vanish ''org.mpris.MediaPlayer2.spotify'')"

lemma a_lost_player_name_is_reported_as_vanished_holds: a_lost_player_name_is_reported_as_vanished
  by (simp add: a_lost_player_name_is_reported_as_vanished_def watch_vanish_def listener_def bus_deliver_def
      owner_changed_def vanish_rule_def handle_vanish_def List.map_filter_def)

definition startup_read_returns_none_without_a_portal :: bool where
  "startup_read_returns_none_without_a_portal \<longleftrightarrow> read_color_scheme (\<lambda>_ _ _ _ _. None) = None"

lemma startup_read_returns_none_without_a_portal_holds: startup_read_returns_none_without_a_portal
  by (simp add: startup_read_returns_none_without_a_portal_def read_color_scheme_def)

end
