(* ===== verification/Runtime_Tests.thy ===== *)
theory Runtime_Tests
  imports Runtime Coordinator_Tests
begin

text \<open>
  The unit tests of \<open>src/runtime.rs\<close>, replayed on the model. The channel is its queued events and whether its senders
  are still there. The flood test is left out: it injects a jitter, and that a timer never stays overdue is a theorem
  about every source.
\<close>

subsection \<open>The fixtures\<close>

definition art_a :: string where "art_a = ''https://i.scdn.co/a''"

definition runtime_coordinator :: "bool \<Rightarrow> coord" where
  "runtime_coordinator alive =
     coordinator_new (runtime_host_new mailbox_new alive (jitter_seed None) 0)
       (\<lambda>n. if n = jellyfin then Some [''covers''] else None) Dark PLAYERS_TEST"

text \<open>The pending job, if any.\<close>

definition take_job :: "coord \<Rightarrow> job option" where
  "take_job c = (if superseded 0 (rh_slot (c_host c)) then rh_slot (c_host c) else None)"

text \<open>A receive with nothing queued fails when the senders are gone, and would wait otherwise.\<close>

definition sync_channel :: "(event list \<times> bool) source" where
  "sync_channel timeout s h =
     (case fst s of
        e # es \<Rightarrow> (NextEvent e, (es, snd s), h)
      | [] \<Rightarrow> (if snd s then NextTimeout else NextDisconnected, s, h))"

definition playing_line :: event where
  "playing_line = Line (test_line spotify ''Playing'' art_a)"

subsection \<open>Jitter\<close>

primrec draws :: "nat \<Rightarrow> 64 word \<Rightarrow> real list" where
  "draws 0 s = []"
| "draws (Suc n) s = (case default_jitter s of (v, s') \<Rightarrow> v # draws n s')"

definition jitter_stays_in_range :: "nat option \<Rightarrow> bool" where
  "jitter_stays_in_range now \<longleftrightarrow>
     list_all (\<lambda>v. 1 - RETRY_JITTER \<le> v \<and> v < 1 + RETRY_JITTER) (draws 10000 (jitter_seed now))"

lemma draws_in_range: "list_all (\<lambda>v. 1 - RETRY_JITTER \<le> v \<and> v < 1 + RETRY_JITTER) (draws n s)"
  using jitter_value_bounds by (induction n arbitrary: s) (auto simp: default_jitter_def Let_def RETRY_JITTER_def)

lemma jitter_stays_in_range_holds: "jitter_stays_in_range now"
  unfolding jitter_stays_in_range_def by (rule draws_in_range)

subsection \<open>The loop\<close>

lemma art_a_facts [simp]: "plain art_a" "art_a \<noteq> []"
  by (simp_all add: art_a_def plain_def)

lemma runtime_ops_simps:
  "h_submit runtime_ops = rh_submit" "h_schedule_retry runtime_ops = rh_schedule_retry"
  "h_cancel_retry runtime_ops = rh_cancel_retry" "h_now runtime_ops h = rh_clock h - rh_start h"
  "h_warn runtime_ops w h = h\<lparr>rh_warned := rh_warned h @ [w]\<rparr>"
  by (simp_all add: runtime_ops_def)

lemma rh_submit_projections:
  "rh_slot (rh_submit g d h) = (if rh_alive h then mailbox_put \<lparr>j_generation = g, j_desired = d\<rparr> (rh_slot h) else rh_slot h)"
  "rh_worker_dead (rh_submit g d h) = (rh_worker_dead h \<or> \<not> rh_alive h)" "rh_timer (rh_submit g d h) = rh_timer h"
  by (simp_all add: rh_submit_def)

lemmas runtime_test_simps = runtime_coordinator_def coordinator_new_def runtime_host_new_def mailbox_new_def allowed_PLAYERS
  playing_line_def loop_step_def sync_channel_def loop_timeout_def dispatch_def fire_due_timer_def take_job_def
  superseded_def runtime_ops_simps rh_submit_projections mailbox_put_def handler_simps

definition events_drive_the_coordinator_and_shutdown_ends_the_loop :: bool where
  "events_drive_the_coordinator_and_shutdown_ends_the_loop \<longleftrightarrow>
     (case run_loop sync_channel ([playing_line, Shutdown], True) (runtime_coordinator True) of
        Some (e, _, c) \<Rightarrow> e = ExitShutdown \<and> map_option j_generation (take_job c) = Some 1
      | None \<Rightarrow> False)"

lemma events_drive_the_coordinator_and_shutdown_ends_the_loop_holds:
  events_drive_the_coordinator_and_shutdown_ends_the_loop
  by (simp add: events_drive_the_coordinator_and_shutdown_ends_the_loop_def run_loop.simps [of sync_channel]
      runtime_test_simps cong: let_weak_cong)

definition hangup_and_disconnect_end_the_loop :: bool where
  "hangup_and_disconnect_end_the_loop \<longleftrightarrow>
     (case run_loop sync_channel ([Hangup], True) (runtime_coordinator True) of
        Some (e, (es, _), c) \<Rightarrow>
          e = ExitHangup \<and> map_option fst (run_loop sync_channel (es, False) c) = Some ExitDisconnected
      | None \<Rightarrow> False)"

lemma hangup_and_disconnect_end_the_loop_holds: hangup_and_disconnect_end_the_loop
  by (auto simp: hangup_and_disconnect_end_the_loop_def run_loop.simps [of sync_channel] runtime_test_simps
      cong: let_weak_cong)

definition a_dead_worker_ends_the_loop_and_drops_the_job :: bool where
  "a_dead_worker_ends_the_loop_and_drops_the_job \<longleftrightarrow>
     (case run_loop sync_channel ([playing_line], True) (runtime_coordinator False) of
        Some (e, _, c) \<Rightarrow> e = ExitWorkerDied \<and> take_job c = None
      | None \<Rightarrow> False)"

lemma a_dead_worker_ends_the_loop_and_drops_the_job_holds: a_dead_worker_ends_the_loop_and_drops_the_job
  by (simp add: a_dead_worker_ends_the_loop_and_drops_the_job_def run_loop.simps [of sync_channel] runtime_test_simps
      cong: let_weak_cong)

end
