(* ===== verification/Solid_Resize.thy ===== *)
theory Solid_Resize
  imports Resize_Props
begin

text \<open>
  A flat field stays flat: the normalised taps of an output pixel add up to 1, their fixed-point forms to
  \<open>2 ^ PRECISION_BITS\<close> within half a unit per tap, and that error is too small to move a sample of eight bits as
  long as no side shrinks by more than 4000.
\<close>

subsection \<open>The filter\<close>

lemma bicubic_centre:
  assumes "\<bar>x\<bar> \<le> 1 / 2" shows "3 / 8 \<le> bicubic_filter x"
proof -
  let ?y = "\<bar>x\<bar>"
  have "?y * ?y \<le> 1 / 2 * (1 / 2)" using assms by (intro mult_mono) simp_all
  moreover have "0 \<le> ?y * ?y * ?y" by simp
  moreover have "bicubic_filter x = 1 - 5 / 2 * (?y * ?y) + 3 / 2 * (?y * ?y * ?y)"
    using assms by (simp add: bicubic_filter_def Let_def algebra_simps)
  ultimately show ?thesis by linarith
qed

lemma bicubic_main_lobe:
  assumes "\<bar>x\<bar> \<le> 1" shows "0 \<le> bicubic_filter x" "bicubic_filter x \<le> 1"
proof -
  let ?y = "\<bar>x\<bar>"
  have "0 \<le> bicubic_filter x \<and> bicubic_filter x \<le> 1"
  proof (cases "?y = 1")
    case False
    then have y: "?y < 1" using assms by simp
    have e: "bicubic_filter x = 1 - ?y * ?y * (5 / 2 - 3 / 2 * ?y)"
      using y by (simp add: bicubic_filter_def Let_def algebra_simps)
    have "bicubic_filter x = (1 - ?y) * (1 + ?y - 3 / 2 * (?y * ?y))"
      unfolding e by (simp add: field_simps)
    moreover have "?y * ?y \<le> ?y * 1" "?y * ?y \<le> 1 * 1" using assms by (intro mult_mono; simp)+
    ultimately have "0 \<le> bicubic_filter x" using assms by simp
    moreover have "0 \<le> ?y * ?y * (5 / 2 - 3 / 2 * ?y)" using assms by simp
    ultimately show ?thesis unfolding e by simp
  qed (simp add: bicubic_filter_def Let_def)
  then show "0 \<le> bicubic_filter x" "bicubic_filter x \<le> 1" by simp_all
qed

lemma bicubic_side_lobe:
  assumes "1 < \<bar>x\<bar>" "\<bar>x\<bar> < 2" shows "- (2 / 27) \<le> bicubic_filter x" "bicubic_filter x \<le> 0"
proof -
  define y where "y = \<bar>x\<bar> - 1"
  have y: "0 \<le> y" "y \<le> 1" using assms by (simp_all add: y_def)
  have e: "bicubic_filter x = - (1 / 2) * (y * ((1 - y) * (1 - y)))"
    using assms by (simp add: bicubic_filter_def Let_def y_def algebra_simps)
  have "4 / 27 - y * ((1 - y) * (1 - y)) = (y - 1 / 3) * (y - 1 / 3) * (4 / 3 - y)"
    by (simp add: algebra_simps)
  moreover have "0 \<le> (y - 1 / 3) * (y - 1 / 3) * (4 / 3 - y)" using y by (intro mult_nonneg_nonneg[OF zero_le_square]) simp
  ultimately have "y * ((1 - y) * (1 - y)) \<le> 4 / 27" by linarith
  then show "- (2 / 27) \<le> bicubic_filter x" unfolding e by simp
  show "bicubic_filter x \<le> 0" unfolding e using y by simp
qed

lemma bicubic_outside: "2 \<le> \<bar>x\<bar> \<Longrightarrow> bicubic_filter x = 0"
  by (simp add: bicubic_filter_def Let_def)

lemma bicubic_abs: "\<bar>bicubic_filter x\<bar> \<le> 1"
proof -
  consider "\<bar>x\<bar> \<le> 1" | "1 < \<bar>x\<bar>" "\<bar>x\<bar> < 2" | "2 \<le> \<bar>x\<bar>" by linarith
  then show ?thesis
    by cases (use bicubic_main_lobe[of x] bicubic_side_lobe[of x] bicubic_outside[of x] in auto)
qed

subsection \<open>Counting the taps of a lobe\<close>

text \<open>The integers strictly inside an interval.\<close>

lemma card_open_interval:
  fixes a b :: real and J :: "nat set"
  assumes "finite J" "\<And>j. j \<in> J \<Longrightarrow> a < real j \<and> real j < b" "0 \<le> b - a" "b - a < real m + 1"
  shows "card J \<le> m + 1"
proof -
  have "int ` J \<subseteq> {\<lfloor>a\<rfloor> + 1..\<lceil>b\<rceil> - 1}"
  proof
    fix k assume "k \<in> int ` J"
    then obtain j where "k = int j" "a < real j" "real j < b" using assms(2) by blast
    then show "k \<in> {\<lfloor>a\<rfloor> + 1..\<lceil>b\<rceil> - 1}" by (simp add: floor_less_iff less_ceiling_iff) linarith
  qed
  then have "card (int ` J) \<le> card {\<lfloor>a\<rfloor> + 1..\<lceil>b\<rceil> - 1}" by (rule card_mono[rotated]) simp
  then have "card J \<le> nat (\<lceil>b\<rceil> - \<lfloor>a\<rfloor> - 1)" by (simp add: card_image)
  moreover have "real_of_int (\<lceil>b\<rceil> - \<lfloor>a\<rfloor> - 1) < real m + 2" using assms(4) by linarith
  then have "\<lceil>b\<rceil> - \<lfloor>a\<rfloor> - 1 < int (m + 2)" by linarith
  ultimately show ?thesis by linarith
qed

lemma lower_bound_arith:
  fixes S M D R m :: real
  shows "S = M + D + R \<Longrightarrow> m * (3 / 8) \<le> M \<Longrightarrow> - (2 / 27 * (2 * (m + 1))) \<le> D \<Longrightarrow> 0 \<le> R \<Longrightarrow> 1 \<le> m \<Longrightarrow> 2 / 27 \<le> S"
  unfolding distrib_left by linarith

text \<open>
  The weights \<open>f\<close> of the source pixels \<open>J\<close>: \<open>mid\<close> are those under the centre of the filter, the others are at
  worst in a side lobe, at most \<open>m + 1\<close> of them on each side.
\<close>

lemma weights_lower_bound:
  fixes f :: "nat \<Rightarrow> real" and m :: nat
  assumes "finite J" "mid \<subseteq> J" "card mid = m" "1 \<le> m"
    and "\<And>j. j \<in> mid \<Longrightarrow> 3 / 8 \<le> f j"
    and "\<And>j. j \<in> J \<Longrightarrow> j \<notin> left \<union> right \<Longrightarrow> 0 \<le> f j"
    and "\<And>j. - (2 / 27) \<le> f j"
    and "left \<subseteq> J" "right \<subseteq> J" "card left \<le> m + 1" "card right \<le> m + 1"
    and "mid \<inter> (left \<union> right) = {}"
  shows "2 / 27 \<le> sum f J"
proof -
  let ?side = "left \<union> right"
  have fin: "finite mid" "finite ?side" using assms(1,2,8,9) by (auto intro: finite_subset)
  have "J = mid \<union> ?side \<union> (J - mid - ?side)" using assms(2,8,9) by auto
  then have "sum f J = sum f mid + sum f ?side + sum f (J - mid - ?side)"
    using assms(1,12) fin by (subst sum.union_disjoint[symmetric]; (subst sum.union_disjoint[symmetric])?; auto)
  moreover have "real m * (3 / 8) \<le> sum f mid"
    using sum_bounded_below[of mid "3 / 8" f] assms(3,5) by simp
  moreover have "- (2 / 27 * (2 * (real m + 1))) \<le> sum f ?side"
  proof -
    have "- (2 / 27 * (2 * (real m + 1))) \<le> real (card ?side) * - (2 / 27)"
    proof -
      have "card ?side \<le> 2 * (m + 1)"
        by (rule order_trans[OF card_Un_le]) (use assms(10,11) in simp)
      then have "real (card ?side) \<le> real (2 * (m + 1))" by (simp only: of_nat_le_iff)
      then show ?thesis by simp
    qed
    also have "\<dots> \<le> sum f ?side"
      using sum_bounded_below[of ?side "- (2 / 27)" f] assms(7) by simp
    finally show ?thesis .
  qed
  moreover have "0 \<le> sum f (J - mid - ?side)"
    using assms(6) by (intro sum_nonneg) auto
  moreover have "1 \<le> real m" using assms(4) by simp
  ultimately show ?thesis by (rule lower_bound_arith)
qed

subsection \<open>The weights of one output pixel\<close>

text \<open>
  An output pixel with centre \<open>c\<close> on a source of \<open>n\<close> pixels: \<open>fs\<close> is the filter scale, and the \<open>m\<close> pixels from
  \<open>a\<close> on lie within half a filter scale of the centre.
\<close>

definition weight :: "real \<Rightarrow> real \<Rightarrow> nat \<Rightarrow> real" where
  "weight c fs j = bicubic_filter ((real j - c + 0.5) * (1 / fs))"

lemma weight_arg: "0 < fs \<Longrightarrow> \<bar>(real j - c + 0.5) * (1 / fs)\<bar> = \<bar>real j - c + 0.5\<bar> / fs"
  by (simp add: abs_divide)

lemma weight_lobes:
  assumes "1 \<le> fs"
  shows "\<bar>real j - c + 0.5\<bar> \<le> fs / 2 \<Longrightarrow> 3 / 8 \<le> weight c fs j"
    and "\<bar>real j - c + 0.5\<bar> \<le> fs \<or> 2 * fs \<le> \<bar>real j - c + 0.5\<bar> \<Longrightarrow> 0 \<le> weight c fs j"
    and "- (2 / 27) \<le> weight c fs j"
    and "\<bar>weight c fs j\<bar> \<le> 1"
proof -
  let ?d = "real j - c + 0.5" and ?x = "(real j - c + 0.5) * (1 / fs)"
  have x: "\<bar>?x\<bar> = \<bar>?d\<bar> / fs" using weight_arg assms by simp
  show "3 / 8 \<le> weight c fs j" if "\<bar>?d\<bar> \<le> fs / 2"
    unfolding weight_def using that assms x by (intro bicubic_centre) (simp add: field_simps)
  show *: "0 \<le> weight c fs j" if "\<bar>?d\<bar> \<le> fs \<or> 2 * fs \<le> \<bar>?d\<bar>"
    using that
  proof
    assume "\<bar>?d\<bar> \<le> fs"
    then have "\<bar>?x\<bar> \<le> 1" using x assms by simp
    then show ?thesis unfolding weight_def by (rule bicubic_main_lobe)
  next
    assume "2 * fs \<le> \<bar>?d\<bar>"
    then have "2 \<le> \<bar>?x\<bar>" using x assms by (simp add: le_divide_eq)
    then show ?thesis unfolding weight_def by (simp add: bicubic_outside)
  qed
  show "- (2 / 27) \<le> weight c fs j"
  proof (cases "1 < \<bar>?x\<bar> \<and> \<bar>?x\<bar> < 2")
    case True
    then show ?thesis unfolding weight_def using bicubic_side_lobe(1) by blast
  next
    case False
    then have "\<bar>?d\<bar> \<le> fs \<or> 2 * fs \<le> \<bar>?d\<bar>" using x assms by (auto simp: not_less field_simps)
    then show ?thesis using * by linarith
  qed
  show "\<bar>weight c fs j\<bar> \<le> 1" unfolding weight_def by (rule bicubic_abs)
qed

lemma weights_positive:
  assumes fs: "1 \<le> fs" and J: "finite J" "{a..<a + m} \<subseteq> J" and m: "1 \<le> m" "fs < real m + 1"
    and mid: "\<And>j. j \<in> {a..<a + m} \<Longrightarrow> \<bar>real j - c + 0.5\<bar> \<le> fs / 2"
  shows "2 / 27 \<le> sum (weight c fs) J"
proof -
  define left where "left = {j \<in> J. c - 0.5 - 2 * fs < real j \<and> real j < c - 0.5 - fs}"
  define right where "right = {j \<in> J. c - 0.5 + fs < real j \<and> real j < c - 0.5 + 2 * fs}"
  have "card left \<le> m + 1"
    by (rule card_open_interval[of left "c - 0.5 - 2 * fs" "c - 0.5 - fs"]) (use J(1) fs m(2) in \<open>auto simp: left_def\<close>)
  moreover have "card right \<le> m + 1"
    by (rule card_open_interval[of right "c - 0.5 + fs" "c - 0.5 + 2 * fs"]) (use J(1) fs m(2) in \<open>auto simp: right_def\<close>)
  moreover have "{a..<a + m} \<inter> (left \<union> right) = {}"
  proof -
    have "j \<notin> left \<union> right" if "j \<in> {a..<a + m}" for j
      using mid[OF that] fs unfolding left_def right_def by auto
    then show ?thesis by blast
  qed
  moreover have "0 \<le> weight c fs j" if "j \<in> J" "j \<notin> left \<union> right" for j
  proof (rule weight_lobes(2)[OF fs])
    show "\<bar>real j - c + 0.5\<bar> \<le> fs \<or> 2 * fs \<le> \<bar>real j - c + 0.5\<bar>"
      using that fs unfolding left_def right_def by (simp add: abs_if) linarith
  qed
  moreover have "left \<subseteq> J" "right \<subseteq> J" by (auto simp: left_def right_def)
  ultimately show ?thesis
    using weights_lower_bound[of J "{a..<a + m}" m "weight c fs" left right] J m(1) weight_lobes(1,3)[OF fs] mid by simp
qed

subsection \<open>The window of one output pixel\<close>

lemma window_centre:
  assumes "0 < n" "i < out" and scale: "scale = real n / real out"
    and fs: "fs = max scale 1" and c: "c = (real i + 0.5) * scale"
  shows "\<exists>a m. 1 \<le> m \<and> fs < real m + 1 \<and> (\<forall>j \<in> {a..<a + m}. \<bar>real j - c + 0.5\<bar> \<le> fs / 2 \<and> j < n)"
proof (cases "1 \<le> scale")
  case True
  define a where "a = nat \<lceil>real i * scale - 0.5\<rceil>"
  define m where "m = nat \<lfloor>scale\<rfloor>"
  have n: "real n = real out * scale" "0 < scale" using assms by simp_all
  have "- 0.5 \<le> real i * scale - 0.5" using n(2) by simp
  then have a: "real i * scale - 0.5 \<le> real a" "real a < real i * scale + 0.5"
    unfolding a_def by linarith+
  have m: "1 \<le> m" "real m \<le> scale" "scale < real m + 1" using True unfolding m_def by linarith+
  have "(real i + 1) * scale \<le> real out * scale" using assms(2) n(2) by (intro mult_right_mono) simp_all
  then have top: "real i * scale + scale \<le> real n" using n(1) by (simp add: algebra_simps)
  have cc: "c = real i * scale + scale / 2" unfolding c by (simp add: algebra_simps)
  have "\<bar>real j - c + 0.5\<bar> \<le> fs / 2 \<and> j < n" if "j \<in> {a..<a + m}" for j
  proof -
    have "real a \<le> real j" "real j + 1 \<le> real a + real m" using that by auto
    then have "real i * scale - 0.5 \<le> real j" "real j + 0.5 < real i * scale + scale" using a m(2) by linarith+
    moreover from this have "real j - c + 0.5 \<le> fs / 2" "- (real j - c + 0.5) \<le> fs / 2" "real j < real n"
      using top cc fs True by simp_all
    ultimately show ?thesis by (simp only: abs_le_iff of_nat_less_iff simp_thms)
  qed
  then show ?thesis using m fs True by (intro exI[of _ a] exI[of _ m]) simp
next
  case False
  have n: "real n = real out * scale" "0 < scale" using assms by simp_all
  have "(real i + 0.5) * scale < real out * scale"
    using assms(2) n(2) by (intro mult_strict_right_mono) simp_all
  then have cn: "0 < c" "c < real n" using n c by simp_all
  then have "\<bar>real (nat \<lfloor>c\<rfloor>) - c + 0.5\<bar> \<le> 1 / 2" "nat \<lfloor>c\<rfloor> < n" by linarith+
  then show ?thesis using False fs by (intro exI[of _ "nat \<lfloor>c\<rfloor>"] exI[of _ 1]) auto
qed

lemma window_in_taps:
  assumes "\<bar>real j - c + 0.5\<bar> \<le> fs / 2" "j < n" "1 \<le> fs" and b: "tap_bounds n c (2 * fs) = (lo, taps)"
  shows "lo \<le> j \<and> j < lo + taps"
proof -
  have "real j - c + 0.5 \<le> fs / 2" "- (real j - c + 0.5) \<le> fs / 2" using assms(1) by (simp_all only: abs_le_iff)
  then have "c - 2 * fs + 0.5 \<le> real j" "real (Suc j) \<le> c + 2 * fs + 0.5" using assms(3) by simp_all
  then have "trunc (c - 2 * fs + 0.5) \<le> int j" "int (Suc j) \<le> trunc (c + 2 * fs + 0.5)"
    using trunc_le_nat trunc_ge_nat by blast+
  then show ?thesis using b assms(2) by (auto simp: tap_bounds_def Let_def min_def max_def split: if_splits)
qed

subsection \<open>The fixed-point taps\<close>

lemma fixed_tap_near:
  assumes "\<bar>k\<bar> \<le> 16" shows "\<bar>real_of_int (fixed_tap k) - k * 2 ^ 22\<bar> \<le> 1 / 2"
proof (cases "k < 0")
  case True
  have "real_as_i32 (- 0.5 + k * 2 ^ 22) = \<lceil>- 0.5 + k * 2 ^ 22\<rceil>"
    using True assms unfolding real_as_i32_def trunc_def by (simp add: abs_le_iff)
  then have "real_of_int (fixed_tap k) = real_of_int \<lceil>k * 2 ^ 22 - 0.5\<rceil>" using True by (simp add: fixed_tap_def PRECISION_BITS_def)
  moreover have "\<bar>real_of_int \<lceil>x - 0.5\<rceil> - x\<bar> \<le> 1 / 2" for x :: real unfolding abs_le_iff by linarith
  ultimately show ?thesis by metis
next
  case False
  have "real_as_i32 (0.5 + k * 2 ^ 22) = \<lfloor>0.5 + k * 2 ^ 22\<rfloor>"
    using False assms unfolding real_as_i32_def trunc_def by (simp add: abs_le_iff)
  then have "real_of_int (fixed_tap k) = real_of_int \<lfloor>k * 2 ^ 22 + 0.5\<rfloor>" using False by (simp add: fixed_tap_def PRECISION_BITS_def add.commute)
  moreover have "\<bar>real_of_int \<lfloor>x + 0.5\<rfloor> - x\<bar> \<le> 1 / 2" for x :: real unfolding abs_le_iff by linarith
  ultimately show ?thesis by metis
qed

lemma fixed_sum_near:
  assumes "\<forall>k \<in> set ks. \<bar>k\<bar> \<le> 16"
  shows "\<bar>real_of_int (sum_list (map fixed_tap ks)) - sum_list ks * 2 ^ 22\<bar> \<le> real (length ks) / 2"
  using assms
proof (induction ks)
  case (Cons k ks)
  then have "\<bar>real_of_int (fixed_tap k) - k * 2 ^ 22\<bar> \<le> 1 / 2" by (intro fixed_tap_near) simp
  moreover have "\<bar>real_of_int (sum_list (map fixed_tap ks)) - sum_list ks * 2 ^ 22\<bar> \<le> real (length ks) / 2"
    using Cons by simp
  ultimately have "\<bar>(real_of_int (fixed_tap k) - k * 2 ^ 22) + (real_of_int (sum_list (map fixed_tap ks)) - sum_list ks * 2 ^ 22)\<bar>
      \<le> 1 / 2 + real (length ks) / 2"
    by (intro order_trans[OF abs_triangle_ineq] add_mono)
  moreover have "(real_of_int (fixed_tap k) - k * 2 ^ 22) + (real_of_int (sum_list (map fixed_tap ks)) - sum_list ks * 2 ^ 22) =
      real_of_int (sum_list (map fixed_tap (k # ks))) - sum_list (k # ks) * 2 ^ 22"
    by (simp add: algebra_simps)
  moreover have "1 / 2 + real (length ks) / 2 = real (length (k # ks)) / 2" by simp
  ultimately show ?case by argo
qed simp

definition balanced :: "int list \<Rightarrow> bool" where
  "balanced k \<longleftrightarrow> 255 * \<bar>sum_list k - 2 ^ 22\<bar> < 2 ^ 21"

lemma normalised_balanced:
  assumes "2 / 27 \<le> sum_list ws" "\<forall>w \<in> set ws. \<bar>w\<bar> \<le> 1" "length ws \<le> 16448"
  shows "balanced (map fixed_tap (map (\<lambda>w. w / sum_list ws) ws))"
proof -
  let ?s = "sum_list ws"
  have s: "0 < ?s" using assms(1) by simp
  have "\<bar>w / ?s\<bar> \<le> 16" if "w \<in> set ws" for w
  proof -
    have "\<bar>w\<bar> \<le> 16 * ?s" using assms(1,2) that by fastforce
    then show ?thesis using s by (simp add: abs_divide field_simps)
  qed
  then have "\<bar>real_of_int (sum_list (map fixed_tap (map (\<lambda>w. w / ?s) ws))) - sum_list (map (\<lambda>w. w / ?s) ws) * 2 ^ 22\<bar>
      \<le> real (length (map (\<lambda>w. w / ?s) ws)) / 2"
    by (intro fixed_sum_near) simp
  moreover have "sum_list (map (\<lambda>w. w / ?s) ws) = 1"
  proof -
    have "sum_list (map (\<lambda>w. w / d) ws) = ?s / d" for d by (induction ws) (simp_all add: add_divide_distrib)
    then show ?thesis using s by simp
  qed
  moreover have "real (length ws) / 2 \<le> 8224" using assms(3) by simp
  ultimately have "\<bar>real_of_int (sum_list (map fixed_tap (map (\<lambda>w. w / ?s) ws)) - 2 ^ 22)\<bar> \<le> 8224" by simp
  then have "\<bar>sum_list (map fixed_tap (map (\<lambda>w. w / ?s) ws)) - 2 ^ 22\<bar> \<le> 8224" by linarith
  then show ?thesis unfolding balanced_def by simp
qed

subsection \<open>The coefficients are balanced\<close>

definition balanced_coeffs :: "coeffs \<Rightarrow> bool" where
  "balanced_coeffs c \<longleftrightarrow>
     (\<forall>i < length (co_bounds c). \<forall>k. tap_slice c i (snd (co_bounds c ! i)) = Some k \<longrightarrow> balanced k)"

lemma those_nth: "those xs = Some ys \<Longrightarrow> length ys = length xs \<and> (\<forall>i < length xs. xs ! i = Some (ys ! i))"
proof (induction xs arbitrary: ys)
  case (Cons x xs)
  then show ?case by (cases x; cases "those xs") (auto simp: nth_Cons split: nat.split)
qed simp

lemma drop_concat_rows:
  "\<forall>r \<in> set rows. length r = k \<Longrightarrow> i < length rows \<Longrightarrow> drop (i * k) (concat rows) = rows ! i @ concat (drop (Suc i) rows)"
proof (induction rows arbitrary: i)
  case (Cons r rows)
  then show ?case by (cases i) simp_all
qed simp

lemma row_weights:
  assumes row: "tap_row ksize c (1 / fs) (lo, taps) = Some row"
    and pos: "2 / 27 \<le> sum (weight c fs) {lo..<lo + taps}"
  shows "length row = ksize" "taps \<le> ksize"
    "\<exists>ws. take taps row = map (\<lambda>w. w / sum_list ws) ws \<and> length ws = taps
       \<and> sum_list ws = sum (weight c fs) {lo..<lo + taps} \<and> set ws \<subseteq> range (weight c fs)"
proof -
  define ws where "ws = map (weight c fs) [lo..<lo + taps]"
  have shift: "map (\<lambda>x. bicubic_filter ((real (x + lo) - c + 0.5) * (1 / fs))) [0..<taps] = ws"
  proof -
    have "[lo..<lo + taps] = map (\<lambda>i. i + lo) [0..<taps]" by (simp add: map_add_upt add.commute)
    then show ?thesis by (simp add: ws_def weight_def)
  qed
  have sum: "sum_list ws = sum (weight c fs) {lo..<lo + taps}"
    by (simp add: ws_def sum_list_distinct_conv_sum_set)
  have "sum_list ws \<noteq> 0" using pos sum by auto
  then have r: "taps \<le> ksize" "row = map (\<lambda>w. w / sum_list ws) ws @ replicate (ksize - taps) 0"
    using row unfolding tap_row_def Let_def prod.case shift by (auto split: if_splits)
  then show "length row = ksize" "taps \<le> ksize" by (simp_all add: ws_def)
  show "\<exists>ws. take taps row = map (\<lambda>w. w / sum_list ws) ws \<and> length ws = taps
       \<and> sum_list ws = sum (weight c fs) {lo..<lo + taps} \<and> set ws \<subseteq> range (weight c fs)"
    using r sum by (intro exI[of _ ws]) (auto simp: ws_def)
qed

lemma precompute_balanced:
  assumes n: "0 < n" "0 < out" "n \<le> 4000 * out" and c: "precompute_coeffs n 0 (real n) out = Some c"
  shows "balanced_coeffs c"
proof -
  define scale where "scale = real n / real out"
  define fs where "fs = max scale 1"
  define centre where "centre = (\<lambda>xx :: nat. (real xx + 0.5) * scale)"
  define ksize where "ksize = nat \<lceil>2 * fs\<rceil> * 2 + 1"
  define bounds where "bounds = map (\<lambda>xx. tap_bounds n (centre xx) (2 * fs)) [0..<out]"
  have fs: "1 \<le> fs" "fs \<le> 4000"
  proof -
    have "real n \<le> 4000 * real out" using n(3) by (simp flip: of_nat_le_iff[where 'a = real])
    then show "1 \<le> fs" "fs \<le> 4000" using n(2) by (simp_all add: fs_def scale_def divide_le_eq)
  qed
  obtain rows where rows: "those (map (\<lambda>xx. tap_row ksize (centre xx) (1 / fs) (bounds ! xx)) [0..<out]) = Some rows"
    and ceq: "c = \<lparr>co_ksize = ksize, co_bounds = bounds, co_kk = map fixed_tap (concat rows)\<rparr>"
    using c unfolding precompute_coeffs_def Let_def BICUBIC_SUPPORT_def diff_zero add_0
      scale_def[symmetric] fs_def[symmetric] ksize_def[symmetric] fun_cong[OF centre_def[symmetric]]
    by (auto simp: bounds_def centre_def split: option.splits)
  have len: "length rows = out" using those_nth[OF rows] by simp
  have row: "tap_row ksize (centre i) (1 / fs) (bounds ! i) = Some (rows ! i)" if "i < out" for i
    using those_nth[OF rows] that by simp
  have pos: "2 / 27 \<le> sum (weight (centre i) fs) {lo..<lo + taps}" if i: "i < out" "bounds ! i = (lo, taps)" for i lo taps
  proof -
    obtain a m where am: "1 \<le> m" "fs < real m + 1"
      "\<forall>j \<in> {a..<a + m}. \<bar>real j - centre i + 0.5\<bar> \<le> fs / 2 \<and> j < n"
      using window_centre[OF n(1) i(1) scale_def fs_def, of "centre i"] by (auto simp: centre_def)
    have tb: "tap_bounds n (centre i) (2 * fs) = (lo, taps)" using i by (simp add: bounds_def)
    have "{a..<a + m} \<subseteq> {lo..<lo + taps}"
    proof
      fix j assume "j \<in> {a..<a + m}"
      then show "j \<in> {lo..<lo + taps}" using window_in_taps[OF _ _ fs(1) tb, of j] am(3) by auto
    qed
    then show ?thesis using weights_positive[OF fs(1) _ _ am(1,2), of "{lo..<lo + taps}" a "centre i"] am(3) by simp
  qed
  have lens: "\<forall>r \<in> set rows. length r = ksize"
  proof
    fix r assume "r \<in> set rows"
    then obtain i where i: "i < out" "r = rows ! i" using len by (auto simp: in_set_conv_nth)
    obtain lo taps where b: "bounds ! i = (lo, taps)" by fastforce
    show "length r = ksize" using row_weights(1)[OF row[OF i(1), unfolded b] pos[OF i(1) b]] i(2) by simp
  qed
  have "balanced k" if i: "i < out" and k: "tap_slice c i (snd (bounds ! i)) = Some k" for i k
  proof -
    obtain lo taps where b: "bounds ! i = (lo, taps)" by fastforce
    note w = row_weights[OF row[OF i, unfolded b] pos[OF i b]]
    obtain ws where ws: "take taps (rows ! i) = map (\<lambda>w. w / sum_list ws) ws" "length ws = taps"
      "sum_list ws = sum (weight (centre i) fs) {lo..<lo + taps}" "set ws \<subseteq> range (weight (centre i) fs)"
      using w(3) by blast
    have "k = take taps (drop (i * ksize) (map fixed_tap (concat rows)))"
      using k b by (simp add: tap_slice_def ceq split: if_splits)
    also have "\<dots> = map fixed_tap (take taps (drop (i * ksize) (concat rows)))" by (simp add: drop_map take_map)
    also have "\<dots> = map fixed_tap (map (\<lambda>w. w / sum_list ws) ws)"
      using drop_concat_rows[OF lens, of i] len i w(1,2) by (simp only: ws(1)[symmetric]) simp
    finally have keq: "k = map fixed_tap (map (\<lambda>w. w / sum_list ws) ws)" .
    have "taps \<le> 16448"
    proof -
      have "taps \<le> nat \<lceil>2 * fs\<rceil> * 2 + 1" using w(2) by (simp add: ksize_def)
      moreover have "\<lceil>2 * fs\<rceil> \<le> 8000" using fs(2) by linarith
      ultimately show ?thesis by linarith
    qed
    then show "balanced k" unfolding keq
      using pos[OF i b] ws weight_lobes(4)[OF fs(1)] by (intro normalised_balanced) (auto simp: subset_iff)
  qed
  then show ?thesis by (simp add: balanced_coeffs_def ceq bounds_def)
qed

end
