(* ===== verification/Solid_Raster.thy ===== *)
theory Solid_Raster
  imports Solid_Resize
begin

text \<open>
  Resampling a raster of one colour (\<open>src/color/resize.rs\<close>): the balanced taps of \<open>Solid_Resize\<close> give back the
  colour of every pixel exactly, through the wrapping accumulators, the final shift and the clipping, in both
  passes and in both branches of \<open>resize\<close>.
\<close>

subsection \<open>One output pixel\<close>

lemma fold_flat:
  "foldl add_tap (a, b, c) (zip k (replicate (length k) (p, q, r))) =
     (a + ucast p * word_of_int (sum_list k), b + ucast q * word_of_int (sum_list k), c + ucast r * word_of_int (sum_list k))"
  by (induction k arbitrary: a b c) (simp_all add: add_tap_def algebra_simps)

lemma sint_small: "- (2 ^ 31) \<le> v \<Longrightarrow> v < 2 ^ 31 \<Longrightarrow> sint (word_of_int v :: 32 word) = v"
  using signed_take_bit_int_eq_self[of 31 v] by (simp add: signed_of_int)

lemma centred_range:
  fixes u x :: int
  assumes "0 \<le> u" "u \<le> 255" "\<bar>x\<bar> < 2 ^ 21"
  shows "- (2 ^ 31) \<le> u * 2 ^ 22 + (2 ^ 21 + x)" "u * 2 ^ 22 + (2 ^ 21 + x) < 2 ^ 31"
  using assms by simp_all

lemma centred_div:
  fixes u x :: int
  assumes "\<bar>x\<bar> < 2 ^ 21"
  shows "(u * 2 ^ 22 + (2 ^ 21 + x)) div 2 ^ 22 = u"
proof -
  have "(2 ^ 21 + x) div 2 ^ 22 = 0" using assms by (intro div_pos_pos_trivial) simp_all
  then show ?thesis by simp
qed

lemma clip8_balanced:
  fixes p :: "8 word"
  assumes "balanced k"
  shows "clip8 (ROUND + ucast p * word_of_int (sum_list k)) = p"
proof -
  define s d where "s = sum_list k" and "d = sum_list k - 2 ^ 22"
  have d: "255 * \<bar>d\<bar> < 2 ^ 21" using assms by (simp add: balanced_def d_def)
  have p: "0 \<le> uint p" "uint p \<le> 255" using uint_lt2p[of p] by simp_all
  have "\<bar>uint p * d\<bar> \<le> 255 * \<bar>d\<bar>" unfolding abs_mult using p by (intro mult_right_mono) simp_all
  then have pd: "\<bar>uint p * d\<bar> < 2 ^ 21" using d by linarith
  define v where "v = uint p * 2 ^ 22 + (2 ^ 21 + uint p * d)"
  have "ROUND + ucast p * word_of_int s = word_of_int v"
  proof -
    have "v = 2 ^ 21 + uint p * s" by (simp add: v_def s_def d_def algebra_simps)
    moreover have "(ucast p :: 32 word) = word_of_int (uint p)" by (rule ucast_eq)
    moreover have "ROUND = word_of_int (2 ^ 21)" by (simp add: ROUND_def PRECISION_BITS_def)
    ultimately show ?thesis by simp
  qed
  moreover have "sint (word_of_int v :: 32 word) = v"
    using centred_range[OF p pd] unfolding v_def[symmetric] by (rule sint_small)
  moreover have "v div 2 ^ 22 = uint p" unfolding v_def by (rule centred_div[OF pd])
  ultimately show ?thesis using p unfolding s_def[symmetric] by (simp add: clip8_def PRECISION_BITS_def)
qed

lemma convolve_flat: "balanced k \<Longrightarrow> convolve k (replicate (length k) p) = p"
  by (cases p) (simp add: convolve_def fold_flat clip8_balanced)

lemma those_all: "those xs = Some ys \<Longrightarrow> \<forall>x \<in> set xs. \<forall>y. x = Some y \<longrightarrow> y = p \<Longrightarrow> list_all (\<lambda>q. q = p) ys"
  by (induction xs arbitrary: ys) (auto split: option.splits)

lemma all_replicate: "list_all (\<lambda>q. q = p) xs \<Longrightarrow> xs = replicate (length xs) p"
  by (induction xs) simp_all

lemma out_pixel_flat:
  assumes "balanced_coeffs c" "out_pixel c i src = Some q" "\<And>x y. src x = Some y \<Longrightarrow> y = p"
  shows "q = p"
proof -
  obtain lo taps where b: "co_bounds c ! i = (lo, taps)" by fastforce
  obtain k ps where k: "i < length (co_bounds c)" "tap_slice c i taps = Some k"
    "those (map (\<lambda>x. src (x + lo)) [0..<taps]) = Some ps" "q = convolve k ps"
    using assms(2) b by (auto simp: out_pixel_def bind_eq_Some_conv split: if_splits)
  have "balanced k" using assms(1) k(1,2) b by (auto simp: balanced_coeffs_def)
  moreover have "length k = taps" using k(2) by (auto simp: tap_slice_def split: if_splits)
  moreover have "ps = replicate taps p"
    using all_replicate[OF those_all[OF k(3), of p]] assms(3) those_nth[OF k(3)] by auto
  ultimately show ?thesis using k(4) convolve_flat by blast
qed

subsection \<open>The passes\<close>

definition flat :: "rgb \<Rightarrow> rgb8 \<Rightarrow> bool" where
  "flat p img \<longleftrightarrow> list_all (\<lambda>q. q = p) (rb_pixels img)"

lemma flat_pixel: "flat p img \<Longrightarrow> pixel_at img x y = Some q \<Longrightarrow> q = p"
  by (auto simp: flat_def pixel_at_def list_all_length Let_def split: if_splits)

lemma grid_flat:
  assumes "Option.bind (those (concat (map (\<lambda>y. map (f y) [0..<w]) [0..<h]))) (rgb8_new w' h') = Some img"
    and "\<And>x y q. f y x = Some q \<Longrightarrow> q = p"
  shows "flat p img"
proof -
  obtain ps where ps: "those (concat (map (\<lambda>y. map (f y) [0..<w]) [0..<h])) = Some ps" "rgb8_new w' h' ps = Some img"
    using assms(1) by (auto simp: bind_eq_Some_conv)
  have "\<forall>x \<in> set (concat (map (\<lambda>y. map (f y) [0..<w]) [0..<h])). \<forall>q. x = Some q \<longrightarrow> q = p"
    using assms(2) by fastforce
  from those_all[OF ps(1) this]
  show ?thesis using ps(2) by (auto simp: flat_def rgb8_new_def split: if_splits)
qed

lemma horizontal_flat:
  "horizontal src offset rows out_w c = Some img \<Longrightarrow> balanced_coeffs c \<Longrightarrow> flat p src \<Longrightarrow> flat p img"
  unfolding horizontal_def by (erule grid_flat) (blast intro: out_pixel_flat flat_pixel)

lemma vertical_flat:
  "vertical src out_h c = Some img \<Longrightarrow> balanced_coeffs c \<Longrightarrow> flat p src \<Longrightarrow> flat p img"
  unfolding vertical_def by (erule grid_flat) (blast intro: out_pixel_flat flat_pixel)

lemma crop_flat: "crop src out_w out_h x0 y0 = Some img \<Longrightarrow> flat p src \<Longrightarrow> flat p img"
  unfolding crop_def by (erule grid_flat) (blast intro: flat_pixel)

lemma shift_balanced: "shift_bounds m c = Some c' \<Longrightarrow> balanced_coeffs c \<Longrightarrow> balanced_coeffs c'"
  by (auto simp: shift_bounds_def balanced_coeffs_def tap_slice_def split_beta split: if_splits)

lemma resample_flat:
  assumes "resample src out_w out_h (0, 0, real (rb_width src), real (rb_height src)) = Some img" "flat p src"
    and "0 < rb_width src" "0 < rb_height src" "0 < out_w" "0 < out_h"
    and "rb_width src \<le> 4000 * out_w" "rb_height src \<le> 4000 * out_h"
  shows "flat p img"
  using assms(1,2) unfolding resample_def Let_def prod.case
  by (auto simp: bind_eq_Some_conv split: if_splits prod.splits
      dest: shift_balanced precompute_balanced[OF assms(3,5,7)] precompute_balanced[OF assms(4,6,8)]
      intro: horizontal_flat vertical_flat)

lemma im_resize_flat:
  assumes "im_resize src out_w out_h (0, 0, real (rb_width src), real (rb_height src)) = Some img" "flat p src"
    and "0 < rb_width src" "0 < rb_height src" "0 < out_w" "0 < out_h"
    and "rb_width src \<le> 4000 * out_w" "rb_height src \<le> 4000 * out_h"
  shows "flat p img"
  using assms(1) crop_flat[OF _ assms(2)] resample_flat[OF _ assms(2-8)]
  by (auto simp: im_resize_def split: if_splits)

lemma resize_flat:
  assumes src: "raster_ok src" "flat p src" "0 < rb_width src" "0 < rb_height src" and out: "0 < out_w" "0 < out_h"
    and scale: "rb_width src \<le> 4000 * out_w" "rb_height src \<le> 4000 * out_h"
    and img: "resize src out_w out_h = Some img"
  shows "flat p img"
proof -
  let ?w = "rb_width src" and ?h = "rb_height src"
  have tall: "flat p img" if "im_resize src ?w out_h (0, 0, real ?w, real ?h) = Some t"
    "im_resize t out_w out_h (0, 0, real ?w, real out_h) = Some img" for t
  proof -
    have "flat p t" using im_resize_flat[OF that(1) src(2-4) src(3) out(2) _ scale(2)] by simp
    moreover have "rb_width t = ?w" "rb_height t = out_h"
      using im_resize_total[OF src(1) disjI2[OF refl] out(2)] that(1) by auto
    ultimately show ?thesis using im_resize_flat[of t out_w out_h img p] that(2) src(3) out scale(1) by simp
  qed
  show ?thesis
    using img src out im_resize_flat[OF _ src(2-4) out scale]
    by (auto simp: resize_def Let_def bind_eq_Some_conv intro: tall split: if_splits)
qed

end
