(* ===== verification/Solid.thy ===== *)
theory Solid
  imports Color_Props Solid_Raster
begin

text \<open>
  Covers of one colour through the whole pipeline (\<open>src/color/\<close>): the box reduction, the resampler and the
  quantizer keep the colour, the histogram has one entry, the selection one pick, and the three colours shown are
  the same, whatever the format and the sides of the cover.
\<close>

subsection \<open>The box reduction\<close>

lemma mean_const: "0 < n \<Longrightarrow> (n * v + n div 2) div n = (v :: nat)"
  by (simp add: div_add1_eq)

lemma block_mean_flat: "ps = replicate n p \<Longrightarrow> 0 < n \<Longrightarrow> block_mean ps = Some p"
  by (cases p) (simp add: block_mean_def Let_def axis_of_def mean_const sum_list_replicate map_replicate_const)

lemma box_reduce_flat:
  assumes "box_reduce src s = Some img" "flat p src"
  shows "flat p img"
  using assms(1) unfolding box_reduce_def Let_def
proof (rule grid_flat)
  fix x y q assume "Option.bind (block_pixels src s x y) block_mean = Some q"
  then obtain ps where ps: "block_pixels src s x y = Some ps" "block_mean ps = Some q"
    by (auto simp: bind_eq_Some_conv)
  have "list_all (\<lambda>q. q = p) ps"
    using ps(1) unfolding block_pixels_def by (rule those_all) (use flat_pixel[OF assms(2)] in auto)
  then have "ps = replicate (length ps) p" by (rule all_replicate)
  moreover have "0 < length ps" using ps(2) by (auto simp: block_mean_def Let_def split: if_splits)
  ultimately show "q = p" using block_mean_flat[of ps "length ps" p] ps(2) by simp
qed

subsection \<open>The quantizer\<close>

lemma color_table_const:
  assumes "0 < n"
  shows "color_table (replicate n p) = ([pixel_hash p], [(pixel_hash p, \<lparr>en_color = p, en_count = n\<rparr>)])"
proof -
  have "fold count_pixel (replicate k p) ([pixel_hash p], [(pixel_hash p, \<lparr>en_color = p, en_count = m\<rparr>)]) =
      ([pixel_hash p], [(pixel_hash p, \<lparr>en_color = p, en_count = m + k\<rparr>)])" for k m
    by (induction k arbitrary: m) (simp_all add: count_pixel_def Let_def)
  from this[of "n - 1" 1] show ?thesis
    using assms by (cases n) (simp_all add: color_table_def count_pixel_def Let_def)
qed

lemma one_cell: "bn_entries b = [e] \<Longrightarrow> volume b = 1"
  by (simp add: volume_def box_range_def)

lemma cut_one_cell:
  assumes "volume b = 1"
  shows "median_cut k [b] (heap_add [b] 0 [0]) = Some [b]"
proof -
  have "heap_add [b] 0 [0] = [0, 0]" by (simp add: heap_add_def Let_def sift_up.simps)
  moreover have "next_box [b] [0, 0] = (None, [0])"
    using assms by (simp add: next_box.simps heap_remove_def)
  ultimately show ?thesis by (cases k) simp_all
qed

lemma palette_entry_const:
  assumes "0 < n" "own p = Some 0"
  shows "palette_entry own (replicate n p) 0 = p"
proof -
  have f: "filter (\<lambda>q. own q = Some 0) (replicate n p) = replicate n p" using assms(2) by simp
  have "\<lfloor>1 / 2 + real v\<rfloor> = int v" for v :: nat by linarith
  moreover have "real (n * unat c) / real n = real (unat c)" for c :: "8 word" using assms(1) by simp
  ultimately have "\<lfloor>1 / 2 + real (n * unat c) / real n\<rfloor> = uint c" for c :: "8 word" by (simp only: uint_nat)
  then have "real_as_u8 (1 / 2 + real (n * unat c) / real n) = c" for c :: "8 word"
    using uint_lt2p[of c] unfolding real_as_u8_def by (simp del: of_nat_mult)
  then show ?thesis
    unfolding palette_entry_def box_sum_def box_pixels_def f
    by (cases p) (simp add: Let_def axis_of_def sum_list_replicate)
qed

lemma dist_sq_refl: "dist_sq p p = 0"
  by (simp add: dist_sq_def)

lemma quantize_const:
  assumes "0 < n"
  shows "quantize (replicate n p) QUANTIZE_COLORS = Some \<lparr>qz_palette = [p], qz_indices = replicate n 0\<rparr>"
proof -
  let ?b = "root_box (replicate n p)"
  have b: "bn_entries ?b = [\<lparr>en_color = p, en_count = n\<rparr>]" "bn_children ?b = None"
    using assms by (simp_all add: root_box_def color_table_const)
  have leaves: "number_leaves [?b] [0] [] 0 = Some ([(pixel_hash p, 0)], 1)"
    using b by (simp add: number_leaves.simps)
  have idx: "nearest_index [p] 0 p = 0"
    by (simp add: nearest_index_def Let_def distance_row_def dist_sq_refl)
  have "map_pixels (replicate n p) [(pixel_hash p, 0)] 1 = Some \<lparr>qz_palette = [p], qz_indices = replicate n 0\<rparr>"
    using assms palette_entry_const[of n "\<lambda>q. map_of [(pixel_hash p, 0)] (pixel_hash q)" p] idx
    by (simp add: map_pixels_def Let_def list_all_iff map_replicate_const)
  then show ?thesis
    using assms leaves cut_one_cell[OF one_cell[OF b(1)]]
    by (simp add: quantize_def Let_def QUANTIZE_COLORS_def color_table_const MAX_HASH_ENTRIES_def)
qed

subsection \<open>The histogram, the pick and the colours\<close>

definition hsv_of :: "rgb \<Rightarrow> hsv" where
  "hsv_of p = (case p of (r, g, b) \<Rightarrow> rgb_to_hsv (real (unat r) / 255) (real (unat g) / 255) (real (unat b) / 255))"

lemma histogram_const: "0 < n \<Longrightarrow> histogram_of_sample (replicate n p) = Some [(n, hsv_of p)]"
  by (simp add: histogram_of_sample_def quantize_const quantized_colors_def hist_entry_of_def hsv_of_def
      count_list_eq_length_filter split: prod.splits)

text \<open>The one pick of a solid cover, and its colour in a mode.\<close>

definition solid_pick :: "rgb \<Rightarrow> lch" where
  "solid_pick p = hd (pick_loop [hsv_of p] [] [])"

lemma select_const: "select [(n, hsv)] = Some (replicate 3 (hd (pick_loop [hsv] [] [])), 1)"
  by (cases hsv) (simp add: select_def rank_hist_def Let_def numeral_3_eq_3 split: prod.split)

lemma render_const:
  "\<exists>c. render_palette (replicate 3 pick) 1 m = Some (replicate 3 c)"
proof -
  obtain l ch h where p: "pick = (l, ch, h)" by (cases pick) auto
  obtain lo hi where e: "envelope m = (lo, hi)" by fastforce
  obtain t where "tone (replicate 3 pick) m = Some (replicate 3 t)"
    by (simp add: tone_def Let_def e p numeral_3_eq_3)
  then show ?thesis by (simp add: render_palette_def separate_def numeral_3_eq_3)
qed

subsection \<open>From the file to the colours\<close>

text \<open>A raster of one colour with sides the resampler keeps exact.\<close>

definition solid_raster :: "rgb \<Rightarrow> rgb8 \<Rightarrow> bool" where
  "solid_raster p img \<longleftrightarrow> raster_ok img \<and> flat p img
     \<and> 0 < rb_width img \<and> rb_width img \<le> 400000 \<and> 0 < rb_height img \<and> rb_height img \<le> 400000"

text \<open>A readable file within the budgets whose decoded buffer has one colour.\<close>

definition solid_cover :: "image_crate \<Rightarrow> cover_file \<Rightarrow> rgb \<Rightarrow> bool" where
  "solid_cover crate f p \<longleftrightarrow>
     (\<exists>len bytes fmt w h img rgb. cf_open f = Inr () \<and> cf_len f = Inr len \<and> len \<le> MAX_DECODE_BYTES
        \<and> cf_data f = Inr bytes \<and> length bytes \<le> MAX_DECODE_BYTES
        \<and> guess_format crate bytes = Some fmt \<and> fmt \<in> set ACCEPTED
        \<and> into_dimensions crate fmt bytes = Inr (w, h) \<and> w * h \<le> MAX_PIXELS
        \<and> decode_body crate fmt bytes (w, h) = Inr img
        \<and> to_rgb_like_pillow img = Some rgb \<and> solid_raster p rgb)"

lemma div_ceil_range: "0 < n \<Longrightarrow> 0 < s \<Longrightarrow> 0 < div_ceil n s \<and> div_ceil n s \<le> n"
proof -
  assume n: "0 < n" "0 < s"
  then have "s \<le> n + s - 1" by simp
  then have "0 < div_ceil n s" using n(2) by (simp add: div_ceil_def div_greater_zero_iff)
  moreover have "div_ceil n s \<le> n"
  proof (rule ccontr)
    assume "\<not> div_ceil n s \<le> n"
    then have "n * s < n" using mult_div_ceil[OF n(2), of n n] by simp
    then show False using n by (cases s) simp_all
  qed
  ultimately show ?thesis ..
qed

lemma box_reduce_solid:
  assumes "solid_raster p src" "0 < s"
  shows "\<exists>img. box_reduce src s = Some img \<and> solid_raster p img"
proof -
  have src: "raster_ok src" "flat p src" using assms(1) by (simp_all add: solid_raster_def)
  obtain img where img: "box_reduce src s = Some img" "rb_width img = div_ceil (rb_width src) s"
    "rb_height img = div_ceil (rb_height src) s" "raster_ok img"
    using box_reduce_total[OF src(1) assms(2)] by blast
  then show ?thesis
    using box_reduce_flat[OF img(1) src(2)] assms div_ceil_range[of "rb_width src" s] div_ceil_range[of "rb_height src" s]
    by (auto simp: solid_raster_def)
qed

lemma resize_solid:
  assumes "solid_raster p src" "0 < w" "0 < h" "rb_width src \<le> 4000 * w" "rb_height src \<le> 4000 * h"
  shows "\<exists>img. resize src w h = Some img \<and> rb_pixels img = replicate (w * h) p"
proof -
  have src: "raster_ok src" "flat p src" "0 < rb_width src" "0 < rb_height src"
    using assms(1) by (simp_all add: solid_raster_def)
  obtain img where img: "resize src w h = Some img" "rb_width img = w" "rb_height img = h" "raster_ok img"
    using resize_raster[OF src(1) assms(2,3)] by blast
  have "rb_pixels img = replicate (length (rb_pixels img)) p"
    using resize_flat[OF src assms(2-5) img(1)] unfolding flat_def by (rule all_replicate)
  then show ?thesis using img by (auto simp: raster_ok_def)
qed

lemma solid_sample:
  assumes "solid_cover crate f p"
  shows "\<exists>img. sample_file crate f MAX_DECODE_BYTES = Some (Inr img) \<and> rb_pixels img = replicate 10000 p"
proof -
  obtain len bytes fmt w h img rgb where c: "cf_open f = Inr ()" "cf_len f = Inr len" "len \<le> MAX_DECODE_BYTES"
    "cf_data f = Inr bytes" "length bytes \<le> MAX_DECODE_BYTES" "guess_format crate bytes = Some fmt" "fmt \<in> set ACCEPTED"
    "into_dimensions crate fmt bytes = Inr (w, h)" "w * h \<le> MAX_PIXELS" "decode_body crate fmt bytes (w, h) = Inr img"
    "to_rgb_like_pillow img = Some rgb" "solid_raster p rgb"
    using assms unfolding solid_cover_def by blast
  obtain d where d: "decode crate bytes = Some (Inr d)" "solid_raster p d"
  proof (cases "fmt = Jpeg \<and> 1 < draft_scale w h")
    case True
    obtain b where "box_reduce rgb (draft_scale w h) = Some b" "solid_raster p b"
      using box_reduce_solid[OF c(12) draft_scale_pos] by blast
    then show thesis using c True by (intro that[of b]) (simp_all add: decode_def)
  next
    case False
    then show thesis using c by (intro that[of rgb]) (auto simp: decode_def)
  qed
  obtain s where s: "resize d 100 100 = Some s" "rb_pixels s = replicate 10000 p"
    using resize_solid[OF d(2), of 100 100] d(2) by (auto simp: solid_raster_def)
  have "sample_bytes crate bytes = Some (Inr s)"
    using d(1) s(1) by (simp add: sample_bytes_def SAMPLE_def)
  then show ?thesis using c(1-5) s(2) by (simp add: sample_file_def Let_def)
qed

lemma solid_select:
  "solid_cover crate f p \<Longrightarrow> select_palette crate f = Some (replicate 3 (solid_pick p), 1)"
  using solid_sample[of crate f p]
  by (auto simp: select_palette_def histogram_def histogram_const select_const solid_pick_def)



end
