(* ===== verification/Color_Tests.thy ===== *)
theory Color_Tests
  imports Solid
begin

text \<open>
  The unit tests of \<open>src/color/mod.rs\<close>, \<open>decode.rs\<close>, \<open>resize.rs\<close> and \<open>quantize.rs\<close> that need no encoded image and no
  numeric evaluation of a colour, replayed on the model. The \<open>image\<close> crate is a small instance: its sniffer looks
  at the signatures, and its header reader and decoder give what the test's file holds.
\<close>

subsection \<open>The fixtures of the memo\<close>

definition fake_render :: "string list renderer" where
  "fake_render picks n m = Some (replicate 3 (mode_as_str m))"

definition fake_pick :: picks where
  "fake_pick = ([(0.5, 0.1, 1)], 1)"

type_synonym memo_request = "string \<times> mode \<times> (nat \<times> nat)"

definition memo_calls :: "picks option \<Rightarrow> string list renderer \<Rightarrow> memo_request list \<Rightarrow> string list option list \<times> nat" where
  "memo_calls p render rs = memo_run (\<lambda>_. p) render rs None"

definition DEFAULT :: "string list" where
  "DEFAULT = replicate 3 DEFAULT_ACCENT"

subsection \<open>The memo\<close>

definition same_content_id_selects_once_across_two_modes :: bool where
  "same_content_id_selects_once_across_two_modes \<longleftrightarrow>
     memo_calls (Some fake_pick) fake_render [(''/c/a.jpg'', Dark, (10, 100)), (''/c/a.jpg'', Light, (10, 100))] =
       ([Some [''dark'', ''dark'', ''dark''], Some [''light'', ''light'', ''light'']], 1)"

lemma same_content_id_selects_once_across_two_modes_holds: same_content_id_selects_once_across_two_modes
  by (simp add: same_content_id_selects_once_across_two_modes_def memo_calls_def memo_get_def fake_pick_def
      fake_render_def numeral_3_eq_3)

text \<open>The second request finds the file overwritten in place, the third another file.\<close>

definition misses_on_new_content_id_even_for_the_same_path :: bool where
  "misses_on_new_content_id_even_for_the_same_path \<longleftrightarrow>
     snd (memo_calls (Some fake_pick) fake_render
       [(''/c/a.jpg'', Dark, (10, 100)), (''/c/a.jpg'', Dark, (10, 999)), (''/c/b.jpg'', Dark, (20, 200))]) = 3"

lemma misses_on_new_content_id_even_for_the_same_path_holds: misses_on_new_content_id_even_for_the_same_path
  by (simp add: misses_on_new_content_id_even_for_the_same_path_def memo_calls_def memo_get_def fake_pick_def)

definition identity_is_the_key_not_the_path :: bool where
  "identity_is_the_key_not_the_path \<longleftrightarrow>
     snd (memo_calls (Some fake_pick) fake_render
       [(''/c/a.jpg'', Dark, (10, 100)), (''/c/b.jpg'', Dark, (10, 100))]) = 1"

lemma identity_is_the_key_not_the_path_holds: identity_is_the_key_not_the_path
  by (simp add: identity_is_the_key_not_the_path_def memo_calls_def memo_get_def fake_pick_def)

definition an_unextractable_cover_is_cached_as_the_default :: bool where
  "an_unextractable_cover_is_cached_as_the_default \<longleftrightarrow>
     memo_calls (Some ([], 0)) render_palette [(''/c/bad.jpg'', Dark, (20, 1)), (''/c/bad.jpg'', Light, (20, 1))] =
       ([Some DEFAULT, Some DEFAULT], 1)"

lemma an_unextractable_cover_is_cached_as_the_default_holds: an_unextractable_cover_is_cached_as_the_default
  by (simp add: an_unextractable_cover_is_cached_as_the_default_def memo_calls_def memo_get_def DEFAULT_def
      render_palette_def)

text \<open>The renderer of the next test shows which selection, counted from 1, it was given.\<close>

definition number_render :: "nat list renderer" where
  "number_render picks n m = Some [n, n, n]"

definition nth_select :: "nat \<Rightarrow> string \<Rightarrow> picks option" where
  "nth_select calls path = Some ([(0.5, 0.1, 1)], calls)"

definition a_panicking_select_does_not_poison_the_slot :: bool where
  "a_panicking_select_does_not_poison_the_slot \<longleftrightarrow>
     (let (first, s1) = memo_get (nth_select 1) number_render ''/a.jpg'' Dark (10 :: nat, 100 :: nat) None;
          (r, s2) = memo_get (\<lambda>_. None) number_render ''/b.jpg'' Dark (20, 200) s1;
          (again, s3) = memo_get (nth_select 3) number_render ''/a.jpg'' Light (10, 100) s2;
          (later, s4) = memo_get (nth_select 3) number_render ''/b.jpg'' Dark (20, 200) s3
      in first = Some [1, 1, 1] \<and> r = None \<and> again = first \<and> later = Some [3, 3, 3])"

lemma a_panicking_select_does_not_poison_the_slot_holds: a_panicking_select_does_not_poison_the_slot
  by (simp add: a_panicking_select_does_not_poison_the_slot_def memo_get_def nth_select_def number_render_def)

subsection \<open>Files the extraction refuses\<close>

definition PNG_SIGNATURE :: string where
  "PNG_SIGNATURE = [CHR 0x89, CHR ''P'', CHR ''N'', CHR ''G'', CHR 0x0D, CHR 0x0A, CHR 0x1A, CHR 0x0A]"

definition sniff :: "string \<Rightarrow> image_format option" where
  "sniff b =
     (if take 8 b = PNG_SIGNATURE then Some Png
      else if take 3 b = [CHR 0xFF, CHR 0xD8, CHR 0xFF] then Some Jpeg
      else if take 4 b = ''RIFF'' \<and> take 4 (drop 8 b) = ''WEBP'' then Some WebP else None)"

text \<open>A crate whose files all hold one header and one body.\<close>

definition crate_of :: "string + (nat \<times> nat) \<Rightarrow> string + dynamic_image \<Rightarrow> image_crate" where
  "crate_of dims body =
     \<lparr>guess_format = sniff, into_dimensions = (\<lambda>_ _. dims), decode_body = (\<lambda>_ _ _. body)\<rparr>"

definition corrupt_crate :: image_crate where
  "corrupt_crate = crate_of (Inl ''bad header'') (Inl ''bad body'')"

text \<open>A file written with these bytes.\<close>

definition file_of :: "string \<Rightarrow> cover_file" where
  "file_of b = \<lparr>cf_open = Inr (), cf_len = Inr (length b), cf_data = Inr b\<rparr>"

definition HTML :: string where
  "HTML = ''<!DOCTYPE html>'' @ [CHR 0x0A] @ ''<html><body>not an image</body></html>''"

text \<open>An attribute and its value, in double quotes.\<close>

definition attr :: "string \<Rightarrow> string \<Rightarrow> string" where
  "attr k v = '' '' @ k @ ''='' @ [CHR 0x22] @ v @ [CHR 0x22]"

definition SVG_OPEN :: string where
  "SVG_OPEN = ''<svg'' @ attr ''xmlns'' ''http://www.w3.org/2000/svg'' @ attr ''width'' ''64'' @ attr ''height'' ''64''"

definition SVG :: string where
  "SVG = SVG_OPEN @ ''/>''"

definition SVG_RECT :: string where
  "SVG_RECT = SVG_OPEN @ ''><rect'' @ attr ''width'' ''64'' @ attr ''height'' ''64'' @ attr ''fill'' ''#e01050'' @ ''/></svg>''"

definition PDF :: string where
  "PDF = ''%PDF-1.4'' @ [CHR 0x0A] @ ''1 0 obj<<>>endobj'' @ [CHR 0x0A] @ ''trailer<<>>'' @ [CHR 0x0A] @ ''%%EOF''"

lemma sniff_foreign: "sniff HTML = None" "sniff SVG = None" "sniff SVG_RECT = None" "sniff PDF = None" "sniff [] = None"
  by (simp_all add: sniff_def HTML_def SVG_def SVG_RECT_def SVG_OPEN_def PDF_def PNG_SIGNATURE_def)

lemma sniff_png: "sniff (PNG_SIGNATURE @ rest) = Some Png"
  by (simp add: sniff_def PNG_SIGNATURE_def)

definition non_images_are_refused_by_signature :: bool where
  "non_images_are_refused_by_signature \<longleftrightarrow>
     list_all (\<lambda>b. decode corrupt_crate b = Some (Inl Unaccepted)) [HTML, SVG, PDF, []]"

lemma non_images_are_refused_by_signature_holds: non_images_are_refused_by_signature
  by (simp add: non_images_are_refused_by_signature_def decode_def corrupt_crate_def crate_of_def sniff_foreign)

definition truncated_png_is_corrupt_not_a_panic :: bool where
  "truncated_png_is_corrupt_not_a_panic \<longleftrightarrow>
     (case decode corrupt_crate (PNG_SIGNATURE @ replicate 32 (CHR 0x00)) of
        Some (Inl (Corrupt _)) \<Rightarrow> True | _ \<Rightarrow> False)"

lemma truncated_png_is_corrupt_not_a_panic_holds: truncated_png_is_corrupt_not_a_panic
  by (simp add: truncated_png_is_corrupt_not_a_panic_def decode_def corrupt_crate_def crate_of_def sniff_png ACCEPTED_def)

lemma unreadable_is_default:
  assumes "decode crate b = Some (Inl e)" "length b \<le> MAX_DECODE_BYTES"
  shows "select_palette crate (file_of b) = Some ([], 0)" "extract_colors crate (file_of b) m = Some DEFAULT"
  using assms
  by (simp_all add: select_palette_def extract_colors_def histogram_def sample_file_def file_of_def sample_bytes_def
      Let_def render_palette_def DEFAULT_def)

lemma text_lengths: "length HTML \<le> 200" "length SVG_RECT \<le> 200" "length PDF \<le> 200" "length PNG_SIGNATURE = 8"
  by (simp_all add: HTML_def SVG_RECT_def SVG_OPEN_def attr_def PDF_def PNG_SIGNATURE_def)

definition rejects_non_images_whatever_the_extension :: bool where
  "rejects_non_images_whatever_the_extension \<longleftrightarrow>
     list_all (\<lambda>b. extract_colors corrupt_crate (file_of b) Dark = Some DEFAULT)
       [HTML, SVG_RECT, PDF, PNG_SIGNATURE @ replicate 16 (CHR 0x00)]"

lemma rejects_non_images_whatever_the_extension_holds: rejects_non_images_whatever_the_extension
proof -
  have "decode corrupt_crate b = Some (Inl Unaccepted)" if "b \<in> {HTML, SVG_RECT, PDF}" for b
    using that by (auto simp: decode_def corrupt_crate_def crate_of_def sniff_foreign)
  moreover have "decode corrupt_crate (PNG_SIGNATURE @ rest) = Some (Inl (Corrupt ''bad header''))" for rest
    by (simp add: decode_def corrupt_crate_def crate_of_def sniff_png ACCEPTED_def)
  ultimately show ?thesis
    using text_lengths unreadable_is_default(2)[of corrupt_crate]
    by (simp add: rejects_non_images_whatever_the_extension_def MAX_DECODE_BYTES_def)
qed

definition select_palette_reports_empty_for_an_unreadable_cover :: bool where
  "select_palette_reports_empty_for_an_unreadable_cover \<longleftrightarrow>
     select_palette corrupt_crate (file_of ''this is not an image'') = Some ([], 0)"

lemma select_palette_reports_empty_for_an_unreadable_cover_holds: select_palette_reports_empty_for_an_unreadable_cover
proof -
  have "decode corrupt_crate ''this is not an image'' = Some (Inl Unaccepted)"
    by (simp add: decode_def corrupt_crate_def crate_of_def sniff_def PNG_SIGNATURE_def)
  from unreadable_is_default(1)[OF this] show ?thesis
    by (simp add: select_palette_reports_empty_for_an_unreadable_cover_def MAX_DECODE_BYTES_def)
qed

text \<open>A PNG of which only the header was written, declaring these sides.\<close>

definition png_header_only :: "nat \<Rightarrow> nat \<Rightarrow> image_crate \<times> string" where
  "png_header_only w h = (crate_of (Inr (w, h)) (Inl ''no pixel data''), PNG_SIGNATURE @ ''IHDR'')"

definition rejects_oversized_dimensions_from_the_header :: bool where
  "rejects_oversized_dimensions_from_the_header \<longleftrightarrow>
     (case png_header_only 4100 4100 of (crate, b) \<Rightarrow>
        4100 * 4100 > MAX_PIXELS \<and> decode crate b = Some (Inl TooManyPixels)
        \<and> extract_colors crate (file_of b) Dark = Some DEFAULT)"

lemma rejects_oversized_dimensions_from_the_header_holds: rejects_oversized_dimensions_from_the_header
proof -
  let ?c = "crate_of (Inr (4100, 4100)) (Inl ''no pixel data'')" and ?b = "PNG_SIGNATURE @ ''IHDR''"
  have "decode ?c ?b = Some (Inl TooManyPixels)"
    by (simp add: decode_def crate_of_def sniff_png ACCEPTED_def MAX_PIXELS_def)
  with unreadable_is_default(2)[OF this] show ?thesis
    by (simp add: rejects_oversized_dimensions_from_the_header_def png_header_only_def MAX_PIXELS_def
        MAX_DECODE_BYTES_def text_lengths)
qed

definition render_palette_maps_the_empty_selection_to_the_default :: bool where
  "render_palette_maps_the_empty_selection_to_the_default \<longleftrightarrow> render_palette [] 0 Dark = Some DEFAULT"

lemma render_palette_maps_the_empty_selection_to_the_default_holds:
  render_palette_maps_the_empty_selection_to_the_default
  by (simp add: render_palette_maps_the_empty_selection_to_the_default_def render_palette_def DEFAULT_def)

subsection \<open>Solid covers\<close>

text \<open>A 64x64 PNG of one colour.\<close>

definition solid_png :: "rgb \<Rightarrow> image_crate" where
  "solid_png p = crate_of (Inr (64, 64)) (Inr (ImageRgb8 64 64 (replicate 4096 p)))"

lemma solid_png_cover: "solid_cover (solid_png p) (file_of PNG_SIGNATURE) p"
  unfolding solid_cover_def
proof (intro exI conjI)
  show "cf_open (file_of PNG_SIGNATURE) = Inr ()" "cf_len (file_of PNG_SIGNATURE) = Inr 8"
    "cf_data (file_of PNG_SIGNATURE) = Inr PNG_SIGNATURE"
    by (simp_all add: file_of_def text_lengths)
  show "(8 :: nat) \<le> MAX_DECODE_BYTES" "length PNG_SIGNATURE \<le> MAX_DECODE_BYTES"
    by (simp_all add: MAX_DECODE_BYTES_def text_lengths)
  show "guess_format (solid_png p) PNG_SIGNATURE = Some Png" "Png \<in> set ACCEPTED"
    using sniff_png[of "[]"] by (simp_all add: solid_png_def crate_of_def ACCEPTED_def)
  show "into_dimensions (solid_png p) Png PNG_SIGNATURE = Inr (64, 64)"
    "decode_body (solid_png p) Png PNG_SIGNATURE (64, 64) = Inr (ImageRgb8 64 64 (replicate 4096 p))"
    by (simp_all add: solid_png_def crate_of_def)
  show "(64 :: nat) * 64 \<le> MAX_PIXELS" by (simp add: MAX_PIXELS_def)
  show "to_rgb_like_pillow (ImageRgb8 64 64 (replicate 4096 p)) =
      Some \<lparr>rb_width = 64, rb_height = 64, rb_pixels = replicate 4096 p\<rparr>"
    by (simp add: rgb8_new_def)
  show "solid_raster p \<lparr>rb_width = 64, rb_height = 64, rb_pixels = replicate 4096 p\<rparr>"
    by (simp add: solid_raster_def raster_ok_def flat_def list_all_iff)
qed

definition solid_cover_repeats_not_invents :: bool where
  "solid_cover_repeats_not_invents \<longleftrightarrow>
     (case extract_colors (solid_png (0xc8, 0x1e, 0x5a)) (file_of PNG_SIGNATURE) Dark of
        Some [a, b, c] \<Rightarrow> a = b \<and> b = c | _ \<Rightarrow> False)"

lemma solid_cover_repeats_not_invents_holds: solid_cover_repeats_not_invents
proof -
  obtain c where "render_palette (replicate 3 (solid_pick (0xc8, 0x1e, 0x5a))) 1 Dark = Some (replicate 3 c)"
    using render_const by blast
  then show ?thesis
    using solid_select[OF solid_png_cover] by (simp add: solid_cover_repeats_not_invents_def extract_colors_def numeral_3_eq_3)
qed

definition extract_returns_three_valid_hex :: bool where
  "extract_returns_three_valid_hex \<longleftrightarrow>
     (case extract_colors (solid_png (0xe0, 0x10, 0x50)) (file_of PNG_SIGNATURE) Dark of
        Some [a, b, c] \<Rightarrow> list_all (\<lambda>x. length x = 7 \<and> x ! 0 = CHR ''#'' \<and> list_all is_ascii_hexdigit (tl x)) [a, b, c]
      | _ \<Rightarrow> False)"

lemma extract_returns_three_valid_hex_holds: extract_returns_three_valid_hex
proof -
  let ?ps = "replicate 3 (solid_pick (0xe0, 0x10, 0x50))"
  obtain cs where cs: "render_palette ?ps 1 Dark = Some cs" "length cs = 3" "list_all valid_hex cs"
    using render_palette_total[of ?ps 1 Dark] by (auto simp: picks_ok_def)
  have "length x = 7 \<and> x ! 0 = CHR ''#'' \<and> list_all is_ascii_hexdigit (tl x)" if "valid_hex x" for x
    using that by (cases x) (auto simp: valid_hex_def)
  then show ?thesis
    using cs solid_select[OF solid_png_cover]
    by (auto simp: extract_returns_three_valid_hex_def extract_colors_def numeral_3_eq_3 length_Suc_conv)
qed

definition rejects_oversized_file_bytes :: bool where
  "rejects_oversized_file_bytes \<longleftrightarrow>
     sample_file (solid_png (0xe0, 0x10, 0x50)) (file_of (PNG_SIGNATURE @ ''IHDR'')) 8 = Some (Inl TooLarge)"

lemma rejects_oversized_file_bytes_holds: rejects_oversized_file_bytes
  by (simp add: rejects_oversized_file_bytes_def sample_file_def file_of_def text_lengths)

subsection \<open>The JPEG draft scale and the box reduction\<close>

definition draft_scale_matches_pillow :: bool where
  "draft_scale_matches_pillow \<longleftrightarrow>
     map (\<lambda>(w, h). draft_scale w h) [(640, 640), (480, 480), (1000, 3000), (250, 900), (199, 199), (64, 64)] =
       [4, 4, 8, 2, 1, 1]"

lemma draft_scale_matches_pillow_holds: draft_scale_matches_pillow
  by (simp add: draft_scale_matches_pillow_def draft_scale_def SAMPLE_def)

definition raster :: "nat \<Rightarrow> nat \<Rightarrow> rgb \<Rightarrow> rgb8" where
  "raster w h p = \<lparr>rb_width = w, rb_height = h, rb_pixels = replicate (w * h) p\<rparr>"

lemma raster_solid: "0 < w \<Longrightarrow> w \<le> 400000 \<Longrightarrow> 0 < h \<Longrightarrow> h \<le> 400000 \<Longrightarrow> solid_raster p (raster w h p)"
  by (simp add: solid_raster_def raster_def raster_ok_def flat_def list_all_iff)

definition box_reduce_rounds_up_partial_edge_blocks :: bool where
  "box_reduce_rounds_up_partial_edge_blocks \<longleftrightarrow>
     box_reduce (raster 5 3 (10, 20, 30)) 2 = Some (raster 3 2 (10, 20, 30))"

lemma box_reduce_rounds_up_partial_edge_blocks_holds: box_reduce_rounds_up_partial_edge_blocks
proof -
  let ?p = "(10, 20, 30) :: rgb" and ?r = "raster 5 3 (10, 20, 30)"
  have ok: "raster_ok ?r" "flat ?p ?r" using raster_solid[of 5 3 ?p] by (simp_all add: solid_raster_def)
  obtain img where img: "box_reduce ?r 2 = Some img" "rb_width img = div_ceil 5 2" "rb_height img = div_ceil 3 2" "raster_ok img"
    using box_reduce_total[OF ok(1), of 2] by (auto simp: raster_def)
  have "rb_pixels img = replicate (length (rb_pixels img)) ?p"
    using box_reduce_flat[OF img(1) ok(2)] unfolding flat_def by (rule all_replicate)
  then have "img = raster 3 2 ?p"
    using img by (intro rgb8.equality) (simp_all add: raster_def raster_ok_def div_ceil_def)
  then show ?thesis using img(1) by (simp add: box_reduce_rounds_up_partial_edge_blocks_def)
qed

subsection \<open>Resizing\<close>

definition solid_color_survives_any_resize :: bool where
  "solid_color_survives_any_resize \<longleftrightarrow>
     list_all (\<lambda>(w, h). case resize (raster w h (224, 16, 80)) 100 100 of
         None \<Rightarrow> False | Some out \<Rightarrow> list_all (\<lambda>p. p = (224, 16, 80)) (rb_pixels out))
       [(64, 64), (640, 640), (37, 211), (100, 3)]"

lemma resize_raster_flat:
  assumes "0 < w" "w \<le> 400000" "0 < h" "h \<le> 400000"
  shows "case resize (raster w h p) 100 100 of None \<Rightarrow> False | Some out \<Rightarrow> list_all (\<lambda>q. q = p) (rb_pixels out)"
proof -
  obtain img where "resize (raster w h p) 100 100 = Some img" "rb_pixels img = replicate (100 * 100) p"
    using resize_solid[OF raster_solid[OF assms], of 100 100 p] assms by (auto simp: raster_def)
  then show ?thesis by (simp add: list_all_iff)
qed

lemma solid_color_survives_any_resize_holds: solid_color_survives_any_resize
  by (simp add: solid_color_survives_any_resize_def resize_raster_flat)

definition very_tall_image_takes_the_two_step_path :: bool where
  "very_tall_image_takes_the_two_step_path \<longleftrightarrow>
     300 > 2 * (100 :: nat) \<and> (case resize (raster 2 300 (9, 9, 9)) 100 100 of
         None \<Rightarrow> False | Some out \<Rightarrow> list_all (\<lambda>p. p = (9, 9, 9)) (rb_pixels out))"

lemma very_tall_image_takes_the_two_step_path_holds: very_tall_image_takes_the_two_step_path
  by (simp add: very_tall_image_takes_the_two_step_path_def resize_raster_flat)

definition same_size_is_a_copy :: bool where
  "same_size_is_a_copy \<longleftrightarrow>
     (let img = \<lparr>rb_width = 2, rb_height = 1, rb_pixels = [(1, 2, 3), (4, 5, 6)]\<rparr> in resize img 2 1 = Some img)"

lemma same_size_is_a_copy_holds: same_size_is_a_copy
  by (simp add: same_size_is_a_copy_def resize_def)

definition output_has_the_requested_size :: bool where
  "output_has_the_requested_size \<longleftrightarrow>
     (case resize (raster 640 480 (0, 0, 0)) 100 100 of
        None \<Rightarrow> False
      | Some out \<Rightarrow> (rb_width out, rb_height out, length (rb_pixels out)) = (100, 100, 10000))"

lemma output_has_the_requested_size_holds: output_has_the_requested_size
proof -
  have "raster_ok (raster 640 480 (0, 0, 0))" by (simp add: raster_ok_def raster_def)
  from resize_raster[OF this, of 100 100] show ?thesis
    by (auto simp: output_has_the_requested_size_def raster_ok_def)
qed

subsection \<open>The quantizer\<close>

definition solid_image_is_one_entry :: bool where
  "solid_image_is_one_entry \<longleftrightarrow>
     (case quantize (replicate 100 (224, 16, 80)) 16 of
        None \<Rightarrow> False | Some q \<Rightarrow> qz_palette q = [(224, 16, 80)] \<and> quantized_colors q = [(100, 0)])"

lemma solid_image_is_one_entry_holds: solid_image_is_one_entry
  using quantize_const[of 100 "(224, 16, 80)"]
  by (simp add: solid_image_is_one_entry_def QUANTIZE_COLORS_def quantized_colors_def count_list_eq_length_filter)

definition never_more_entries_than_requested :: bool where
  "never_more_entries_than_requested \<longleftrightarrow>
     (case quantize (map (\<lambda>i. (of_nat (i mod 256), of_nat (i div 40 mod 256), of_nat (i * 7 mod 256))) [0..<10000]) 16 of
        None \<Rightarrow> False
      | Some q \<Rightarrow> length (qz_palette q) \<le> 16 \<and> sum_list (map fst (quantized_colors q)) = 10000)"

lemma never_more_entries_than_requested_holds: never_more_entries_than_requested
proof -
  let ?px = "map (\<lambda>i. (of_nat (i mod 256), of_nat (i div 40 mod 256), of_nat (i * 7 mod 256)) :: rgb) [0..<10000]"
  have "length ?px = 10000" by simp
  moreover from this have "?px \<noteq> []" by (metis list.size(3) zero_neq_numeral)
  ultimately obtain q where "quantize ?px QUANTIZE_COLORS = Some q" "length (qz_palette q) \<le> QUANTIZE_COLORS"
    "length (qz_indices q) = length ?px" "set (qz_indices q) \<subseteq> {..<length (qz_palette q)}"
    using sample_quantizes[of ?px] by auto
  moreover from this have "sum_list (map fst (quantized_colors q)) = 10000"
    using quantized_colors_spec(1)[of q] by simp
  ultimately show ?thesis by (simp add: never_more_entries_than_requested_def QUANTIZE_COLORS_def)
qed

end
