(* ===== verification/Palette_Tests.thy ===== *)
theory Palette_Tests
  imports Color_Props Ramp Quantize_Heap "HOL-Library.Sublist"
begin

text \<open>
  The unit tests of \<open>src/color/pick.rs\<close>, \<open>oklab.rs\<close>, \<open>tone.rs\<close>, \<open>ramp.rs\<close> and of the heap of \<open>quantize.rs\<close>, on exact
  reals. The tests that evaluate the numeric value of a perceptual colour to a tolerance are left out.
\<close>

subsection \<open>The heap\<close>

primrec popped :: "box_node list \<Rightarrow> nat \<Rightarrow> nat list \<Rightarrow> nat list" where
  "popped boxes 0 slots = []"
| "popped boxes (Suc k) slots =
     (case heap_remove boxes slots of
        (None, _) \<Rightarrow> []
      | (Some n, rest) \<Rightarrow> bn_pixel_count (boxes ! n) # popped boxes k rest)"

definition heap_pops_largest_count_first :: bool where
  "heap_pops_largest_count_first \<longleftrightarrow>
     (let boxes = box_counts [5, 9, 1, 9, 3]
      in popped boxes 6 (fold (heap_add boxes) [0..<5] [0]) = [9, 9, 5, 3, 1])"

lemma heap_pops_largest_count_first_holds: heap_pops_largest_count_first
  unfolding heap_pops_largest_count_first_def by code_simp

subsection \<open>Hue, saturation, value\<close>

definition hsv_matches_colorsys_reference_values :: bool where
  "hsv_matches_colorsys_reference_values \<longleftrightarrow>
     rgb_to_hsv 1 0 0 = (0, 1, 1) \<and> rgb_to_hsv 0 0 1 = (2 / 3, 1, 1) \<and> rgb_to_hsv 0.5 0.5 0.5 = (0, 0, 0.5)
     \<and> \<bar>fst (rgb_to_hsv 1 0 0.5) - 0.9166666666666666\<bar> < 1 / 10 ^ 15"

lemma hsv_matches_colorsys_reference_values_holds: hsv_matches_colorsys_reference_values
  by (simp add: hsv_matches_colorsys_reference_values_def rgb_to_hsv_def py_mod1_frac frac_def floor_eq_iff)

definition hsv_round_trips :: bool where
  "hsv_round_trips \<longleftrightarrow>
     list_all (\<lambda>(r, g, b). case rgb_to_hsv r g b of (h, s, v) \<Rightarrow> hsv_to_rgb h s v = (r, g, b))
       [(0.2, 0.6, 0.9), (0.9, 0.1, 0.4), (0, 0, 0), (1, 1, 0)]"

lemma hsv_round_trips_holds: hsv_round_trips
proof -
  have "case rgb_to_hsv r g b of (h, s, v) \<Rightarrow> hsv_to_rgb h s v = (r, g, b)" if "0 \<le> r" "0 \<le> g" "0 \<le> b" for r g b
    using rgb_to_hsv_back[OF that] by (simp split: prod.splits)
  then show ?thesis by (simp add: hsv_round_trips_def)
qed

subsection \<open>Picks\<close>

definition hsv_of_bytes :: "nat \<Rightarrow> nat \<Rightarrow> nat \<Rightarrow> hsv" where
  "hsv_of_bytes r g b = rgb_to_hsv (real r / 255) (real g / 255) (real b / 255)"

definition empty_histogram_yields_no_picks :: bool where
  "empty_histogram_yields_no_picks \<longleftrightarrow> select [] = Some ([], 0)"

lemma empty_histogram_yields_no_picks_holds: empty_histogram_yields_no_picks
  by (simp add: empty_histogram_yields_no_picks_def select_def)

definition solid_color_is_padded_not_invented :: bool where
  "solid_color_is_padded_not_invented \<longleftrightarrow>
     (case select [(10000, hsv_of_bytes 0xc8 0x1e 0x5a)] of
        Some (picks, n) \<Rightarrow> n = 1 \<and> length picks = 3 \<and> list_all (\<lambda>p. p = picks ! 0) picks | None \<Rightarrow> False)"

lemma solid_color_is_padded_not_invented_holds: solid_color_is_padded_not_invented
  by (cases "hsv_of_bytes 0xc8 0x1e 0x5a")
     (simp add: solid_color_is_padded_not_invented_def select_def rank_hist_def Let_def numeral_3_eq_3 split: prod.split)

definition speck_below_min_pop_gets_no_vibrancy_boost :: bool where
  "speck_below_min_pop_gets_no_vibrancy_boost \<longleftrightarrow>
     vibrancy_score 50 10000 (0, 1, 1) = 0.005 \<and> vibrancy_score 200 10000 (0, 1, 1) = 0.02 + 0.5"

lemma speck_below_min_pop_gets_no_vibrancy_boost_holds: speck_below_min_pop_gets_no_vibrancy_boost
  by (simp add: speck_below_min_pop_gets_no_vibrancy_boost_def vibrancy_score_def VIBRANCY_MIN_POP_def VIBRANCY_WEIGHT_def)

definition small_vivid_accent_beats_large_drab_background :: bool where
  "small_vivid_accent_beats_large_drab_background \<longleftrightarrow>
     (case (select [(5000, hsv_of_bytes 0x20 0x20 0x20), (4000, hsv_of_bytes 0x60 0x60 0x60), (1000, hsv_of_bytes 0xff 0x20 0x20)],
            hex_to_lch ''#ff2020'') of
        (Some (picks, _), Some red) \<Rightarrow> \<bar>fst (picks ! 0) - fst red\<bar> < 1 / 10 ^ 9 | _ \<Rightarrow> False)"

text \<open>The first of the ranked colours is picked, and is the lightness of its bytes.\<close>

lemma first_pick:
  "\<exists>ps n. select hist = Some (ps, n) \<and>
     ps ! 0 = (case hsv_to_rgb h s v of (r, g, b) \<Rightarrow> case srgb_to_oklab r g b of (l, a, bb) \<Rightarrow> to_lch l a bb)"
  if ranked: "rank_hist hist = (h, s, v) # rest"
proof -
  obtain r g b where c: "hsv_to_rgb h s v = (r, g, b)" by (cases "hsv_to_rgb h s v") auto
  obtain l a bb where o: "srgb_to_oklab r g b = (l, a, bb)" by (cases "srgb_to_oklab r g b") auto
  have grows: "prefix picked (pick_loop ranked picked labs)" for ranked picked labs
  proof (induction ranked arbitrary: picked labs)
    case (Cons e ranked)
    obtain h s v where e: "e = (h, s, v)" by (cases e) auto
    obtain p where p: "pick_loop (e # ranked) picked labs =
       (if length picked = 3 then picked
        else if list_all (\<lambda>q. SELECT_MIN_DE \<le> delta_e (pick_lab p) q) labs
        then pick_loop ranked (picked @ [p]) (labs @ [pick_lab p]) else pick_loop ranked picked labs)"
      using pick_loop_step[of h s v ranked picked labs] unfolding e by blast
    show ?case
      using Cons.IH[of picked labs] append_prefixD[OF Cons.IH[of "picked @ [p]" "labs @ [pick_lab p]"]] unfolding p by simp
  qed simp
  obtain l1 c1 h1 where p: "to_lch l a bb = (l1, c1, h1)" by (cases "to_lch l a bb") auto
  obtain qs where "pick_loop (rank_hist hist) [] [] = [to_lch l a bb] @ qs"
    using grows[of "[to_lch l a bb]" rest "[from_lch l1 c1 h1]"] by (auto simp: ranked c o p prefix_def)
  moreover have "hist \<noteq> []" using ranked by (auto simp: rank_hist_def)
  ultimately show ?thesis by (simp add: select_def c o)
qed

lemma small_vivid_accent_beats_large_drab_background_holds: small_vivid_accent_beats_large_drab_background
proof -
  let ?hist = "[(5000, hsv_of_bytes 0x20 0x20 0x20), (4000, hsv_of_bytes 0x60 0x60 0x60), (1000, hsv_of_bytes 0xff 0x20 0x20)]"
  have red: "hsv_of_bytes 0xff 0x20 0x20 = (0, 223 / 255, 1)"
    by (simp add: hsv_of_bytes_def rgb_to_hsv_def py_mod1_frac frac_def)
  have "\<exists>rest. rank_hist ?hist = (0, 223 / 255, 1) # rest"
    unfolding red by (simp add: hsv_of_bytes_def rgb_to_hsv_def rank_hist_def vibrancy_score_def
        VIBRANCY_MIN_POP_def VIBRANCY_WEIGHT_def)
  then obtain rest where "rank_hist ?hist = (0, 223 / 255, 1) # rest" by blast
  from first_pick[OF this] obtain ps n where ps: "select ?hist = Some (ps, n)"
    "ps ! 0 = (case hsv_to_rgb 0 (223 / 255) 1 of (r, g, b) \<Rightarrow> case srgb_to_oklab r g b of (l, a, bb) \<Rightarrow> to_lch l a bb)"
    by blast
  have "hsv_to_rgb 0 (223 / 255) 1 = (1, 32 / 255, 32 / 255)" by (simp add: hsv_to_rgb_def trunc_def)
  moreover have "hex_channels ''#ff2020'' = Some (255, 32, 32)" by code_simp
  ultimately show ?thesis
    using ps by (simp add: small_vivid_accent_beats_large_drab_background_def hex_to_lch_def split: prod.split)
qed

subsection \<open>Oklab\<close>

definition close :: "real \<Rightarrow> real \<Rightarrow> real \<Rightarrow> bool" where
  "close got want eps \<longleftrightarrow> \<bar>got - want\<bar> \<le> eps"

definition lab_close :: "lab \<Rightarrow> lab \<Rightarrow> real \<Rightarrow> bool" where
  "lab_close p q eps \<longleftrightarrow>
     (case (p, q) of ((p0, p1, p2), (q0, q1, q2)) \<Rightarrow> close p0 q0 eps \<and> close p1 q1 eps \<and> close p2 q2 eps)"

definition lch_round_trips :: bool where
  "lch_round_trips \<longleftrightarrow>
     (let lab = srgb_to_oklab 0.2 0.6 0.9
      in case lab of (l0, a0, b0) \<Rightarrow>
         case to_lch l0 a0 b0 of (l, c, h) \<Rightarrow> lab_close (from_lch l c h) lab (1 / 10 ^ 9))"

lemma lch_round_trips_holds: lch_round_trips
proof -
  obtain l a b where lab: "srgb_to_oklab 0.2 0.6 0.9 = (l, a, b)" by (cases "srgb_to_oklab 0.2 0.6 0.9") auto
  show ?thesis
    unfolding lch_round_trips_def lab Let_def prod.case to_lch_def lch_polar by (simp add: lab_close_def close_def)
qed

lemma cube_root_near:
  assumes "0 \<le> x" "x \<le> 1"
  shows "x \<le> root 3 x" "root 3 x \<le> 1"
proof -
  have r: "0 \<le> root 3 x" "root 3 x \<le> 1" using assms by simp_all
  then have "root 3 x ^ 3 \<le> root 3 x ^ 1" by (intro power_decreasing) simp_all
  then show "x \<le> root 3 x" "root 3 x \<le> 1" using assms r by simp_all
qed

lemma to_linear_ends: "to_linear 0 = 0" "to_linear 1 = 1"
  by (simp_all add: to_linear_def)

definition black_and_white_anchor_the_scale :: bool where
  "black_and_white_anchor_the_scale \<longleftrightarrow>
     close (fst (srgb_to_oklab 0 0 0)) 0 (1 / 10 ^ 6) \<and> close (fst (srgb_to_oklab 1 1 1)) 1 (1 / 10 ^ 6)"

lemma black_and_white_anchor_the_scale_holds: black_and_white_anchor_the_scale
proof -
  define m where "m = root 3 (9999999999 / 10000000000)"
  have "fst (srgb_to_oklab 1 1 1) = 0.2104542553 + 0.7936177850 * m - 0.0040720468"
    by (simp add: srgb_to_oklab_def to_linear_ends Let_def m_def)
  moreover have "9999999999 / 10000000000 \<le> m" "m \<le> 1" unfolding m_def by (rule cube_root_near; simp)+
  ultimately have "- (1 / 10 ^ 6) \<le> fst (srgb_to_oklab 1 1 1) - 1" "fst (srgb_to_oklab 1 1 1) - 1 \<le> 1 / 10 ^ 6"
    by simp_all
  then have "close (fst (srgb_to_oklab 1 1 1)) 1 (1 / 10 ^ 6)" unfolding close_def abs_le_iff by linarith
  then show ?thesis
    by (simp add: black_and_white_anchor_the_scale_def close_def[of _ 0] srgb_to_oklab_def to_linear_ends Let_def)
qed

definition identical_colors_have_zero_distance :: bool where
  "identical_colors_have_zero_distance \<longleftrightarrow>
     (let lab = srgb_to_oklab 0.2 0.6 0.9 in close (delta_e lab lab) 0 (1 / 10 ^ 9))"

lemma identical_colors_have_zero_distance_holds: identical_colors_have_zero_distance
  by (simp add: identical_colors_have_zero_distance_def delta_e_def close_def split: prod.split)

definition channel_quantization_rounds_ties_to_even_like_python :: bool where
  "channel_quantization_rounds_ties_to_even_like_python \<longleftrightarrow>
     list_all (\<lambda>(tie, want). channel_to_u8 (tie / 255) = want) [(0.5, 0), (1.5, 2), (2.5, 2), (254.5, 254)]"

lemma channel_quantization_rounds_ties_to_even_like_python_holds: channel_quantization_rounds_ties_to_even_like_python
  by (simp add: channel_quantization_rounds_ties_to_even_like_python_def channel_to_u8_def round_ties_even_def)

subsection \<open>Toning\<close>

definition toned_slot :: "real \<Rightarrow> real \<Rightarrow> real \<Rightarrow> toned" where
  "toned_slot l h_deg c_src = \<lparr>t_l = l, t_h = h_deg * pi / 180, t_src = c_src\<rparr>"

definition lch_of :: "string list \<Rightarrow> lch list option" where
  "lch_of hexes = those (map hex_to_lch hexes)"

definition chroma_never_exceeds_the_ceiling :: bool where
  "chroma_never_exceeds_the_ceiling \<longleftrightarrow>
     list_all (\<lambda>l. list_all (\<lambda>h_deg. let h = h_deg * pi / 180
        in chroma_for l h 0.30 \<le> max_chroma l h + 1 / 10 ^ 9) [60, 110, 195, 264]) [0.15, 0.35, 0.55]"

lemma chroma_never_exceeds_the_ceiling_holds: chroma_never_exceeds_the_ceiling
proof -
  have "chroma_for l h 0.30 \<le> max_chroma l h + 1 / 10 ^ 9" if "0 \<le> l" "l \<le> 1" for l h
    using chroma_below_ceiling[of "0.30" l h] that by simp
  then show ?thesis by (simp add: chroma_never_exceeds_the_ceiling_def Let_def)
qed

definition neutral_slot_is_not_enriched :: bool where
  "neutral_slot_is_not_enriched \<longleftrightarrow> chroma_for 0.30 0 0.001 < NEUTRAL_C"

lemma neutral_slot_is_not_enriched_holds: neutral_slot_is_not_enriched
  by (simp add: neutral_slot_is_not_enriched_def chroma_for_def NEUTRAL_C_def Let_def)

definition gamma_light_is_the_structural_inverse_of_dark :: bool where
  "gamma_light_is_the_structural_inverse_of_dark \<longleftrightarrow> \<bar>Tone.gamma Light - 1 / Tone.gamma Dark\<bar> < 0.005"

lemma gamma_light_is_the_structural_inverse_of_dark_holds: gamma_light_is_the_structural_inverse_of_dark
  by (simp add: gamma_light_is_the_structural_inverse_of_dark_def Tone.gamma_def abs_less_iff)

lemma lch_of_length: "lch_of hexes = Some src \<Longrightarrow> length src = length hexes"
  unfolding lch_of_def
proof (induction hexes arbitrary: src)
  case (Cons x xs)
  then show ?case by (cases "hex_to_lch x"; cases "those (map hex_to_lch xs)") auto
qed simp

lemma lch_of_some: "list_all (\<lambda>x. hex_channels x \<noteq> None) hexes \<Longrightarrow> \<exists>src. lch_of hexes = Some src"
  unfolding lch_of_def by (induction hexes) (auto simp: hex_to_lch_def)

lemma parsed: "list_all (\<lambda>x. hex_channels x \<noteq> None)
    [''#000000'', ''#ffffff'', ''#e01050'', ''#10e050'', ''#5010e0'', ''#c81e5a'', ''#d1a973'', ''#b89265'', ''#9d7156'']"
  by code_simp

text \<open>Toning the colours of a palette that parses.\<close>

lemma toned_palette:
  assumes "hexes \<noteq> []" "list_all (\<lambda>x. hex_channels x \<noteq> None) hexes"
  shows "\<exists>src ts. lch_of hexes = Some src \<and> tone src m = Some ts \<and> length ts = length hexes \<and> length src = length hexes
    \<and> list_all (in_envelope m) ts \<and> map (\<lambda>t. (t_src t, t_h t)) ts = map snd src"
proof -
  obtain src where src: "lch_of hexes = Some src" using lch_of_some[OF assms(2)] by blast
  have len: "length src = length hexes" by (rule lch_of_length[OF src])
  with assms(1) have "src \<noteq> []" by auto
  from tone_spec[OF this, of m] show ?thesis using src len by auto
qed

definition output_lands_inside_the_mode_envelope :: bool where
  "output_lands_inside_the_mode_envelope \<longleftrightarrow>
     list_all (\<lambda>m. case envelope m of (lo, hi) \<Rightarrow>
       list_all (\<lambda>hexes. case Option.bind (lch_of hexes) (\<lambda>src. tone src m) of
           None \<Rightarrow> False
         | Some slots \<Rightarrow> list_all (\<lambda>s. lo - 1 / 10 ^ 9 \<le> t_l s \<and> t_l s \<le> hi + 1 / 10 ^ 9) slots)
         [[''#000000''], [''#ffffff''], [''#e01050'', ''#10e050'', ''#5010e0'']]) [Dark, Light]"

lemma output_lands_inside_the_mode_envelope_holds: output_lands_inside_the_mode_envelope
proof -
  have "case Option.bind (lch_of hexes) (\<lambda>src. tone src m) of None \<Rightarrow> False
      | Some slots \<Rightarrow> list_all (\<lambda>s. fst (envelope m) - 1 / 10 ^ 9 \<le> t_l s \<and> t_l s \<le> snd (envelope m) + 1 / 10 ^ 9) slots"
    if "hexes \<noteq> []" "list_all (\<lambda>x. hex_channels x \<noteq> None) hexes" for m hexes
    using toned_palette[OF that, of m] by (fastforce simp: list_all_iff in_envelope_def)
  then show ?thesis using parsed by (simp add: output_lands_inside_the_mode_envelope_def split_beta)
qed

definition tone_never_modifies_hue :: bool where
  "tone_never_modifies_hue \<longleftrightarrow>
     list_all (\<lambda>m. case lch_of [''#e01050'', ''#10e050'', ''#5010e0''] of
         None \<Rightarrow> False
       | Some src \<Rightarrow> (case tone src m of
             None \<Rightarrow> False
           | Some slots \<Rightarrow> list_all (\<lambda>(got, want). \<bar>t_h got - snd (snd want)\<bar> < 1 / 10 ^ 12) (zip slots src)))
       [Dark, Light]"

lemma tone_never_modifies_hue_holds: tone_never_modifies_hue
proof -
  have "case lch_of hexes of None \<Rightarrow> False
      | Some src \<Rightarrow> (case tone src m of None \<Rightarrow> False
          | Some slots \<Rightarrow> list_all (\<lambda>(got, want). \<bar>t_h got - snd (snd want)\<bar> < 1 / 10 ^ 12) (zip slots src))"
    if hexes: "hexes \<noteq> []" "list_all (\<lambda>x. hex_channels x \<noteq> None) hexes" for m hexes
  proof -
    obtain src ts where t: "lch_of hexes = Some src" "tone src m = Some ts" "length ts = length src"
      "map (\<lambda>t. (t_src t, t_h t)) ts = map snd src"
      using toned_palette[OF hexes, of m] by auto
    have "t_h (ts ! i) = snd (snd (src ! i))" if "i < length src" for i
    proof -
      have "map (\<lambda>t. (t_src t, t_h t)) ts ! i = map snd src ! i" using t(4) by simp
      then show ?thesis using that t(3) by (metis nth_map snd_conv)
    qed
    then show ?thesis using t(1-3) by (simp add: list_all_length)
  qed
  then show ?thesis using parsed by (simp add: tone_never_modifies_hue_def)
qed

definition duplicate_slots_are_never_separated :: bool where
  "duplicate_slots_are_never_separated \<longleftrightarrow>
     (case Option.bind (lch_of (replicate 3 ''#c81e5a'')) (\<lambda>src. tone src Dark) of
        None \<Rightarrow> False
      | Some slots \<Rightarrow> (case separate slots Dark 1 of
            Some (out, r) \<Rightarrow> t_l (out ! 0) = t_l (out ! 1) \<and> t_l (out ! 1) = t_l (out ! 2)
              \<and> sep_reason r = Duplicates \<and> \<not> resolved r
          | None \<Rightarrow> False))"

lemma duplicate_slots_are_never_separated_holds: duplicate_slots_are_never_separated
proof -
  obtain x where x: "hex_to_lch ''#c81e5a'' = Some x" using parsed by (cases "hex_to_lch ''#c81e5a''") (simp_all add: hex_to_lch_def)
  then have "lch_of (replicate 3 ''#c81e5a'') = Some (replicate 3 x)" by (simp add: lch_of_def numeral_3_eq_3)
  moreover have "\<exists>t. tone (replicate 3 x) Dark = Some (replicate 3 t)"
    by (cases x) (simp add: tone_def Let_def envelope_def numeral_3_eq_3)
  ultimately show ?thesis
    by (auto simp: duplicate_slots_are_never_separated_def separate_def numeral_3_eq_3)
qed

definition collide :: "mode \<Rightarrow> toned list option" where
  "collide m = Option.bind (lch_of [''#d1a973'', ''#b89265'', ''#9d7156'']) (\<lambda>src. tone src m)"

text \<open>A panic of \<open>collide\<close> itself would not count.\<close>

definition n_distinct_beyond_slots_is_a_caller_bug :: bool where
  "n_distinct_beyond_slots_is_a_caller_bug \<longleftrightarrow>
     (case collide Dark of None \<Rightarrow> False | Some slots \<Rightarrow> separate slots Dark 4 = None)"

lemma n_distinct_beyond_slots_is_a_caller_bug_holds: n_distinct_beyond_slots_is_a_caller_bug
proof -
  obtain src ts where "lch_of [''#d1a973'', ''#b89265'', ''#9d7156''] = Some src" "tone src Dark = Some ts" "length ts = 3"
    using toned_palette[of "[''#d1a973'', ''#b89265'', ''#9d7156'']" Dark] parsed by auto
  then show ?thesis by (simp add: n_distinct_beyond_slots_is_a_caller_bug_def collide_def separate_def)
qed

subsection \<open>The ramp\<close>

definition expands_to_twelve_cells :: bool where
  "expands_to_twelve_cells \<longleftrightarrow> map_option length (expand ''#ff0000'' ''#00ff00'' ''#0000ff'') = Some 12"

definition full_alpha_cells_are_the_endpoints :: bool where
  "full_alpha_cells_are_the_endpoints \<longleftrightarrow>
     map_option (\<lambda>cells. (cells ! 0, cells ! 4, cells ! 8)) (expand ''#ff0000'' ''#00ff00'' ''#0000ff'') =
       Some (''#ff0000'', ''#00ff00'', ''#0000ff'')"

definition solid_palette_expands_to_one_color :: bool where
  "solid_palette_expands_to_one_color \<longleftrightarrow>
     map_option remdups (expand ''#c81e5a'' ''#c81e5a'' ''#c81e5a'') = Some [''#c81e5a'']"

definition midpoint_cell_lies_between_its_endpoints :: bool where
  "midpoint_cell_lies_between_its_endpoints \<longleftrightarrow>
     (case expand ''#000000'' ''#ffffff'' ''#000000'' of
        None \<Rightarrow> False
      | Some cells \<Rightarrow> (case hex_channels (cells ! 2) of None \<Rightarrow> False | Some (mid, _, _) \<Rightarrow> 100 < mid \<and> mid < 155))"

definition alpha_half_rounds_half_away_from_zero :: bool where
  "alpha_half_rounds_half_away_from_zero \<longleftrightarrow>
     map_option (\<lambda>cells. cells ! 2) (expand ''#010100'' ''#000001'' ''#000000'') = Some ''#010101''"

definition black_and_white_anchor_the_range :: bool where
  "black_and_white_anchor_the_range \<longleftrightarrow>
     (case (mean_luminance ''#000000'' ''#000000'' ''#000000'', mean_luminance ''#ffffff'' ''#ffffff'' ''#ffffff'') of
        (Some black, Some white) \<Rightarrow> \<bar>black\<bar> < 1 / 10 ^ 6 \<and> \<bar>white - 1\<bar> < 1 / 10 ^ 6 | _ \<Rightarrow> False)"

text \<open>The channels of the colours the tests blend, and the cells of the blends.\<close>

lemma channels:
  "hex_channels ''#ff0000'' = Some (255, 0, 0)" "hex_channels ''#00ff00'' = Some (0, 255, 0)"
  "hex_channels ''#0000ff'' = Some (0, 0, 255)" "hex_channels ''#c81e5a'' = Some (200, 30, 90)"
  "hex_channels ''#000000'' = Some (0, 0, 0)" "hex_channels ''#ffffff'' = Some (255, 255, 255)"
  "hex_channels ''#010100'' = Some (1, 1, 0)" "hex_channels ''#000001'' = Some (0, 0, 1)"
  by code_simp+

lemma cells:
  "hex_color 255 0 0 = ''#ff0000''" "hex_color 0 255 0 = ''#00ff00''" "hex_color 0 0 255 = ''#0000ff''"
  "hex_color 200 30 90 = ''#c81e5a''" "hex_color 1 1 1 = ''#010101''"
  by code_simp+

lemma expand_channels:
  assumes "hex_channels x = Some a" "hex_channels y = Some b" "hex_channels z = Some c"
  shows "expand x y z = Some (concat (map (\<lambda>pair. map (blend_cell [a, b, c] pair) ALPHAS) PAIRS))"
  using assms by (simp add: expand_def)

lemma blend_same: "v < 256 \<Longrightarrow> blend v v alpha = v"
  by (simp add: blend_def floor_eq_iff algebra_simps)

lemma expands_to_twelve_cells_holds: expands_to_twelve_cells
  by (simp add: expands_to_twelve_cells_def expand_channels[OF channels(1-3)] PAIRS_def ALPHAS_def)

lemma full_alpha_cells_are_the_endpoints_holds: full_alpha_cells_are_the_endpoints
  by (simp add: full_alpha_cells_are_the_endpoints_def expand_channels[OF channels(1-3)] PAIRS_def ALPHAS_def
      blend_cell_def blend_full cells)

lemma solid_palette_expands_to_one_color_holds: solid_palette_expands_to_one_color
  by (simp add: solid_palette_expands_to_one_color_def expand_channels[OF channels(4,4,4)] PAIRS_def ALPHAS_def
      blend_cell_def blend_same cells)

lemma midpoint_cell_lies_between_its_endpoints_holds: midpoint_cell_lies_between_its_endpoints
proof -
  have "blend 255 0 (1 / 2) = 128" by (simp add: blend_def)
  then show ?thesis
    using hex_color_channels[of 128 128 128]
    by (simp add: midpoint_cell_lies_between_its_endpoints_def expand_channels[OF channels(5,6,5)] PAIRS_def ALPHAS_def
        blend_cell_def)
qed

lemma alpha_half_rounds_half_away_from_zero_holds: alpha_half_rounds_half_away_from_zero
proof -
  have "blend 0 1 (1 / 2) = 1" "blend 1 0 (1 / 2) = 1" by (simp_all add: blend_def)
  then show ?thesis
    by (simp add: alpha_half_rounds_half_away_from_zero_def expand_channels[OF channels(7,8,5)] PAIRS_def ALPHAS_def
        blend_cell_def cells del: One_nat_def)
qed

lemma solid_luminance:
  assumes "hex_channels x = Some (r, g, b)" "r < 256" "g < 256" "b < 256"
  shows "mean_luminance x x x = Some (cell_luminance (r, g, b))"
proof -
  have "expand x x x = Some (replicate 12 (hex_color r g b))"
    using assms by (simp add: expand_channels[OF assms(1,1,1)] PAIRS_def ALPHAS_def blend_cell_def blend_same
        eval_nat_numeral)
  moreover have "those (map hex_channels (replicate k (hex_color r g b))) = Some (replicate k (r, g, b))" for k
    using hex_color_channels[OF assms(2-4)] by (induction k) simp_all
  ultimately show ?thesis by (simp add: mean_luminance_def sum_list_replicate)
qed

lemma black_and_white_anchor_the_range_holds: black_and_white_anchor_the_range
  using solid_luminance[OF channels(5)] solid_luminance[OF channels(6)]
  by (simp add: black_and_white_anchor_the_range_def cell_luminance_def to_linear_ends)

end
