(* ===== verification/Spec2Isabelle.thy ===== *)
theory Spec2Isabelle
  imports Coordinator_Props Coordinator_Limits Daemon_Props Daemon_System Quantize_Heap Ramp
    Coordinator_Tests Worker_Tests Input_Tests Policy_Tests Fetch_Tests Cache_Tests Cover_Tests Apply_Tests
    Sources_Tests Runtime_Tests Color_Tests Palette_Tests
begin

text \<open>
  A model of mpris-chroma, a daemon that follows the playing media player and recolours the wlchroma wallpaper with
  a palette taken from the cover of the current track. The Rust crate under \<open>src/src\<close> is modelled as it is written:
  records for its structs, datatypes for its enums, explicit state passing for its mutation, and \<open>None\<close> (or a
  value of an error type) where it panics or returns an error.

  \<^bold>\<open>How the program works.\<close> Event sources (playerctl's output, two D-Bus listeners, signals) put events into a
  channel; the event loop hands each to the coordinator, which keeps what it knows of every player, decides what
  should be shown, and posts jobs into a one-slot mailbox under increasing generations. The worker takes the newest
  job, resolves the cover (file URL, download into a cache, or the newest image of a directory), extracts three
  colours and calls the control program; its result comes back as an event, and failures are retried on a timer.

  \<^bold>\<open>Theories, in the order of their dependence.\<close>

  \<^item> \<open>Prelude\<close>: strings as byte lists, splitting, trimming, hexadecimal digits, durations, shared lemmas.
  \<^item> \<open>State\<close> (\<open>state.rs\<close>), \<open>Jobs\<close> (job types and \<open>Mailbox\<close> of \<open>worker.rs\<close>, with the locale \<open>handoff\<close>),
    \<open>Framing\<close> (\<open>framing.rs\<close>), \<open>Select\<close> (\<open>select.rs\<close>).
  \<^item> \<open>Coordinator\<close> (\<open>coordinator.rs\<close>): the state, every handler, the retry chain. \<open>Coordinator_Inv\<close> has the step
    relation, reachability and the invariants; \<open>Coordinator_Host\<close> the locales \<open>retry_host\<close> and \<open>job_host\<close> for what
    the coordinator asks of its host; \<open>Coordinator_Props\<close> the properties; \<open>Coordinator_Limits\<close> a limit of the cap.
  \<^item> \<open>Runtime\<close> (\<open>runtime.rs\<close>): the host over mailbox and timer, the jitter generator, the event loop. It interprets
    both host locales; waiting on the channel is an event source, a function of the time-out.
  \<^item> \<open>Policy\<close>, \<open>Fetch\<close>, \<open>Fs\<close>, \<open>Cache\<close>, \<open>Local\<close>, \<open>Cover\<close> (\<open>cover/\<close>): destination policy, redirect loop and
    bounded body, a file system with links, unreadable files and a script of faults, publication and eviction,
    confined local covers and the directory scan, the resolver.
  \<^item> \<open>Apply\<close> (\<open>apply.rs\<close>), \<open>Worker\<close> (\<open>worker.rs\<close>), \<open>Sources\<close> (\<open>sources/\<close>).
  \<^item> \<open>Quantize\<close> (\<open>color/quantize.rs\<close>) with \<open>Quantize_Props\<close>, \<open>Quantize_Tree\<close>, \<open>Quantize_Heap\<close> (locale
    \<open>priority_queue\<close>, interpreted on the code's heap), \<open>Oklab\<close>, \<open>Pick\<close>, \<open>Tone\<close>, \<open>Ramp\<close>, \<open>Resize\<close>, \<open>Decode\<close> and
    \<open>Color\<close> (\<open>color/\<close> and its files of the same names), with the properties in \<open>Tone_Props\<close>, \<open>Resize_Props\<close>,
    \<open>Decode_Props\<close> and \<open>Color_Props\<close>. \<open>Solid_Resize\<close>, \<open>Solid_Raster\<close> and \<open>Solid\<close> follow a cover of one colour
    through the resampling coefficients, the passes and the whole pipeline.
  \<^item> \<open>Daemon\<close> (\<open>daemon.rs\<close>, \<open>main.rs\<close>): the worker's stages composed of resolver, memo and control client, one run
    from startup revert to exit code, the decisions of \<open>main\<close>; \<open>Daemon_Props\<close> has its properties.
  \<^item> The running system: \<open>Protocol\<close> is the abstract handover of jobs, \<open>Handover\<close> the locale \<open>live_job_host\<close> (an
    extension of \<open>job_host\<close>, interpreted on the daemon's host), \<open>Thread\<close> the worker thread in atomic steps,
    \<open>System\<close> the step relation interleaving event loop, worker, producers and shutdown, \<open>System_Props\<close> the simulation
    and its consequences, \<open>System_Runs\<close> progress and concrete runs, \<open>Daemon_System\<close> the daemon's stages as its work.
  \<^item> Conformance: the theories \<open>Coordinator_Tests\<close>, \<open>Worker_Tests\<close>, \<open>Input_Tests\<close>, \<open>Policy_Tests\<close>, \<open>Fetch_Tests\<close>,
    \<open>Cache_Tests\<close>, \<open>Cover_Tests\<close>, \<open>Apply_Tests\<close>, \<open>Sources_Tests\<close>, \<open>Runtime_Tests\<close>, \<open>Color_Tests\<close> and \<open>Palette_Tests\<close>
    replay the unit tests of the modules on the model, one definition per test and a lemma that evaluates it.

  \<^bold>\<open>What is shown.\<close>

  \<^item> Input and selection: the framer yields exactly the lines of the stream within the bound; a line is accepted
    or dropped with nothing changed; selection picks the newest eligible player whatever the order of the map.
  \<^item> Coordinator and loop: what selection picks is what was last submitted, tracked players and cover states agree
    in every reachable state, generations never decrease, nothing is submitted after shutdown begins, retries are
    bounded and back off within the band, and no armed timer stays overdue.
  \<^item> Covers: every request goes to an allowed destination pinned to global addresses (the prefix tables are proved
    equal to the registered intervals), a fetch returns within its bounds, publication is atomic under every fault,
    eviction keeps the budgets, file URLs stay in their root, a resolved cover is served from the cache.
  \<^item> Worker: outcome, dedup key and mailbox agree on every branch; a skip is sound when the stages are faithful; a
    superseded job never reaches the control; one result per job, also after a panic.
  \<^item> System: every interleaving refines the handover protocol, so no submitted job is lost, the mailbox is never
    stale, an adopted success is what the display shows, and an outstanding job can always move; a stopped worker ends
    while the channel has room, and a full channel nobody reads is shown to stall the join.
  \<^item> Colour: decoding, resampling, quantizing, picking, toning and separating are total and each meets its
    contract (guards, sides, nearest entries, distances, envelope, displacement budget); extraction of any file gives
    three well-formed colours; the memo agrees with the uncached composition for any selection and renderer. A solid
    cover gives one colour three times over, whatever its sides: the fixed-point taps of every output pixel are shown
    to add up closely enough to 1 (for sides up to 4000 times the sample's) that rounding restores the colour exactly.
  \<^item> Lifecycle: exit code, reaping of the child, and a final revert with the worker stopped.

  \<^bold>\<open>Bounds and fuel.\<close> Loops that may not end are \<open>partial_function (option)\<close>: \<open>run_loop\<close> (a daemon),
  \<open>number_leaves\<close>, the reading of a body and the search for a temporary name; for the last three it is proved that
  they return. The link-following of the file system has the kernel's limit of 40. The passes of separation, the bisection of
  the gamut and the splits of the quantizer have the code's own constants. Counters of 64 bits (generations,
  sequence numbers) are natural numbers, since they advance by one per event; where wrap-around or saturation can
  matter (pixel hash, heap comparison, resampling accumulators, backoff, jitter) the width is kept.

  \<^bold>\<open>Parameters.\<close> The crates \<open>url\<close>, \<open>ureq\<close>, \<open>sha2\<close>, \<open>toml\<close>, \<open>zbus\<close> and \<open>image\<close>, the DNS resolver, clocks, child
  processes and lossy UTF-8 decoding are arguments of the definitions. Hypotheses on them say what is relied upon:
  digests are bytes, reading a body advances the clock or ends, a decoded buffer is as long as its sides say.

  \<^bold>\<open>Not modelled.\<close> The creation of threads, channels and processes (their outcome is an input); log lines except the
  ones the code counts or limits; rounding, NaN and signed zeros of floats, which are exact reals, so a bound shown
  here can be off by an ulp in the program; letters outside ASCII in \<open>to_lowercase\<close> and \<open>trim\<close>; the
  golden and end-to-end tests, and the unit tests that need a real thread, socket, child process, permission bits,
  lossy UTF-8, an encoded image or the numeric value of a perceptual colour; the module lists \<open>lib.rs\<close> and \<open>sources/mod.rs\<close>.
\<close>

end
